theory Spec2Isabelle
  imports Complex_Main
begin

section \<open>Text primitives of the Python runtime\<close>

text \<open>
  A Python \<open>str\<close> is modelled as the list of its code points. The type \<open>char\<close> covers the
  code points 0..255 (Latin-1); that is where the model of text stops. The character classes
  below are the ones the source reaches through \<open>str.lower\<close>, \<open>str.strip\<close> and the
  \<open>re\<close> escapes \<open>\s\<close> and \<open>\b\<close>, restricted to that range.
\<close>

definition py_isspace :: "char \<Rightarrow> bool" where
  \<comment> \<open>\<open>str.isspace\<close> of one character, which is also what \<open>\s\<close> matches in a \<open>str\<close> pattern\<close>
  "py_isspace c = ((of_char c :: nat) \<in> {9, 10, 11, 12, 13, 28, 29, 30, 31, 32, 133, 160})"

definition py_isupper :: "char \<Rightarrow> bool" where
  \<comment> \<open>the characters \<open>str.lower\<close> changes: A-Z and the Latin-1 capitals (not the sign U+00D7)\<close>
  "py_isupper c =
     (let n = (of_char c :: nat)
      in (65 \<le> n \<and> n \<le> 90) \<or> (192 \<le> n \<and> n \<le> 222 \<and> n \<noteq> 215))"

definition py_lower_char :: "char \<Rightarrow> char" where
  "py_lower_char c = (if py_isupper c then char_of ((of_char c :: nat) + 32) else c)"

definition py_lower :: "string \<Rightarrow> string" where
  "py_lower s = map py_lower_char s"

definition py_strip :: "string \<Rightarrow> string" where
  "py_strip s = rev (dropWhile py_isspace (rev (dropWhile py_isspace s)))"

definition py_isword :: "char \<Rightarrow> bool" where
  \<comment> \<open>\<open>\w\<close> of a \<open>str\<close> pattern: alphanumeric (alphabetic, decimal, digit or numeric) or \<open>_\<close>\<close>
  "py_isword c =
     (let n = (of_char c :: nat)
      in (48 \<le> n \<and> n \<le> 57) \<or> (65 \<le> n \<and> n \<le> 90) \<or> n = 95 \<or> (97 \<le> n \<and> n \<le> 122)
         \<or> n \<in> {170, 178, 179, 181, 185, 186, 188, 189, 190}
         \<or> (192 \<le> n \<and> n \<noteq> 215 \<and> n \<noteq> 247))"

definition word_boundary :: "char option \<Rightarrow> char option \<Rightarrow> bool" where
  \<comment> \<open>\<open>\b\<close> between two neighbouring positions; \<open>None\<close> is the start or the end of the string\<close>
  "word_boundary l r =
     ((case l of None \<Rightarrow> False | Some c \<Rightarrow> py_isword c)
        \<noteq> (case r of None \<Rightarrow> False | Some c \<Rightarrow> py_isword c))"

definition char_at :: "string \<Rightarrow> nat \<Rightarrow> char option" where
  "char_at s i = (if i < length s then Some (s ! i) else None)"

section \<open>Duplicate detection helpers (backend/main.py)\<close>

subsection \<open>\<open>_norm_invoice_no\<close>\<close>

definition is_invoice_sep :: "char \<Rightarrow> bool" where
  \<comment> \<open>the class \<open>[\s\-_/\.]\<close>\<close>
  "is_invoice_sep c = (py_isspace c \<or> c \<in> {CHR ''-'', CHR ''_'', CHR ''/'', CHR ''.''})"

definition norm_invoice_no :: "string option \<Rightarrow> string option" where
  "norm_invoice_no so =
     (case so of
        None \<Rightarrow> None
      | Some s \<Rightarrow>
          if s = [] then None
          else
            let s1 = py_lower s;
                s2 = filter (\<lambda>c. \<not> is_invoice_sep c) s1;
                s3 = dropWhile (\<lambda>c. c = CHR ''0'') s2
            in if s3 = [] then None else Some s3)"

subsection \<open>\<open>_norm_vendor\<close>\<close>

definition lit_then_boundary :: "string \<Rightarrow> string \<Rightarrow> bool" where
  \<comment> \<open>the literal \<open>w\<close> is read at the head of \<open>s\<close> and \<open>\b\<close> holds right after it\<close>
  "lit_then_boundary w s =
     (take (length w) s = w \<and> word_boundary (char_at s (length w - 1)) (char_at s (length w)))"

definition legal_suffix_at :: "char option \<Rightarrow> string \<Rightarrow> nat option" where
  \<comment> \<open>length of the match of \<open>\b(llc|inc|corp|co\.?|ltd)\b\<close> that starts at the head of \<open>s\<close>,
      \<open>prev\<close> being the character before it; alternatives in the pattern's order, the
      optional dot tried greedily first\<close>
  "legal_suffix_at prev s =
     (if \<not> word_boundary prev (char_at s 0) then None
      else if lit_then_boundary ''llc'' s then Some 3
      else if lit_then_boundary ''inc'' s then Some 3
      else if lit_then_boundary ''corp'' s then Some 4
      else if lit_then_boundary ''co.'' s then Some 3
      else if lit_then_boundary ''co'' s then Some 2
      else if lit_then_boundary ''ltd'' s then Some 3
      else None)"

primrec sub_legal :: "nat \<Rightarrow> char option \<Rightarrow> string \<Rightarrow> string" where
  \<comment> \<open>\<open>re.sub(pattern, '', s)\<close>, left to right: \<open>k\<close> characters of the current match are still to
      be dropped, \<open>prev\<close> is the previous character of the input\<close>
  "sub_legal k prev [] = []"
| "sub_legal k prev (c # cs) =
     (if 0 < k then sub_legal (k - 1) (Some c) cs
      else (case legal_suffix_at prev (c # cs) of
              Some n \<Rightarrow> sub_legal (n - 1) (Some c) cs
            | None \<Rightarrow> c # sub_legal 0 (Some c) cs))"

function collapse_spaces :: "string \<Rightarrow> string" where
  \<comment> \<open>\<open>re.sub(r'\s{2,}', ' ', s)\<close>: a run of two or more whitespace characters becomes one
      blank, a single whitespace character stays as it is\<close>
  "collapse_spaces [] = []"
| "collapse_spaces [c] = [c]"
| "collapse_spaces (c # d # cs) =
     (if py_isspace c \<and> py_isspace d then CHR '' '' # collapse_spaces (dropWhile py_isspace cs)
      else c # collapse_spaces (d # cs))"
  by pat_completeness auto
termination
proof (relation "measure length")
  fix c d :: char and cs :: string
  have "length (dropWhile py_isspace cs) \<le> length cs"
    by (rule length_dropWhile_le)
  then show "(dropWhile py_isspace cs, c # d # cs) \<in> measure length"
    by simp
qed auto

definition norm_vendor :: "string option \<Rightarrow> string option" where
  "norm_vendor so =
     (case so of
        None \<Rightarrow> None
      | Some s \<Rightarrow>
          if s = [] then None
          else
            let s1 = py_strip (py_lower s);
                s2 = sub_legal 0 None s1;
                s3 = py_strip (collapse_spaces s2)
            in if s3 = [] then None else Some s3)"

subsection \<open>\<open>difflib.SequenceMatcher(None, a, b).ratio()\<close>, as \<open>_similar\<close> calls it\<close>

text \<open>
  The matcher is built with \<open>isjunk = None\<close> and the default \<open>autojunk = True\<close>: no element
  is junk, and an element of \<open>b\<close> is "popular" (left out of the index \<open>b2j\<close>) when \<open>b\<close> has at
  least 200 elements and the element occurs more than \<open>len(b) // 100 + 1\<close> times. With an
  empty junk set the two loops of \<open>find_longest_match\<close> that extend a match over non-junk
  elements run as written, and the two that extend it over junk elements never do.
  A match is the triple \<open>(i, j, k)\<close>: \<open>a[i:i+k] == b[j:j+k]\<close>.
\<close>

definition popular :: "string \<Rightarrow> char \<Rightarrow> bool" where
  "popular b c = (200 \<le> length b \<and> length b div 100 + 1 < count_list b c)"

definition b2j :: "string \<Rightarrow> char \<Rightarrow> nat list" where
  \<comment> \<open>\<open>b2j.get(c, [])\<close>: the positions of \<open>c\<close> in \<open>b\<close>, increasing\<close>
  "b2j b c = (if popular b c then [] else filter (\<lambda>j. b ! j = c) [0..<length b])"

definition prev_len :: "(nat \<times> nat) list \<Rightarrow> nat \<Rightarrow> nat" where
  \<comment> \<open>\<open>j2len.get(j - 1, 0)\<close>; no key is negative\<close>
  "prev_len j2len j =
     (if j = 0 then 0 else (case map_of j2len (j - 1) of None \<Rightarrow> 0 | Some v \<Rightarrow> v))"

fun scan_row ::
  "nat \<Rightarrow> nat \<Rightarrow> nat \<Rightarrow> (nat \<times> nat) list \<Rightarrow> nat list \<Rightarrow> (nat \<times> nat) list \<Rightarrow> nat \<times> nat \<times> nat
     \<Rightarrow> (nat \<times> nat) list \<times> (nat \<times> nat \<times> nat)" where
  \<comment> \<open>the inner loop \<open>for j in b2j.get(a[i], nothing)\<close>\<close>
  "scan_row i blo bhi j2len [] newj2len best = (newj2len, best)"
| "scan_row i blo bhi j2len (j # js) newj2len best =
     (if j < blo then scan_row i blo bhi j2len js newj2len best
      else if bhi \<le> j then (newj2len, best)
      else
        let k = prev_len j2len j + 1
        in scan_row i blo bhi j2len js ((j, k) # newj2len)
             (if snd (snd best) < k then (i + 1 - k, j + 1 - k, k) else best))"

function scan_rows ::
  "string \<Rightarrow> string \<Rightarrow> nat \<Rightarrow> nat \<Rightarrow> nat \<Rightarrow> nat \<Rightarrow> (nat \<times> nat) list \<Rightarrow> nat \<times> nat \<times> nat
     \<Rightarrow> nat \<times> nat \<times> nat" where
  \<comment> \<open>the outer loop \<open>for i in range(alo, ahi)\<close>, from row \<open>i\<close> on\<close>
  "scan_rows a b i ahi blo bhi j2len best =
     (if i < ahi
      then (case scan_row i blo bhi j2len (b2j b (a ! i)) [] best of
              (newj2len, best') \<Rightarrow> scan_rows a b (Suc i) ahi blo bhi newj2len best')
      else best)"
  by pat_completeness auto
termination
  by (relation "measure (\<lambda>(a, b, i, ahi, blo, bhi, j2len, best). ahi - i)") auto

declare scan_rows.simps [simp del]

function extend_left :: "string \<Rightarrow> string \<Rightarrow> nat \<Rightarrow> nat \<Rightarrow> nat \<times> nat \<times> nat \<Rightarrow> nat \<times> nat \<times> nat" where
  "extend_left a b alo blo (i, j, k) =
     (if alo < i \<and> blo < j \<and> a ! (i - 1) = b ! (j - 1)
      then extend_left a b alo blo (i - 1, j - 1, k + 1)
      else (i, j, k))"
  by pat_completeness auto
termination
  by (relation "measure (\<lambda>(a, b, alo, blo, i, j, k). i)") auto

declare extend_left.simps [simp del]

function extend_right :: "string \<Rightarrow> string \<Rightarrow> nat \<Rightarrow> nat \<Rightarrow> nat \<times> nat \<times> nat \<Rightarrow> nat \<times> nat \<times> nat" where
  "extend_right a b ahi bhi (i, j, k) =
     (if i + k < ahi \<and> j + k < bhi \<and> a ! (i + k) = b ! (j + k)
      then extend_right a b ahi bhi (i, j, k + 1)
      else (i, j, k))"
  by pat_completeness auto
termination
  by (relation "measure (\<lambda>(a, b, ahi, bhi, i, j, k). ahi - (i + k))") auto

declare extend_right.simps [simp del]

definition find_longest_match ::
  "string \<Rightarrow> string \<Rightarrow> nat \<Rightarrow> nat \<Rightarrow> nat \<Rightarrow> nat \<Rightarrow> nat \<times> nat \<times> nat" where
  "find_longest_match a b alo ahi blo bhi =
     extend_right a b ahi bhi
       (extend_left a b alo blo (scan_rows a b alo ahi blo bhi [] (alo, blo, 0)))"

lemma prev_len_bound:
  assumes "\<forall>(j, v) \<in> set j2len. v \<le> n"
  shows "prev_len j2len j \<le> n"
proof (cases "j = 0")
  case True
  then show ?thesis by (simp add: prev_len_def)
next
  case False
  show ?thesis
  proof (cases "map_of j2len (j - 1)")
    case None
    with False show ?thesis by (simp add: prev_len_def)
  next
    case (Some v)
    then have "(j - 1, v) \<in> set j2len" by (rule map_of_SomeD)
    with assms have "v \<le> n" by auto
    with False Some show ?thesis by (simp add: prev_len_def)
  qed
qed

text \<open>Where a match lies: inside the rows \<open>alo..ahi\<close> of the region searched.\<close>

definition in_rows :: "nat \<Rightarrow> nat \<Rightarrow> nat \<times> nat \<times> nat \<Rightarrow> bool" where
  "in_rows alo ahi m = (alo \<le> fst m \<and> fst m + snd (snd m) \<le> ahi)"

lemma scan_row_bound:
  assumes "alo \<le> i" and "i < ahi"
    and "\<forall>(j, v) \<in> set j2len. v \<le> i - alo"
    and "\<forall>(j, v) \<in> set new. v \<le> Suc (i - alo)"
    and "in_rows alo ahi best"
    and "scan_row i blo bhi j2len js new best = (new', best')"
  shows "(\<forall>(j, v) \<in> set new'. v \<le> Suc (i - alo)) \<and> in_rows alo ahi best'"
  using assms
proof (induction js arbitrary: new best)
  case Nil
  then show ?case by simp
next
  case (Cons j js)
  show ?case
  proof (cases "j < blo")
    case True
    with Cons.prems have "scan_row i blo bhi j2len js new best = (new', best')" by simp
    with Cons.IH Cons.prems show ?thesis by blast
  next
    case False
    note nlt = this
    show ?thesis
    proof (cases "bhi \<le> j")
      case True
      with nlt Cons.prems show ?thesis by simp
    next
      case False
      define k where "k = prev_len j2len j + 1"
      define best1 where "best1 = (if snd (snd best) < k then (i + 1 - k, j + 1 - k, k) else best)"
      have kb: "k \<le> Suc (i - alo)"
        using prev_len_bound [OF Cons.prems(3), of j] by (simp add: k_def)
      have new1: "\<forall>(j, v) \<in> set ((j, k) # new). v \<le> Suc (i - alo)"
        using kb Cons.prems(4) by auto
      have b1: "in_rows alo ahi best1"
        using kb Cons.prems(1,2,5) by (auto simp: best1_def in_rows_def)
      have "scan_row i blo bhi j2len (j # js) new best
              = scan_row i blo bhi j2len js ((j, k) # new) best1"
        unfolding k_def best1_def by (simp only: scan_row.simps Let_def nlt False if_False)
      with Cons.prems(6) have "scan_row i blo bhi j2len js ((j, k) # new) best1 = (new', best')"
        by simp
      with Cons.IH [OF Cons.prems(1,2,3) new1 b1] show ?thesis by blast
    qed
  qed
qed

lemma scan_rows_bound:
  assumes "alo \<le> i" and "\<forall>(j, v) \<in> set j2len. v \<le> i - alo" and "in_rows alo ahi best"
  shows "in_rows alo ahi (scan_rows a b i ahi blo bhi j2len best)"
  using assms
proof (induction a b i ahi blo bhi j2len best rule: scan_rows.induct)
  case (1 a b i ahi blo bhi j2len best)
  show ?case
  proof (cases "i < ahi")
    case False
    with "1.prems" show ?thesis by (simp add: scan_rows.simps [of a b i])
  next
    case True
    obtain new best' where sr: "scan_row i blo bhi j2len (b2j b (a ! i)) [] best = (new, best')"
      by (cases "scan_row i blo bhi j2len (b2j b (a ! i)) [] best") auto
    have r: "(\<forall>(j, v) \<in> set new. v \<le> Suc (i - alo)) \<and> in_rows alo ahi best'"
      using scan_row_bound [OF "1.prems"(1) True "1.prems"(2) _ "1.prems"(3) sr] by simp
    have s: "Suc (i - alo) = Suc i - alo" using "1.prems"(1) by simp
    have "in_rows alo ahi (scan_rows a b (Suc i) ahi blo bhi new best')"
      using "1.IH" [OF True sr [symmetric]] "1.prems"(1) r s by simp
    with True sr show ?thesis by (simp add: scan_rows.simps [of a b i])
  qed
qed

lemma extend_left_bound:
  "in_rows alo ahi m \<Longrightarrow> in_rows alo ahi (extend_left a b alo blo m)"
proof (induction a b alo blo m rule: extend_left.induct)
  case (1 a b alo blo i j k)
  show ?case
  proof (cases "alo < i \<and> blo < j \<and> a ! (i - 1) = b ! (j - 1)")
    case True
    with "1.prems" have "in_rows alo ahi (i - 1, j - 1, k + 1)" by (auto simp: in_rows_def)
    with "1.IH" True show ?thesis by (simp add: extend_left.simps [of a b alo blo i j k])
  next
    case False
    then have "extend_left a b alo blo (i, j, k) = (i, j, k)"
      by (subst extend_left.simps) auto
    with "1.prems" show ?thesis by simp
  qed
qed

lemma extend_right_bound:
  "in_rows alo ahi m \<Longrightarrow> in_rows alo ahi (extend_right a b ahi bhi m)"
proof (induction a b ahi bhi m rule: extend_right.induct)
  case (1 a b ahi bhi i j k)
  show ?case
  proof (cases "i + k < ahi \<and> j + k < bhi \<and> a ! (i + k) = b ! (j + k)")
    case True
    with "1.prems" have "in_rows alo ahi (i, j, k + 1)" by (auto simp: in_rows_def)
    with "1.IH" True show ?thesis by (simp add: extend_right.simps [of a b ahi bhi i j k])
  next
    case False
    then have "extend_right a b ahi bhi (i, j, k) = (i, j, k)"
      by (subst extend_right.simps) auto
    with "1.prems" show ?thesis by simp
  qed
qed

lemma find_longest_match_empty:
  "ahi \<le> alo \<Longrightarrow> snd (snd (find_longest_match a b alo ahi blo bhi)) = 0"
  by (simp add: find_longest_match_def scan_rows.simps [of a b alo] extend_left.simps [of a b alo blo alo]
      extend_right.simps [of a b ahi bhi alo])

lemma find_longest_match_rows:
  assumes "find_longest_match a b alo ahi blo bhi = (i, j, k)" and "k \<noteq> 0"
  shows "alo \<le> i \<and> i + k \<le> ahi"
proof -
  have "alo < ahi"
    using find_longest_match_empty [of ahi alo a b blo bhi] assms by (cases "alo < ahi") auto
  then have "in_rows alo ahi (alo, blo, 0)" by (simp add: in_rows_def)
  then have "in_rows alo ahi (scan_rows a b alo ahi blo bhi [] (alo, blo, 0))"
    by (intro scan_rows_bound) auto
  then have "in_rows alo ahi (find_longest_match a b alo ahi blo bhi)"
    unfolding find_longest_match_def by (intro extend_right_bound extend_left_bound)
  with assms show ?thesis by (simp add: in_rows_def)
qed

text \<open>
  \<open>get_matching_blocks\<close> keeps a worklist of regions \<open>(alo, ahi, blo, bhi)\<close>; every region is
  handled on its own (its longest match, then the region to the left and the region to the
  right of it), and the blocks are sorted at the end. The recursion below visits the same
  regions and returns the blocks in sorted order. It terminates because a non-empty match
  lies inside the rows of its region.
\<close>

function matching_blocks :: "string \<Rightarrow> string \<Rightarrow> nat \<Rightarrow> nat \<Rightarrow> nat \<Rightarrow> nat \<Rightarrow> (nat \<times> nat \<times> nat) list" where
  "matching_blocks a b alo ahi blo bhi =
     (case find_longest_match a b alo ahi blo bhi of
        (i, j, k) \<Rightarrow>
          if k = 0 then []
          else (if alo < i \<and> blo < j then matching_blocks a b alo i blo j else [])
               @ [(i, j, k)]
               @ (if i + k < ahi \<and> j + k < bhi then matching_blocks a b (i + k) ahi (j + k) bhi else []))"
  by pat_completeness auto
termination
proof (relation "measure (\<lambda>(a, b, alo, ahi, blo, bhi). ahi - alo)")
  show "wf (measure (\<lambda>(a, b, alo, ahi, blo, bhi). ahi - alo))" by simp
next
  fix a b :: string and alo ahi blo bhi i j k :: nat and y
  assume m: "(i, y) = find_longest_match a b alo ahi blo bhi" "(j, k) = y" "k \<noteq> 0"
    and g: "alo < i \<and> blo < j"
  from m have "find_longest_match a b alo ahi blo bhi = (i, j, k)" by simp
  from find_longest_match_rows [OF this m(3)] g m(3) have "i - alo < ahi - alo"
    by arith
  then show "((a, b, alo, i, blo, j), (a, b, alo, ahi, blo, bhi))
      \<in> measure (\<lambda>(a, b, alo, ahi, blo, bhi). ahi - alo)"
    by simp
next
  fix a b :: string and alo ahi blo bhi i j k :: nat and y
  assume m: "(i, y) = find_longest_match a b alo ahi blo bhi" "(j, k) = y" "k \<noteq> 0"
    and g: "i + k < ahi \<and> j + k < bhi"
  from m have "find_longest_match a b alo ahi blo bhi = (i, j, k)" by simp
  from find_longest_match_rows [OF this m(3)] g m(3) have "ahi - (i + k) < ahi - alo"
    by arith
  then show "((a, b, i + k, ahi, j + k, bhi), (a, b, alo, ahi, blo, bhi))
      \<in> measure (\<lambda>(a, b, alo, ahi, blo, bhi). ahi - alo)"
    by simp
qed

declare matching_blocks.simps [simp del]

text \<open>
  \<open>ratio()\<close> is \<open>2.0 * matches / length\<close> in binary floating point; the model keeps the exact
  quotient as a rational number.
\<close>

definition ratio :: "string \<Rightarrow> string \<Rightarrow> rat" where
  "ratio a b =
     (let matches = sum_list (map (\<lambda>(i, j, k). k) (matching_blocks a b 0 (length a) 0 (length b)));
          len = length a + length b
      in if len \<noteq> 0 then 2 * of_nat matches / of_nat len else 1)"


definition truthy :: "string option \<Rightarrow> bool" where
  \<comment> \<open>Python truth of a value that is a \<open>str\<close> or \<open>None\<close>\<close>
  "truthy so = (case so of None \<Rightarrow> False | Some s \<Rightarrow> s \<noteq> [])"

definition similar :: "string option \<Rightarrow> string option \<Rightarrow> rat" where
  \<comment> \<open>\<open>_similar(a, b)\<close>\<close>
  "similar a b =
     (case (a, b) of
        (Some x, Some y) \<Rightarrow> if x = [] \<or> y = [] then 0 else ratio x y
      | _ \<Rightarrow> 0)"

definition round_half_even :: "rat \<Rightarrow> int" where
  "round_half_even x =
     (let f = \<lfloor>x\<rfloor>; d = x - of_int f
      in if d < 1 / 2 then f else if 1 / 2 < d then f + 1 else if even f then f else f + 1)"

definition py_round3 :: "rat \<Rightarrow> rat" where
  \<comment> \<open>\<open>round(score, 3)\<close>, on the exact quotient\<close>
  "py_round3 x = of_int (round_half_even (x * 1000)) / 1000"

subsection \<open>The store and \<open>detect_duplicates\<close>\<close>

text \<open>
  The \<open>fields\<close> dict, with the keys the duplicate check reads and \<open>upload_dupcheck\<close> writes,
  each typed as the invoice schema and the two normalisers give it: text or a number, \<open>None\<close>
  for a key that is absent or null. The same dict is what a stored record carries. Totals
  are numbers; their arithmetic is exact in the model.

  The database is the two tables the check queries, each as the list of its rows in the
  order the queries yield them. \<open>sql_lower\<close> is SQLite's \<open>lower()\<close>, which folds A-Z only.
\<close>

record fields =
  vendor :: "string option"
  invoice_number :: "string option"
  total_fld :: "rat option"
  invoice_date :: "string option"
  vendor_norm :: "string option"
  invoice_number_norm :: "string option"

record document =
  doc_id :: string
  hash_sha256 :: "string option"

record record_row =
  rec_id :: string
  rec_fields :: fields

record store =
  documents :: "document list"
  records :: "record_row list"

datatype match = Match (m_type: string) (m_id: string) (m_similarity: "rat option")

record verdict =
  certainty :: string
  reason :: string
  matches :: "match list"

definition sql_lower :: "string \<Rightarrow> string" where
  "sql_lower s =
     map (\<lambda>c. if 65 \<le> (of_char c :: nat) \<and> (of_char c :: nat) \<le> 90
              then char_of ((of_char c :: nat) + 32) else c) s"

definition sql_key_eq :: "string option \<Rightarrow> string \<Rightarrow> bool" where
  \<comment> \<open>\<open>lower(json_extract(fields, '$.key')) = ?\<close>; a comparison with NULL is not true\<close>
  "sql_key_eq stored p = (case stored of None \<Rightarrow> False | Some s \<Rightarrow> sql_lower s = p)"

definition hash_row :: "store \<Rightarrow> string \<Rightarrow> document option" where
  \<comment> \<open>\<open>SELECT id FROM documents WHERE hash_sha256=?\<close>, \<open>fetchone()\<close>\<close>
  "hash_row con file_hash = find (\<lambda>d. hash_sha256 d = Some file_hash) (documents con)"

definition likely_row :: "store \<Rightarrow> string option \<Rightarrow> string option \<Rightarrow> record_row option" where
  \<comment> \<open>the query of the second tier and its \<open>fetchone()\<close>, run only \<open>if vend and invn\<close>\<close>
  "likely_row con vend invn =
     (case vend of
        None \<Rightarrow> None
      | Some v \<Rightarrow>
          (case invn of
             None \<Rightarrow> None
           | Some n \<Rightarrow>
               if v \<noteq> [] \<and> n \<noteq> []
               then find (\<lambda>r. sql_key_eq (vendor_norm (rec_fields r)) v
                             \<and> sql_key_eq (invoice_number_norm (rec_fields r)) n) (records con)
               else None))"

definition total_close :: "rat option \<Rightarrow> rat option \<Rightarrow> bool" where
  "total_close t u = (case (t, u) of (Some x, Some y) \<Rightarrow> \<bar>x - y\<bar> \<le> 1 | _ \<Rightarrow> False)"

definition date_match :: "string option \<Rightarrow> string option \<Rightarrow> bool" where
  "date_match d e = (truthy d \<and> truthy e \<and> d = e)"

definition suspect_of ::
  "string option \<Rightarrow> rat option \<Rightarrow> string option \<Rightarrow> record_row \<Rightarrow> match list" where
  \<comment> \<open>the body of the loop over the records of the same vendor: the entry appended, if any\<close>
  "suspect_of invn tot invdate r =
     (let f = rec_fields r;
          score = similar invn (invoice_number_norm f)
      in if 9 / 10 \<le> score
            \<or> (truthy invn \<and> invoice_number_norm f = invn)
            \<or> (total_close tot (total_fld f) \<and> date_match invdate (invoice_date f))
         then [Match ''record'' (rec_id r) (Some (py_round3 score))]
         else [])"

definition suspects ::
  "store \<Rightarrow> string option \<Rightarrow> string option \<Rightarrow> rat option \<Rightarrow> string option \<Rightarrow> match list" where
  \<comment> \<open>the list \<open>suspects\<close> after the loop, which runs only \<open>if vend\<close>\<close>
  "suspects con vend invn tot invdate =
     (case vend of
        None \<Rightarrow> []
      | Some v \<Rightarrow>
          if v \<noteq> []
          then concat (map (suspect_of invn tot invdate)
                         (filter (\<lambda>r. sql_key_eq (vendor_norm (rec_fields r)) v) (records con)))
          else [])"

definition detect_duplicates :: "store \<Rightarrow> string \<Rightarrow> fields \<Rightarrow> verdict option" where
  "detect_duplicates con file_hash flds =
     (case hash_row con file_hash of
        Some row \<Rightarrow>
          Some \<lparr>certainty = ''exact'',
                reason = ''hash_sha256 matched an existing document'',
                matches = [Match ''document'' (doc_id row) None]\<rparr>
      | None \<Rightarrow>
          let vend = norm_vendor (vendor flds);
              invn = norm_invoice_no (invoice_number flds);
              tot = total_fld flds;
              invdate = invoice_date flds
          in (case likely_row con vend invn of
                Some rec \<Rightarrow>
                  Some \<lparr>certainty = ''likely'',
                        reason = ''Same vendor + invoice number found'',
                        matches = [Match ''record'' (rec_id rec) None]\<rparr>
              | None \<Rightarrow>
                  let sus = suspects con vend invn tot invdate
                  in if sus \<noteq> []
                     then Some \<lparr>certainty = ''possible'',
                                reason = ''Near-duplicate by vendor+invoice heuristics'',
                                matches = take 5 sus\<rparr>
                     else None))"

subsection \<open>\<open>upload_dupcheck\<close>\<close>

text \<open>
  The endpoint hashes the uploaded bytes (the digest is the model's input), adds the two
  normalised keys to the fields, runs the check, and either raises the 409 response or
  returns the proposal. It stores nothing itself.
\<close>

datatype response =
    Conflict409 (existing_document_id: "string option") (detail_reason: string) (detail_matches: "match list")
  | Ok200 (notice: "string option") (duplicate_suspect: "verdict option")
          (proposed_hash: string) (proposed_fields: fields)

definition upload_dupcheck :: "store \<Rightarrow> string \<Rightarrow> fields \<Rightarrow> response" where
  "upload_dupcheck con file_hash fields0 =
     (let flds = fields0\<lparr>vendor_norm := norm_vendor (vendor fields0),
                         invoice_number_norm := norm_invoice_no (invoice_number fields0)\<rparr>;
          dup = detect_duplicates con file_hash flds
      in (case dup of
            None \<Rightarrow> Ok200 None None file_hash flds
          | Some d \<Rightarrow>
              if certainty d = ''exact''
              then Conflict409 (case matches d of [] \<Rightarrow> None | m # _ \<Rightarrow> Some (m_id m))
                     (reason d) (matches d)
              else Ok200 (if certainty d = ''likely''
                          then Some ''This appears to be the same invoice (same vendor and invoice number).''
                          else if certainty d = ''possible''
                          then Some ''This looks similar to a previous invoice. Want to review the matches?''
                          else None)
                     (Some d) file_hash flds))"

subsection \<open>Example data\<close>

definition no_fields :: fields where
  "no_fields = \<lparr>vendor = None, invoice_number = None, total_fld = None, invoice_date = None,
                 vendor_norm = None, invoice_number_norm = None\<rparr>"

definition empty_store :: store where
  "empty_store = \<lparr>documents = [], records = []\<rparr>"

definition acme_store :: store where
  "acme_store =
     \<lparr>documents = [\<lparr>doc_id = ''doc_1'', hash_sha256 = Some ''H1''\<rparr>],
      records =
        [\<lparr>rec_id = ''rec_1'',
          rec_fields = no_fields\<lparr>vendor := Some ''Acme Corp'', invoice_number := Some ''1023'',
                                  vendor_norm := Some ''acme'', invoice_number_norm := Some ''1023''\<rparr>\<rparr>,
         \<lparr>rec_id = ''rec_2'',
          rec_fields = no_fields\<lparr>vendor := Some ''Acme Corp'', invoice_number := Some ''INV-1024'',
                                  vendor_norm := Some ''acme'', invoice_number_norm := Some ''inv1024''\<rparr>\<rparr>]\<rparr>"

definition globex_query :: fields where
  "globex_query = no_fields\<lparr>vendor := Some ''Globex LLC'', invoice_number := Some ''A-77''\<rparr>"

definition same_pair_query :: fields where
  "same_pair_query = no_fields\<lparr>vendor := Some ''ACME Inc'', invoice_number := Some ''001023''\<rparr>"

definition near_query :: fields where
  "near_query = no_fields\<lparr>vendor := Some ''Acme'', invoice_number := Some ''INV-01024''\<rparr>"

section \<open>Properties of the normalisers\<close>

definition ascii_upper :: "char \<Rightarrow> bool" where
  "ascii_upper c = (65 \<le> (of_char c :: nat) \<and> (of_char c :: nat) \<le> 90)"

lemma py_lower_char_not_upper: "\<not> ascii_upper (py_lower_char c)"
  unfolding py_lower_char_def py_isupper_def ascii_upper_def Let_def
  by (auto simp: of_char_of)

lemma blank_not_upper: "\<not> ascii_upper (CHR '' '')"
  by (simp add: ascii_upper_def)

lemma sql_lower_id: "\<forall>c \<in> set s. \<not> ascii_upper c \<Longrightarrow> sql_lower s = s"
  by (induction s) (auto simp: sql_lower_def ascii_upper_def)

lemma set_dropWhile_subset: "set (dropWhile P xs) \<subseteq> set xs"
  by (auto dest: set_dropWhileD)

lemma set_py_strip: "set (py_strip s) \<subseteq> set s"
proof -
  have "set (py_strip s) = set (dropWhile py_isspace (rev (dropWhile py_isspace s)))"
    by (simp add: py_strip_def)
  also have "\<dots> \<subseteq> set (rev (dropWhile py_isspace s))"
    by (rule set_dropWhile_subset)
  also have "\<dots> \<subseteq> set s"
    by (simp add: set_dropWhile_subset)
  finally show ?thesis .
qed

lemma set_sub_legal: "set (sub_legal k prev s) \<subseteq> set s"
  by (induction s arbitrary: k prev) (auto split: option.splits)

lemma set_collapse_spaces: "set (collapse_spaces s) \<subseteq> insert (CHR '' '') (set s)"
proof (induction s rule: collapse_spaces.induct)
  case (3 c d cs)
  have "set (dropWhile py_isspace cs) \<subseteq> set cs"
    by (rule set_dropWhileD [THEN subsetI])
  with 3 show ?case by auto
qed simp_all

lemma norm_invoice_no_lower:
  assumes "norm_invoice_no x = Some n"
  shows "\<forall>c \<in> set n. \<not> ascii_upper c"
proof -
  from assms obtain s where n: "n = dropWhile (\<lambda>c. c = CHR ''0'') (filter (\<lambda>c. \<not> is_invoice_sep c) (py_lower s))"
    by (auto simp: norm_invoice_no_def Let_def split: option.splits if_splits)
  have "set n \<subseteq> set (py_lower s)"
    unfolding n using set_dropWhileD by fastforce
  then show ?thesis
    by (auto simp: py_lower_def py_lower_char_not_upper)
qed

lemma norm_vendor_lower:
  assumes "norm_vendor x = Some v"
  shows "\<forall>c \<in> set v. \<not> ascii_upper c"
proof -
  from assms obtain s where v: "v = py_strip (collapse_spaces (sub_legal 0 None (py_strip (py_lower s))))"
    by (auto simp: norm_vendor_def Let_def split: option.splits if_splits)
  have "set v \<subseteq> insert (CHR '' '') (set (py_lower s))"
    unfolding v using set_py_strip set_collapse_spaces set_sub_legal by fast
  then show ?thesis
    using blank_not_upper by (auto simp: py_lower_def py_lower_char_not_upper)
qed

lemma norm_vendor_nonempty: "norm_vendor x \<noteq> Some []"
  by (auto simp: norm_vendor_def Let_def split: option.splits)

lemma norm_invoice_no_nonempty: "norm_invoice_no x \<noteq> Some []"
  by (auto simp: norm_invoice_no_def Let_def split: option.splits)

section \<open>Properties of the duplicate check\<close>

lemma hash_row_Some:
  "hash_row con h = Some d \<Longrightarrow> d \<in> set (documents con) \<and> hash_sha256 d = Some h"
  by (auto simp: hash_row_def find_Some_iff)

lemma hash_row_None:
  "hash_row con h = None \<longleftrightarrow> (\<forall>d \<in> set (documents con). hash_sha256 d \<noteq> Some h)"
  by (auto simp: hash_row_def find_None_iff)

lemma likely_row_Some:
  assumes "likely_row con vend invn = Some r"
  shows "\<exists>v n. vend = Some v \<and> invn = Some n \<and> r \<in> set (records con)
           \<and> sql_key_eq (vendor_norm (rec_fields r)) v
           \<and> sql_key_eq (invoice_number_norm (rec_fields r)) n"
  using assms
  by (auto simp: likely_row_def find_Some_iff split: option.splits if_splits)

lemma likely_row_None_vendor: "likely_row con None invn = None"
  by (simp add: likely_row_def)

lemma suspects_None_vendor: "suspects con None invn tot invdate = []"
  by (simp add: suspects_def)

lemma detect_duplicates_exact:
  "hash_row con h = Some d \<Longrightarrow>
     detect_duplicates con h flds =
       Some \<lparr>certainty = ''exact'', reason = ''hash_sha256 matched an existing document'',
             matches = [Match ''document'' (doc_id d) None]\<rparr>"
  by (simp add: detect_duplicates_def)

lemma detect_duplicates_likely:
  "hash_row con h = None \<Longrightarrow>
   likely_row con (norm_vendor (vendor flds)) (norm_invoice_no (invoice_number flds)) = Some r \<Longrightarrow>
     detect_duplicates con h flds =
       Some \<lparr>certainty = ''likely'', reason = ''Same vendor + invoice number found'',
             matches = [Match ''record'' (rec_id r) None]\<rparr>"
  by (simp add: detect_duplicates_def)

lemma detect_duplicates_rest:
  "hash_row con h = None \<Longrightarrow>
   likely_row con (norm_vendor (vendor flds)) (norm_invoice_no (invoice_number flds)) = None \<Longrightarrow>
     detect_duplicates con h flds =
       (let sus = suspects con (norm_vendor (vendor flds)) (norm_invoice_no (invoice_number flds))
                    (total_fld flds) (invoice_date flds)
        in if sus \<noteq> []
           then Some \<lparr>certainty = ''possible'',
                      reason = ''Near-duplicate by vendor+invoice heuristics'',
                      matches = take 5 sus\<rparr>
           else None)"
  by (simp add: detect_duplicates_def)

lemma sep_not_upper: "is_invoice_sep c \<or> c = CHR ''0'' \<Longrightarrow> py_lower_char c = c"
  by (auto simp: is_invoice_sep_def py_isspace_def py_lower_char_def py_isupper_def Let_def)

lemma seps_and_zeros:
  assumes "\<forall>c \<in> set s. is_invoice_sep c \<or> c = CHR ''0''"
  shows "norm_invoice_no (Some s) = None"
proof -
  have l: "py_lower s = s"
    unfolding py_lower_def using assms by (induction s) (auto simp: sep_not_upper)
  have "\<forall>c \<in> set (filter (\<lambda>c. \<not> is_invoice_sep c) s). c = CHR ''0''"
    using assms by auto
  then have "dropWhile (\<lambda>c. c = CHR ''0'') (filter (\<lambda>c. \<not> is_invoice_sep c) s) = []"
    by (simp add: dropWhile_eq_Nil_conv)
  with l show ?thesis by (simp add: norm_invoice_no_def)
qed

lemma likely_row_exists:
  assumes v: "norm_vendor x = Some v" and n: "norm_invoice_no y = Some n"
    and r: "r \<in> set (records con)" "vendor_norm (rec_fields r) = Some v"
      "invoice_number_norm (rec_fields r) = Some n"
  shows "\<exists>r'. likely_row con (Some v) (Some n) = Some r'"
proof -
  have ne: "v \<noteq> []" "n \<noteq> []"
    using v n norm_vendor_nonempty [of x] norm_invoice_no_nonempty [of y] by auto
  have "sql_lower v = v" "sql_lower n = n"
    using norm_vendor_lower [OF v] norm_invoice_no_lower [OF n] by (simp_all add: sql_lower_id)
  with r have "sql_key_eq (vendor_norm (rec_fields r)) v
      \<and> sql_key_eq (invoice_number_norm (rec_fields r)) n"
    by (simp add: sql_key_eq_def)
  with r(1) have "find (\<lambda>r. sql_key_eq (vendor_norm (rec_fields r)) v
      \<and> sql_key_eq (invoice_number_norm (rec_fields r)) n) (records con) \<noteq> None"
    by (auto simp: find_None_iff)
  with ne show ?thesis by (auto simp: likely_row_def)
qed

lemma possible_only_otherwise:
  assumes "detect_duplicates con h flds = Some vd" and "certainty vd = ''possible''"
  shows "hash_row con h = None
    \<and> likely_row con (norm_vendor (vendor flds)) (norm_invoice_no (invoice_number flds)) = None"
proof -
  have a: "hash_row con h = None"
  proof (cases "hash_row con h")
    case (Some d)
    from detect_duplicates_exact [OF Some, of flds] assms show ?thesis by auto
  qed simp
  have "likely_row con (norm_vendor (vendor flds)) (norm_invoice_no (invoice_number flds)) = None"
  proof (cases "likely_row con (norm_vendor (vendor flds)) (norm_invoice_no (invoice_number flds))")
    case (Some r)
    from detect_duplicates_likely [OF a Some] assms show ?thesis by auto
  qed simp
  with a show ?thesis ..
qed

lemma detect_duplicates_reads:
  "detect_duplicates con h (flds\<lparr>vendor_norm := a, invoice_number_norm := b\<rparr>)
     = detect_duplicates con h flds"
  by (cases "hash_row con h") (simp_all add: detect_duplicates_def)

text \<open>
  C1. The three tiers are tried in order and the first that matches decides. If some stored
  document has the uploaded content hash, the verdict is \<open>exact\<close> and names such a document,
  whatever the fields are. Otherwise, if the normalised vendor and the normalised invoice
  number are both equal to the stored normalised keys of some record, the verdict is
  \<open>likely\<close> and names a record that the second query matches. A verdict \<open>possible\<close> is
  returned only when neither of the two holds.
\<close>

theorem detect_duplicates_tiers:
  "((\<exists>d \<in> set (documents con). hash_sha256 d = Some h) \<longrightarrow>
      (\<exists>d \<in> set (documents con). hash_sha256 d = Some h
         \<and> detect_duplicates con h flds =
             Some \<lparr>certainty = ''exact'', reason = ''hash_sha256 matched an existing document'',
                   matches = [Match ''document'' (doc_id d) None]\<rparr>)
      \<and> detect_duplicates con h flds' = detect_duplicates con h flds)
   \<and> ((\<forall>d \<in> set (documents con). hash_sha256 d \<noteq> Some h)
       \<and> norm_vendor (vendor flds) = Some v \<and> norm_invoice_no (invoice_number flds) = Some n
       \<and> (\<exists>r \<in> set (records con). vendor_norm (rec_fields r) = Some v
             \<and> invoice_number_norm (rec_fields r) = Some n) \<longrightarrow>
      (\<exists>r \<in> set (records con).
          sql_key_eq (vendor_norm (rec_fields r)) v
          \<and> sql_key_eq (invoice_number_norm (rec_fields r)) n
          \<and> detect_duplicates con h flds =
              Some \<lparr>certainty = ''likely'', reason = ''Same vendor + invoice number found'',
                    matches = [Match ''record'' (rec_id r) None]\<rparr>))
   \<and> (detect_duplicates con h flds = Some vd \<and> certainty vd = ''possible'' \<longrightarrow>
        (\<forall>d \<in> set (documents con). hash_sha256 d \<noteq> Some h)
        \<and> \<not> (\<exists>r \<in> set (records con).
                 norm_vendor (vendor flds) \<noteq> None
                 \<and> norm_invoice_no (invoice_number flds) \<noteq> None
                 \<and> vendor_norm (rec_fields r) = norm_vendor (vendor flds)
                 \<and> invoice_number_norm (rec_fields r) = norm_invoice_no (invoice_number flds)))"
proof (intro conjI impI)
  assume "\<exists>d \<in> set (documents con). hash_sha256 d = Some h"
  then obtain d where d: "hash_row con h = Some d"
    using hash_row_None [of con h] by (cases "hash_row con h") auto
  from hash_row_Some [OF d] detect_duplicates_exact [OF d, of flds]
  show "\<exists>d \<in> set (documents con). hash_sha256 d = Some h
         \<and> detect_duplicates con h flds =
             Some \<lparr>certainty = ''exact'', reason = ''hash_sha256 matched an existing document'',
                   matches = [Match ''document'' (doc_id d) None]\<rparr>"
    by blast
  from detect_duplicates_exact [OF d, of flds] detect_duplicates_exact [OF d, of flds']
  show "detect_duplicates con h flds' = detect_duplicates con h flds"
    by simp
next
  assume a: "(\<forall>d \<in> set (documents con). hash_sha256 d \<noteq> Some h)
       \<and> norm_vendor (vendor flds) = Some v \<and> norm_invoice_no (invoice_number flds) = Some n
       \<and> (\<exists>r \<in> set (records con). vendor_norm (rec_fields r) = Some v
             \<and> invoice_number_norm (rec_fields r) = Some n)"
  then have hn: "hash_row con h = None" by (simp add: hash_row_None)
  from a obtain r where "r \<in> set (records con)" "vendor_norm (rec_fields r) = Some v"
      "invoice_number_norm (rec_fields r) = Some n"
    by blast
  with a obtain r' where r': "likely_row con (Some v) (Some n) = Some r'"
    using likely_row_exists [of "vendor flds" v "invoice_number flds" n r con] by blast
  from likely_row_Some [OF r'] detect_duplicates_likely [OF hn, of flds r'] a r'
  show "\<exists>r \<in> set (records con).
          sql_key_eq (vendor_norm (rec_fields r)) v
          \<and> sql_key_eq (invoice_number_norm (rec_fields r)) n
          \<and> detect_duplicates con h flds =
              Some \<lparr>certainty = ''likely'', reason = ''Same vendor + invoice number found'',
                    matches = [Match ''record'' (rec_id r) None]\<rparr>"
    by auto
next
  assume a: "detect_duplicates con h flds = Some vd \<and> certainty vd = ''possible''"
  then have p: "hash_row con h = None"
      "likely_row con (norm_vendor (vendor flds)) (norm_invoice_no (invoice_number flds)) = None"
    using possible_only_otherwise [of con h flds vd] by simp_all
  from p(1) show "\<forall>d \<in> set (documents con). hash_sha256 d \<noteq> Some h"
    by (simp add: hash_row_None)
  show "\<not> (\<exists>r \<in> set (records con).
                 norm_vendor (vendor flds) \<noteq> None
                 \<and> norm_invoice_no (invoice_number flds) \<noteq> None
                 \<and> vendor_norm (rec_fields r) = norm_vendor (vendor flds)
                 \<and> invoice_number_norm (rec_fields r) = norm_invoice_no (invoice_number flds))"
  proof
    assume "\<exists>r \<in> set (records con).
                 norm_vendor (vendor flds) \<noteq> None
                 \<and> norm_invoice_no (invoice_number flds) \<noteq> None
                 \<and> vendor_norm (rec_fields r) = norm_vendor (vendor flds)
                 \<and> invoice_number_norm (rec_fields r) = norm_invoice_no (invoice_number flds)"
    then obtain r v n where "r \<in> set (records con)"
        "norm_vendor (vendor flds) = Some v" "norm_invoice_no (invoice_number flds) = Some n"
        "vendor_norm (rec_fields r) = Some v" "invoice_number_norm (rec_fields r) = Some n"
      by auto
    with likely_row_exists [of "vendor flds" v "invoice_number flds" n r con] p(2)
    show False by auto
  qed
qed

theorem detect_duplicates_tiers_witness:
  "(\<exists>d \<in> set (documents acme_store). hash_sha256 d = Some ''H1''
       \<and> detect_duplicates acme_store ''H1'' same_pair_query =
           Some \<lparr>certainty = ''exact'', reason = ''hash_sha256 matched an existing document'',
                 matches = [Match ''document'' (doc_id d) None]\<rparr>)
   \<and> detect_duplicates acme_store ''H1'' no_fields = detect_duplicates acme_store ''H1'' same_pair_query
   \<and> (\<exists>r \<in> set (records acme_store).
          sql_key_eq (vendor_norm (rec_fields r)) ''acme''
          \<and> sql_key_eq (invoice_number_norm (rec_fields r)) ''1023''
          \<and> detect_duplicates acme_store ''H2'' same_pair_query =
              Some \<lparr>certainty = ''likely'', reason = ''Same vendor + invoice number found'',
                    matches = [Match ''record'' (rec_id r) None]\<rparr>)
   \<and> \<not> (\<exists>r \<in> set (records acme_store).
            norm_vendor (vendor near_query) \<noteq> None
            \<and> norm_invoice_no (invoice_number near_query) \<noteq> None
            \<and> vendor_norm (rec_fields r) = norm_vendor (vendor near_query)
            \<and> invoice_number_norm (rec_fields r) = norm_invoice_no (invoice_number near_query))"
proof -
  have h1: "\<exists>d \<in> set (documents acme_store). hash_sha256 d = Some ''H1''"
    by code_simp
  have h2: "(\<forall>d \<in> set (documents acme_store). hash_sha256 d \<noteq> Some ''H2'')
       \<and> norm_vendor (vendor same_pair_query) = Some ''acme''
       \<and> norm_invoice_no (invoice_number same_pair_query) = Some ''1023''
       \<and> (\<exists>r \<in> set (records acme_store). vendor_norm (rec_fields r) = Some ''acme''
             \<and> invoice_number_norm (rec_fields r) = Some ''1023'')"
    by code_simp
  have h3: "detect_duplicates acme_store ''H2'' near_query =
      Some \<lparr>certainty = ''possible'', reason = ''Near-duplicate by vendor+invoice heuristics'',
            matches = [Match ''record'' ''rec_2'' (Some (933 / 1000))]\<rparr>
      \<and> certainty \<lparr>certainty = ''possible'', reason = ''Near-duplicate by vendor+invoice heuristics'',
            matches = [Match ''record'' ''rec_2'' (Some (933 / 1000))]\<rparr> = ''possible''"
    by code_simp
  from detect_duplicates_tiers [where con = acme_store and h = "''H1''"
        and flds = same_pair_query and flds' = no_fields] h1
    detect_duplicates_tiers [where con = acme_store and h = "''H2''"
        and flds = same_pair_query and v = "''acme''" and n = "''1023''"] h2
    detect_duplicates_tiers [where con = acme_store and h = "''H2''" and flds = near_query
        and vd = "\<lparr>certainty = ''possible'', reason = ''Near-duplicate by vendor+invoice heuristics'',
            matches = [Match ''record'' ''rec_2'' (Some (933 / 1000))]\<rparr>"] h3
  show ?thesis by blast
qed

text \<open>
  C2, as the code has it. When no tier matches, \<open>detect_duplicates\<close> returns \<open>None\<close>: no verdict
  object at all, and no verdict ever carries the certainty \<open>none\<close>. \<open>upload_dupcheck\<close> then
  answers with a null notice, a null \<open>duplicate_suspect\<close> and the proposed record, not with the
  409 response.
\<close>

theorem no_tier_no_verdict:
  "(\<forall>d \<in> set (documents con). hash_sha256 d \<noteq> Some h)
   \<and> likely_row con (norm_vendor (vendor flds)) (norm_invoice_no (invoice_number flds)) = None
   \<and> suspects con (norm_vendor (vendor flds)) (norm_invoice_no (invoice_number flds))
        (total_fld flds) (invoice_date flds) = [] \<longrightarrow>
     detect_duplicates con h flds = None
     \<and> upload_dupcheck con h flds =
          Ok200 None None h
            (flds\<lparr>vendor_norm := norm_vendor (vendor flds),
                  invoice_number_norm := norm_invoice_no (invoice_number flds)\<rparr>)"
proof
  assume a: "(\<forall>d \<in> set (documents con). hash_sha256 d \<noteq> Some h)
   \<and> likely_row con (norm_vendor (vendor flds)) (norm_invoice_no (invoice_number flds)) = None
   \<and> suspects con (norm_vendor (vendor flds)) (norm_invoice_no (invoice_number flds))
        (total_fld flds) (invoice_date flds) = []"
  then have "hash_row con h = None" by (simp add: hash_row_None)
  with a have d: "detect_duplicates con h flds = None"
    by (simp add: detect_duplicates_rest)
  then have "upload_dupcheck con h flds =
          Ok200 None None h
            (flds\<lparr>vendor_norm := norm_vendor (vendor flds),
                  invoice_number_norm := norm_invoice_no (invoice_number flds)\<rparr>)"
    by (simp add: upload_dupcheck_def detect_duplicates_reads)
  with d show "detect_duplicates con h flds = None
     \<and> upload_dupcheck con h flds =
          Ok200 None None h
            (flds\<lparr>vendor_norm := norm_vendor (vendor flds),
                  invoice_number_norm := norm_invoice_no (invoice_number flds)\<rparr>)" ..
qed

theorem no_tier_no_verdict_witness:
  "detect_duplicates acme_store ''H2'' globex_query = None
   \<and> upload_dupcheck acme_store ''H2'' globex_query =
        Ok200 None None ''H2''
          (globex_query\<lparr>vendor_norm := Some ''globex'', invoice_number_norm := Some ''a77''\<rparr>)"
proof -
  have h: "(\<forall>d \<in> set (documents acme_store). hash_sha256 d \<noteq> Some ''H2'')
   \<and> likely_row acme_store (norm_vendor (vendor globex_query))
        (norm_invoice_no (invoice_number globex_query)) = None
   \<and> suspects acme_store (norm_vendor (vendor globex_query))
        (norm_invoice_no (invoice_number globex_query))
        (total_fld globex_query) (invoice_date globex_query) = []"
    by code_simp
  have n: "norm_vendor (vendor globex_query) = Some ''globex''"
      "norm_invoice_no (invoice_number globex_query) = Some ''a77''"
    by code_simp+
  from no_tier_no_verdict [of acme_store "''H2''" globex_query] h n show ?thesis
    by simp
qed

text \<open>The empty store: the check returns \<open>None\<close>, not a verdict of certainty \<open>none\<close>.\<close>

theorem no_verdict_counterexample:
  "detect_duplicates empty_store ''H1'' no_fields = None
   \<and> map_option certainty (detect_duplicates empty_store ''H1'' no_fields) \<noteq> Some ''none''"
  by code_simp

text \<open>
  C10. Neither normaliser returns the empty string: \<open>None\<close>, the empty string and an invoice
  number made of separators and zeros only all give \<open>None\<close>. When the normalised vendor is
  \<open>None\<close>, the second and the third tier are skipped: the check returns \<open>None\<close> or the
  \<open>exact\<close> verdict of a document with the same hash.
\<close>

theorem norm_never_empty:
  "norm_vendor x \<noteq> Some [] \<and> norm_invoice_no y \<noteq> Some []
   \<and> norm_vendor None = None \<and> norm_vendor (Some []) = None
   \<and> norm_invoice_no None = None \<and> norm_invoice_no (Some []) = None
   \<and> ((\<forall>c \<in> set s. is_invoice_sep c \<or> c = CHR ''0'') \<longrightarrow> norm_invoice_no (Some s) = None)
   \<and> (norm_vendor (vendor flds) = None \<longrightarrow>
        detect_duplicates con h flds = None
        \<or> (\<exists>d \<in> set (documents con). hash_sha256 d = Some h
              \<and> detect_duplicates con h flds =
                  Some \<lparr>certainty = ''exact'', reason = ''hash_sha256 matched an existing document'',
                        matches = [Match ''document'' (doc_id d) None]\<rparr>))"
proof -
  have tiers: "detect_duplicates con h flds = None
        \<or> (\<exists>d \<in> set (documents con). hash_sha256 d = Some h
              \<and> detect_duplicates con h flds =
                  Some \<lparr>certainty = ''exact'', reason = ''hash_sha256 matched an existing document'',
                        matches = [Match ''document'' (doc_id d) None]\<rparr>)"
    if v: "norm_vendor (vendor flds) = None"
  proof (cases "hash_row con h")
    case None
    then have "detect_duplicates con h flds = None"
      using v by (simp add: detect_duplicates_rest likely_row_None_vendor suspects_None_vendor)
    then show ?thesis ..
  next
    case (Some d)
    with hash_row_Some [OF Some] detect_duplicates_exact [OF Some, of flds] show ?thesis
      by blast
  qed
  show ?thesis
    using tiers seps_and_zeros [of s] norm_vendor_nonempty [of x] norm_invoice_no_nonempty [of y]
    by (simp add: norm_vendor_def norm_invoice_no_def)
qed

theorem norm_never_empty_witness:
  "norm_vendor (Some ''LLC'') \<noteq> Some [] \<and> norm_invoice_no (Some ''-0.0 '') \<noteq> Some []
   \<and> norm_invoice_no (Some ''00-0/0'') = None
   \<and> (detect_duplicates acme_store ''H1'' (no_fields\<lparr>vendor := Some ''Inc''\<rparr>) = None
      \<or> (\<exists>d \<in> set (documents acme_store). hash_sha256 d = Some ''H1''
            \<and> detect_duplicates acme_store ''H1'' (no_fields\<lparr>vendor := Some ''Inc''\<rparr>) =
                Some \<lparr>certainty = ''exact'', reason = ''hash_sha256 matched an existing document'',
                      matches = [Match ''document'' (doc_id d) None]\<rparr>))"
proof -
  have a: "\<forall>c \<in> set ''00-0/0''. is_invoice_sep c \<or> c = CHR ''0''"
    by code_simp
  have b: "norm_vendor (vendor (no_fields\<lparr>vendor := Some ''Inc''\<rparr>)) = None"
    by code_simp
  from norm_never_empty [of "Some ''LLC''" "Some ''-0.0 ''" "''00-0/0''"
      "no_fields\<lparr>vendor := Some ''Inc''\<rparr>" acme_store "''H1''"] a b
  show ?thesis by blast
qed

section \<open>The third tier\<close>

text \<open>
  The loop of the third tier, read as a list comprehension: the entry of a record, the test
  that appends it, and the records the query selects.
\<close>

definition score_of :: "string option \<Rightarrow> record_row \<Rightarrow> rat" where
  "score_of invn r = similar invn (invoice_number_norm (rec_fields r))"

definition qualifies :: "string option \<Rightarrow> rat option \<Rightarrow> string option \<Rightarrow> record_row \<Rightarrow> bool" where
  "qualifies invn tot invdate r =
     (9 / 10 \<le> score_of invn r
      \<or> (truthy invn \<and> invoice_number_norm (rec_fields r) = invn)
      \<or> (total_close tot (total_fld (rec_fields r)) \<and> date_match invdate (invoice_date (rec_fields r))))"

definition same_vendor :: "string \<Rightarrow> record_row \<Rightarrow> bool" where
  "same_vendor v r = sql_key_eq (vendor_norm (rec_fields r)) v"

definition crowded_store :: store where
  "crowded_store =
     \<lparr>documents = [],
      records =
        map (\<lambda>(i, n). \<lparr>rec_id = i,
               rec_fields = no_fields\<lparr>total_fld := Some 100, invoice_date := Some ''2024-01-05'',
                                       vendor_norm := Some ''acme'', invoice_number_norm := Some n\<rparr>\<rparr>)
          [(''rec_1'', ''77''), (''rec_2'', ''78''), (''rec_3'', ''79''), (''rec_4'', ''87''),
           (''rec_5'', ''88''), (''rec_6'', ''inv1024'')]\<rparr>"

definition crowded_query :: fields where
  "crowded_query =
     no_fields\<lparr>vendor := Some ''Acme'', invoice_number := Some ''INV-01024'',
                total_fld := Some 100, invoice_date := Some ''2024-01-05''\<rparr>"

lemma suspects_filter:
  "suspects con (Some v) invn tot invdate =
     (if v \<noteq> []
      then map (\<lambda>r. Match ''record'' (rec_id r) (Some (py_round3 (score_of invn r))))
             (filter (qualifies invn tot invdate) (filter (same_vendor v) (records con)))
      else [])"
proof -
  have "concat (map (suspect_of invn tot invdate) rs)
        = map (\<lambda>r. Match ''record'' (rec_id r) (Some (py_round3 (score_of invn r))))
            (filter (qualifies invn tot invdate) rs)" for rs
    by (induction rs) (simp_all add: suspect_of_def qualifies_def score_of_def Let_def)
  then show ?thesis
    by (simp add: suspects_def same_vendor_def)
qed

lemma round_half_even_near: "\<bar>of_int (round_half_even x) - x\<bar> \<le> 1 / 2"
proof -
  define f where "f = \<lfloor>x\<rfloor>"
  define d where "d = x - of_int f"
  have d: "0 \<le> d" "d < 1" and x: "x = of_int f + d"
    unfolding d_def f_def by linarith+
  have r: "round_half_even x
      = (if d < 1 / 2 then f else if 1 / 2 < d then f + 1 else if even f then f else f + 1)"
    unfolding round_half_even_def Let_def f_def d_def ..
  show ?thesis
  proof (cases "d < 1 / 2")
    case True
    with r d x show ?thesis by simp
  next
    case False
    note nlt = this
    show ?thesis
    proof (cases "1 / 2 < d")
      case True
      with r nlt d x show ?thesis by simp
    next
      case False
      with nlt have "d = 1 / 2" by simp
      with r x show ?thesis by simp
    qed
  qed
qed

lemma py_round3_near: "\<bar>py_round3 x - x\<bar> \<le> 1 / 2000"
proof -
  have "\<bar>of_int (round_half_even (x * 1000)) - x * 1000\<bar> \<le> 1 / 2"
    by (rule round_half_even_near)
  then show ?thesis
    unfolding py_round3_def by (simp add: abs_if field_simps split: if_splits)
qed

lemma py_round3_grid: "\<exists>k :: int. py_round3 x = of_int k / 1000"
  unfolding py_round3_def by blast

text \<open>
  C3, as the code has it. A \<open>possible\<close> verdict lists at most five matches. They are the first
  five qualifying records of the same vendor in the order the query yields them
  (\<open>suspects[:5]\<close>; nothing sorts by score), and the similarity of each is its score rounded
  to three decimals.
\<close>

theorem possible_matches_first_five:
  "detect_duplicates con h flds = Some vd \<and> certainty vd = ''possible'' \<longrightarrow>
     length (matches vd) \<le> 5
     \<and> (\<exists>v. norm_vendor (vendor flds) = Some v
           \<and> matches vd =
               take 5
                 (map (\<lambda>r. Match ''record'' (rec_id r)
                             (Some (py_round3 (score_of (norm_invoice_no (invoice_number flds)) r))))
                    (filter (qualifies (norm_invoice_no (invoice_number flds)) (total_fld flds)
                               (invoice_date flds))
                       (filter (same_vendor v) (records con)))))
     \<and> (\<forall>m \<in> set (matches vd).
           \<exists>r \<in> set (records con). \<exists>k :: int.
              m = Match ''record'' (rec_id r) (Some (of_int k / 1000))
              \<and> \<bar>of_int k / 1000 - score_of (norm_invoice_no (invoice_number flds)) r\<bar> \<le> 1 / 2000)"
proof
  let ?invn = "norm_invoice_no (invoice_number flds)"
  let ?entry = "\<lambda>r. Match ''record'' (rec_id r) (Some (py_round3 (score_of ?invn r)))"
  assume a: "detect_duplicates con h flds = Some vd \<and> certainty vd = ''possible''"
  then have p: "hash_row con h = None"
      "likely_row con (norm_vendor (vendor flds)) ?invn = None"
    using possible_only_otherwise [of con h flds vd] by simp_all
  define sus where "sus = suspects con (norm_vendor (vendor flds)) ?invn (total_fld flds) (invoice_date flds)"
  from a detect_duplicates_rest [OF p] have m: "sus \<noteq> []" "matches vd = take 5 sus"
    by (auto simp: sus_def Let_def split: if_splits)
  from m(1) obtain v where v: "norm_vendor (vendor flds) = Some v"
    by (cases "norm_vendor (vendor flds)") (auto simp: sus_def suspects_None_vendor)
  with m(1) have sus: "sus = map ?entry
      (filter (qualifies ?invn (total_fld flds) (invoice_date flds))
         (filter (same_vendor v) (records con)))"
    by (auto simp: sus_def suspects_filter split: if_splits)
  have len: "length (matches vd) \<le> 5"
    by (simp add: m(2))
  have each: "\<exists>r \<in> set (records con). \<exists>k :: int.
              m = Match ''record'' (rec_id r) (Some (of_int k / 1000))
              \<and> \<bar>of_int k / 1000 - score_of ?invn r\<bar> \<le> 1 / 2000"
    if "m \<in> set (matches vd)" for m
  proof -
    from that have "m \<in> set sus"
      unfolding m(2) by (rule in_set_takeD)
    then obtain r where r: "r \<in> set (records con)" "m = ?entry r"
      unfolding sus by auto
    obtain k :: int where k: "py_round3 (score_of ?invn r) = of_int k / 1000"
      using py_round3_grid by blast
    from py_round3_near [of "score_of ?invn r"] k
    have "\<bar>of_int k / 1000 - score_of ?invn r\<bar> \<le> 1 / 2000" by simp
    with r k show ?thesis by auto
  qed
  from len v m(2) sus each
  show "length (matches vd) \<le> 5
     \<and> (\<exists>v. norm_vendor (vendor flds) = Some v
           \<and> matches vd = take 5 (map ?entry
                    (filter (qualifies ?invn (total_fld flds) (invoice_date flds))
                       (filter (same_vendor v) (records con)))))
     \<and> (\<forall>m \<in> set (matches vd).
           \<exists>r \<in> set (records con). \<exists>k :: int.
              m = Match ''record'' (rec_id r) (Some (of_int k / 1000))
              \<and> \<bar>of_int k / 1000 - score_of ?invn r\<bar> \<le> 1 / 2000)"
    by blast
qed

theorem possible_matches_first_five_witness:
  "length (matches \<lparr>certainty = ''possible'', reason = ''Near-duplicate by vendor+invoice heuristics'',
            matches = [Match ''record'' ''rec_2'' (Some (933 / 1000))]\<rparr>) \<le> 5
   \<and> (\<exists>v. norm_vendor (vendor near_query) = Some v
         \<and> [Match ''record'' ''rec_2'' (Some (933 / 1000))] =
             take 5
               (map (\<lambda>r. Match ''record'' (rec_id r)
                           (Some (py_round3 (score_of (norm_invoice_no (invoice_number near_query)) r))))
                  (filter (qualifies (norm_invoice_no (invoice_number near_query)) (total_fld near_query)
                             (invoice_date near_query))
                     (filter (same_vendor v) (records acme_store)))))"
proof -
  have h: "detect_duplicates acme_store ''H2'' near_query =
      Some \<lparr>certainty = ''possible'', reason = ''Near-duplicate by vendor+invoice heuristics'',
            matches = [Match ''record'' ''rec_2'' (Some (933 / 1000))]\<rparr>
      \<and> certainty \<lparr>certainty = ''possible'', reason = ''Near-duplicate by vendor+invoice heuristics'',
            matches = [Match ''record'' ''rec_2'' (Some (933 / 1000))]\<rparr> = ''possible''"
    by code_simp
  from possible_matches_first_five [where con = acme_store and h = "''H2''" and flds = near_query
      and vd = "\<lparr>certainty = ''possible'', reason = ''Near-duplicate by vendor+invoice heuristics'',
            matches = [Match ''record'' ''rec_2'' (Some (933 / 1000))]\<rparr>"] h
  show ?thesis by simp
qed

text \<open>
  Six records of the vendor qualify, the sixth with the highest score; the verdict lists the
  first five and leaves the sixth out.
\<close>

theorem highest_score_dropped_counterexample:
  "suspects crowded_store (norm_vendor (vendor crowded_query))
       (norm_invoice_no (invoice_number crowded_query))
       (total_fld crowded_query) (invoice_date crowded_query) =
     [Match ''record'' ''rec_1'' (Some 0), Match ''record'' ''rec_2'' (Some 0),
      Match ''record'' ''rec_3'' (Some 0), Match ''record'' ''rec_4'' (Some 0),
      Match ''record'' ''rec_5'' (Some 0), Match ''record'' ''rec_6'' (Some (933 / 1000))]
   \<and> map_option matches (detect_duplicates crowded_store ''H9'' crowded_query) =
       Some [Match ''record'' ''rec_1'' (Some 0), Match ''record'' ''rec_2'' (Some 0),
             Match ''record'' ''rec_3'' (Some 0), Match ''record'' ''rec_4'' (Some 0),
             Match ''record'' ''rec_5'' (Some 0)]"
  by code_simp

section \<open>What the normalisers produce\<close>

fun no_adjacent_spaces :: "string \<Rightarrow> bool" where
  "no_adjacent_spaces [] = True"
| "no_adjacent_spaces [c] = True"
| "no_adjacent_spaces (c # d # cs) = (\<not> (py_isspace c \<and> py_isspace d) \<and> no_adjacent_spaces (d # cs))"

lemma no_adjacent_spaces_Cons:
  "no_adjacent_spaces (c # s) \<longleftrightarrow> (s = [] \<or> \<not> (py_isspace c \<and> py_isspace (hd s))) \<and> no_adjacent_spaces s"
  by (cases s) auto

lemma no_adjacent_spaces_append:
  "no_adjacent_spaces (xs @ ys) \<longleftrightarrow>
     no_adjacent_spaces xs \<and> no_adjacent_spaces ys
     \<and> (xs = [] \<or> ys = [] \<or> \<not> (py_isspace (last xs) \<and> py_isspace (hd ys)))"
proof (induction xs rule: no_adjacent_spaces.induct)
  case 1
  then show ?case by simp
next
  case (2 c)
  then show ?case by (cases ys) auto
next
  case (3 c d cs)
  then show ?case by auto
qed

lemma no_adjacent_spaces_rev: "no_adjacent_spaces (rev s) = no_adjacent_spaces s"
proof (induction s)
  case Nil
  then show ?case by simp
next
  case (Cons c s)
  show ?case
  proof (cases "s = []")
    case True
    then show ?thesis by simp
  next
    case False
    then have "last (rev s) = hd s" by (simp add: last_rev)
    with Cons False show ?thesis
      by (auto simp: no_adjacent_spaces_append no_adjacent_spaces_Cons)
  qed
qed

lemma no_adjacent_spaces_dropWhile:
  "no_adjacent_spaces s \<Longrightarrow> no_adjacent_spaces (dropWhile P s)"
  by (induction s) (auto simp: no_adjacent_spaces_Cons)

lemma no_adjacent_spaces_strip: "no_adjacent_spaces s \<Longrightarrow> no_adjacent_spaces (py_strip s)"
  by (simp add: py_strip_def no_adjacent_spaces_rev no_adjacent_spaces_dropWhile)

lemma blank_isspace: "py_isspace (CHR '' '')"
  by (simp add: py_isspace_def)

lemma collapse_spaces_head:
  "(collapse_spaces s = [] \<longleftrightarrow> s = [])
   \<and> (s \<noteq> [] \<longrightarrow> py_isspace (hd (collapse_spaces s)) = py_isspace (hd s))"
  by (induction s rule: collapse_spaces.induct) (auto simp: blank_isspace)

lemma no_adjacent_spaces_collapse: "no_adjacent_spaces (collapse_spaces s)"
proof (induction s rule: collapse_spaces.induct)
  case 1
  then show ?case by simp
next
  case (2 c)
  then show ?case by simp
next
  case (3 c d cs)
  show ?case
  proof (cases "py_isspace c \<and> py_isspace d")
    case True
    let ?t = "dropWhile py_isspace cs"
    have "?t = [] \<or> \<not> py_isspace (hd ?t)"
      by (cases "?t = []") (auto simp: hd_dropWhile)
    then have "collapse_spaces ?t = [] \<or> \<not> py_isspace (hd (collapse_spaces ?t))"
      using collapse_spaces_head [of ?t] by auto
    with 3 True show ?thesis
      by (simp add: no_adjacent_spaces_Cons)
  next
    case False
    have "py_isspace (hd (collapse_spaces (d # cs))) = py_isspace d"
      using collapse_spaces_head [of "d # cs"] by simp
    with 3 False show ?thesis
      by (simp add: no_adjacent_spaces_Cons) blast
  qed
qed

lemma last_dropWhile: "dropWhile P s \<noteq> [] \<Longrightarrow> last (dropWhile P s) = last s"
  by (induction s) (auto split: if_splits)

lemma py_strip_ends:
  assumes "py_strip s \<noteq> []"
  shows "\<not> py_isspace (hd (py_strip s)) \<and> \<not> py_isspace (last (py_strip s))"
proof -
  let ?t = "dropWhile py_isspace s"
  let ?u = "dropWhile py_isspace (rev ?t)"
  from assms have u: "?u \<noteq> []"
    by (simp add: py_strip_def)
  have t: "?t \<noteq> []"
  proof
    assume e: "?t = []"
    have "?u = dropWhile py_isspace (rev [])" by (simp only: e)
    with u show False by simp
  qed
  have "last (py_strip s) = hd ?u"
    using u by (simp add: py_strip_def last_rev)
  moreover have "\<not> py_isspace (hd ?u)"
    using u by (simp add: hd_dropWhile)
  moreover have "hd (py_strip s) = last ?u"
    using u by (simp add: py_strip_def hd_rev)
  moreover have "last ?u = last (rev ?t)"
    using u by (rule last_dropWhile)
  moreover have "last (rev ?t) = hd ?t"
    using t by (simp add: last_rev)
  moreover have "\<not> py_isspace (hd ?t)"
    using t by (simp add: hd_dropWhile)
  ultimately show ?thesis by simp
qed

lemma py_lower_char_fixed: "py_lower_char (py_lower_char c) = py_lower_char c"
  unfolding py_lower_char_def py_isupper_def Let_def
  by (auto simp: of_char_of)

definition scenario_store :: store where
  "scenario_store =
     \<lparr>documents = [],
      records =
        [\<lparr>rec_id = ''rec_prior'',
          rec_fields =
            no_fields\<lparr>vendor := Some ''Acme Corp'', invoice_number := Some ''INV-1024'',
                       vendor_norm := norm_vendor (Some ''Acme Corp''),
                       invoice_number_norm := norm_invoice_no (Some ''INV-1024'')\<rparr>\<rparr>]\<rparr>"

lemma norm_invoice_no_shape:
  assumes "norm_invoice_no x = Some n"
  shows "(\<forall>c \<in> set n. py_lower_char c = c \<and> \<not> is_invoice_sep c) \<and> hd n \<noteq> CHR ''0''"
proof -
  from assms obtain s where n: "n = dropWhile (\<lambda>c. c = CHR ''0'') (filter (\<lambda>c. \<not> is_invoice_sep c) (py_lower s))"
      and ne: "n \<noteq> []"
    by (auto simp: norm_invoice_no_def Let_def split: option.splits if_splits)
  have "set n \<subseteq> set (filter (\<lambda>c. \<not> is_invoice_sep c) (py_lower s))"
    unfolding n by (rule set_dropWhile_subset)
  then have a: "\<forall>c \<in> set n. py_lower_char c = c \<and> \<not> is_invoice_sep c"
    by (auto simp: py_lower_def py_lower_char_fixed)
  from ne have "hd n \<noteq> CHR ''0''"
    unfolding n using hd_dropWhile [of "\<lambda>c. c = CHR ''0''"] by blast
  with a show ?thesis ..
qed

lemma norm_vendor_shape:
  assumes "norm_vendor y = Some v"
  shows "(\<forall>c \<in> set v. py_lower_char c = c) \<and> \<not> py_isspace (hd v) \<and> \<not> py_isspace (last v)
         \<and> no_adjacent_spaces v"
proof -
  from assms obtain s where v: "v = py_strip (collapse_spaces (sub_legal 0 None (py_strip (py_lower s))))"
      and ne: "v \<noteq> []"
    by (auto simp: norm_vendor_def Let_def split: option.splits if_splits)
  have "set v \<subseteq> insert (CHR '' '') (set (py_lower s))"
    unfolding v using set_py_strip set_collapse_spaces set_sub_legal by fast
  moreover have "py_lower_char (CHR '' '') = CHR '' ''"
    by (simp add: py_lower_char_def py_isupper_def)
  ultimately have a: "\<forall>c \<in> set v. py_lower_char c = c"
    by (auto simp: py_lower_def py_lower_char_fixed)
  have b: "\<not> py_isspace (hd v) \<and> \<not> py_isspace (last v)"
    using ne py_strip_ends unfolding v by blast
  have "no_adjacent_spaces v"
    unfolding v by (intro no_adjacent_spaces_strip no_adjacent_spaces_collapse)
  with a b show ?thesis by blast
qed

text \<open>
  C4, as the code has it. \<open>_norm_invoice_no\<close> lower-cases, deletes the separators and then
  the leading zeros; \<open>_norm_vendor\<close> lower-cases, deletes the legal-suffix words, collapses
  runs of whitespace and strips the ends. Letters are kept, so \<open>INV-1024\<close> becomes \<open>inv1024\<close>
  and \<open>INV-01024\<close> becomes \<open>inv01024\<close> (its zero is not leading). Their similarity ratio is
  14/15, rounded 0.933, and with both vendors normalised to \<open>acme\<close> the verdict is \<open>possible\<close>.
\<close>

theorem normalisation_scenario:
  "norm_invoice_no (Some s) =
     (let t = dropWhile (\<lambda>c. c = CHR ''0'') (filter (\<lambda>c. \<not> is_invoice_sep c) (map py_lower_char s))
      in if t = [] then None else Some t)
   \<and> (norm_invoice_no x = Some n \<longrightarrow>
        (\<forall>c \<in> set n. py_lower_char c = c \<and> \<not> is_invoice_sep c) \<and> hd n \<noteq> CHR ''0'')
   \<and> (norm_vendor y = Some v \<longrightarrow>
        (\<forall>c \<in> set v. py_lower_char c = c) \<and> \<not> py_isspace (hd v) \<and> \<not> py_isspace (last v)
        \<and> no_adjacent_spaces v)
   \<and> norm_vendor (Some ''Acme LLC'') = Some ''acme''
   \<and> norm_vendor (Some ''Acme Inc'') = Some ''acme''
   \<and> norm_vendor (Some ''Acme Ltd'') = Some ''acme''
   \<and> norm_vendor (Some ''Acme Corp'') = Some ''acme''
   \<and> norm_vendor (Some ''Acme'') = Some ''acme''
   \<and> norm_vendor (Some ''  ACME   Corp  West '') = Some ''acme west''
   \<and> norm_invoice_no (Some ''INV-1024'') = Some ''inv1024''
   \<and> norm_invoice_no (Some ''INV-01024'') = Some ''inv01024''
   \<and> norm_invoice_no (Some ''00-1024'') = Some ''1024''
   \<and> similar (Some ''inv01024'') (Some ''inv1024'') = 14 / 15
   \<and> detect_duplicates scenario_store h near_query =
        Some \<lparr>certainty = ''possible'', reason = ''Near-duplicate by vendor+invoice heuristics'',
              matches = [Match ''record'' ''rec_prior'' (Some (933 / 1000))]\<rparr>"
proof -
  have a: "norm_invoice_no (Some s) =
     (let t = dropWhile (\<lambda>c. c = CHR ''0'') (filter (\<lambda>c. \<not> is_invoice_sep c) (map py_lower_char s))
      in if t = [] then None else Some t)"
  proof (cases "s = []")
    case True
    then show ?thesis by (simp add: norm_invoice_no_def)
  next
    case False
    then show ?thesis
      unfolding norm_invoice_no_def py_lower_def Let_def by (simp only: option.case if_False)
  qed
  have v: "norm_vendor (Some ''Acme LLC'') = Some ''acme''"
      "norm_vendor (Some ''Acme Inc'') = Some ''acme''"
      "norm_vendor (Some ''Acme Ltd'') = Some ''acme''"
      "norm_vendor (Some ''Acme Corp'') = Some ''acme''"
      "norm_vendor (Some ''Acme'') = Some ''acme''"
      "norm_vendor (Some ''  ACME   Corp  West '') = Some ''acme west''"
    by code_simp+
  have i: "norm_invoice_no (Some ''INV-1024'') = Some ''inv1024''"
      "norm_invoice_no (Some ''INV-01024'') = Some ''inv01024''"
      "norm_invoice_no (Some ''00-1024'') = Some ''1024''"
    by code_simp+
  have r: "similar (Some ''inv01024'') (Some ''inv1024'') = 14 / 15"
    by code_simp
  have h: "hash_row scenario_store h = None"
    by (simp add: hash_row_def scenario_store_def)
  have l: "likely_row scenario_store (norm_vendor (vendor near_query))
             (norm_invoice_no (invoice_number near_query)) = None"
    by code_simp
  have s: "suspects scenario_store (norm_vendor (vendor near_query))
             (norm_invoice_no (invoice_number near_query))
             (total_fld near_query) (invoice_date near_query)
           = [Match ''record'' ''rec_prior'' (Some (933 / 1000))]"
    by code_simp
  have d: "detect_duplicates scenario_store h near_query =
        Some \<lparr>certainty = ''possible'', reason = ''Near-duplicate by vendor+invoice heuristics'',
              matches = [Match ''record'' ''rec_prior'' (Some (933 / 1000))]\<rparr>"
    by (simp add: detect_duplicates_rest [OF h l] s)
  from a norm_invoice_no_shape [of x n] norm_vendor_shape [of y v] v i r d
  show ?thesis by blast
qed

theorem normalisation_scenario_witness:
  "hd ''inv1024'' \<noteq> CHR ''0''
   \<and> \<not> py_isspace (hd ''acme'') \<and> \<not> py_isspace (last ''acme'') \<and> no_adjacent_spaces ''acme''
   \<and> detect_duplicates scenario_store ''H2'' near_query =
        Some \<lparr>certainty = ''possible'', reason = ''Near-duplicate by vendor+invoice heuristics'',
              matches = [Match ''record'' ''rec_prior'' (Some (933 / 1000))]\<rparr>"
proof -
  have a: "norm_invoice_no (Some ''INV-1024'') = Some ''inv1024''"
    by code_simp
  have b: "norm_vendor (Some ''Acme Corp'') = Some ''acme''"
    by code_simp
  from normalisation_scenario [where x = "Some ''INV-1024''" and n = "''inv1024''"
      and y = "Some ''Acme Corp''" and v = "''acme''" and h = "''H2''"] a b
  show ?thesis by blast
qed

text \<open>Neither invoice number of the scenario normalises to \<open>1024\<close>, and the ratio is not 1.\<close>

theorem normalisation_scenario_counterexample:
  "norm_invoice_no (Some ''INV-1024'') \<noteq> Some ''1024''
   \<and> norm_invoice_no (Some ''INV-01024'') \<noteq> Some ''1024''
   \<and> similar (norm_invoice_no (Some ''INV-01024'')) (norm_invoice_no (Some ''INV-1024'')) \<noteq> 1"
  by code_simp

section \<open>Field normaliser (backend/business_hub/ai.py)\<close>

subsection \<open>JSON values and dicts\<close>

text \<open>
  A payload of the model is a JSON object: a Python dict whose keys are strings, kept here as
  the list of its items in insertion order and read with \<open>map_of\<close>. Numbers are rationals
  (no NaN, no infinity).
\<close>

datatype json =
    JNull
  | JBool bool
  | JNum rat
  | JStr string
  | JArr "json list"
  | JObj "(string \<times> json) list"

type_synonym py_dict = "(string \<times> json) list"

definition dict_get :: "py_dict \<Rightarrow> string \<Rightarrow> json option" where
  "dict_get d k = map_of d k"

definition setdefault :: "string \<Rightarrow> json \<Rightarrow> py_dict \<Rightarrow> py_dict" where
  "setdefault k v d = (case map_of d k of None \<Rightarrow> d @ [(k, v)] | Some _ \<Rightarrow> d)"

subsection \<open>\<open>datetime.strptime\<close> for the four formats\<close>

text \<open>
  \<open>strptime\<close> turns a format into a regular expression, matches it at the start of the text
  and raises when text is left over or the numbers read are not a calendar date. For the four
  formats of the source the separators split the text, and each part must be one of the
  tokens its directive accepts.
\<close>

record date =
  d_year :: nat
  d_month :: nat
  d_day :: nat

record datetime =
  dt_date :: date
  dt_hour :: nat
  dt_minute :: nat
  dt_second :: nat
  dt_microsecond :: nat
  dt_utcoffset :: "int option"

definition is_digit :: "char \<Rightarrow> bool" where
  "is_digit c = (48 \<le> (of_char c :: nat) \<and> (of_char c :: nat) \<le> 57)"

definition digit_val :: "char \<Rightarrow> nat" where
  "digit_val c = of_char c - 48"

definition digits_val :: "string \<Rightarrow> nat" where
  "digits_val s = foldl (\<lambda>n c. 10 * n + digit_val c) 0 s"

definition month_token :: "string \<Rightarrow> nat option" where
  \<comment> \<open>\<open>%m\<close>: \<open>1[0-2]|0[1-9]|[1-9]\<close>\<close>
  "month_token s =
     (if length s \<in> {1, 2} \<and> list_all is_digit s \<and> 1 \<le> digits_val s \<and> digits_val s \<le> 12
      then Some (digits_val s) else None)"

definition day_token :: "string \<Rightarrow> nat option" where
  \<comment> \<open>\<open>%d\<close>: \<open>3[0-1]|[1-2]\d|0[1-9]|[1-9]| [1-9]\<close>\<close>
  "day_token s =
     (if length s \<in> {1, 2} \<and> list_all is_digit s \<and> 1 \<le> digits_val s \<and> digits_val s \<le> 31
      then Some (digits_val s)
      else (case s of
              [b, c] \<Rightarrow> if b = CHR '' '' \<and> is_digit c \<and> c \<noteq> CHR ''0'' then Some (digit_val c) else None
            | _ \<Rightarrow> None))"

definition year4_token :: "string \<Rightarrow> nat option" where
  \<comment> \<open>\<open>%Y\<close>: \<open>\d\d\d\d\<close>\<close>
  "year4_token s = (if length s = 4 \<and> list_all is_digit s then Some (digits_val s) else None)"

definition year2_token :: "string \<Rightarrow> nat option" where
  \<comment> \<open>\<open>%y\<close>: \<open>\d\d\<close>, 00-68 in the 2000s and 69-99 in the 1900s\<close>
  "year2_token s =
     (if length s = 2 \<and> list_all is_digit s
      then Some (if digits_val s \<le> 68 then 2000 + digits_val s else 1900 + digits_val s)
      else None)"

definition is_leap :: "nat \<Rightarrow> bool" where
  "is_leap y = (y mod 4 = 0 \<and> (y mod 100 \<noteq> 0 \<or> y mod 400 = 0))"

definition days_in_month :: "nat \<Rightarrow> nat \<Rightarrow> nat" where
  "days_in_month y m =
     (if m = 2 then (if is_leap y then 29 else 28)
      else if m \<in> {4, 6, 9, 11} then 30 else 31)"

definition make_date :: "nat option \<Rightarrow> nat option \<Rightarrow> nat option \<Rightarrow> date option" where
  \<comment> \<open>the three fields read, then \<open>datetime(year, month, day)\<close>, which raises outside the calendar\<close>
  "make_date yo mo dd =
     (case (yo, mo, dd) of
        (Some y, Some m, Some d) \<Rightarrow>
          if 1 \<le> y \<and> y \<le> 9999 \<and> 1 \<le> m \<and> m \<le> 12 \<and> 1 \<le> d \<and> d \<le> days_in_month y m
          then Some \<lparr>d_year = y, d_month = m, d_day = d\<rparr> else None
      | _ \<Rightarrow> None)"

definition split_at :: "char \<Rightarrow> string \<Rightarrow> (string \<times> string) option" where
  \<comment> \<open>the text before the first separator and the text after it\<close>
  "split_at sep s =
     (if sep \<in> set s
      then Some (takeWhile (\<lambda>c. c \<noteq> sep) s, tl (dropWhile (\<lambda>c. c \<noteq> sep) s))
      else None)"

datatype date_format = MDY4 | MDY2 | Y4MD_dash | Y4MD_slash

definition strptime_date :: "date_format \<Rightarrow> string \<Rightarrow> date option" where
  "strptime_date fmt s =
     (case fmt of
        MDY4 \<Rightarrow>
          (case split_at (CHR ''/'') s of
             None \<Rightarrow> None
           | Some (a, r) \<Rightarrow>
               (case split_at (CHR ''/'') r of
                  None \<Rightarrow> None
                | Some (b, c) \<Rightarrow> make_date (year4_token c) (month_token a) (day_token b)))
      | MDY2 \<Rightarrow>
          (case split_at (CHR ''/'') s of
             None \<Rightarrow> None
           | Some (a, r) \<Rightarrow>
               (case split_at (CHR ''/'') r of
                  None \<Rightarrow> None
                | Some (b, c) \<Rightarrow> make_date (year2_token c) (month_token a) (day_token b)))
      | Y4MD_dash \<Rightarrow>
          (case split_at (CHR ''-'') s of
             None \<Rightarrow> None
           | Some (a, r) \<Rightarrow>
               (case split_at (CHR ''-'') r of
                  None \<Rightarrow> None
                | Some (b, c) \<Rightarrow> make_date (year4_token a) (month_token b) (day_token c)))
      | Y4MD_slash \<Rightarrow>
          (case split_at (CHR ''/'') s of
             None \<Rightarrow> None
           | Some (a, r) \<Rightarrow>
               (case split_at (CHR ''/'') r of
                  None \<Rightarrow> None
                | Some (b, c) \<Rightarrow> make_date (year4_token a) (month_token b) (day_token c))))"

subsection \<open>\<open>isoformat\<close>\<close>

fun digit_chars :: "nat \<Rightarrow> nat \<Rightarrow> string" where
  \<comment> \<open>the last \<open>w\<close> decimal digits of \<open>n\<close>, zero-padded: \<open>'%0wd' % n\<close> for \<open>n < 10 ^ w\<close>\<close>
  "digit_chars 0 n = []"
| "digit_chars (Suc w) n = digit_chars w (n div 10) @ [char_of (48 + n mod 10)]"

definition date_isoformat :: "date \<Rightarrow> string" where
  "date_isoformat d =
     digit_chars 4 (d_year d) @ ''-'' @ digit_chars 2 (d_month d) @ ''-'' @ digit_chars 2 (d_day d)"

definition offset_text :: "int \<Rightarrow> string" where
  \<comment> \<open>a UTC offset in minutes, as \<open>+HH:MM\<close> or \<open>-HH:MM\<close>\<close>
  "offset_text m =
     (if 0 \<le> m then ''+'' else ''-'')
       @ digit_chars 2 (nat \<bar>m\<bar> div 60) @ '':'' @ digit_chars 2 (nat \<bar>m\<bar> mod 60)"

definition datetime_isoformat :: "datetime \<Rightarrow> string" where
  "datetime_isoformat t =
     date_isoformat (dt_date t) @ ''T''
       @ digit_chars 2 (dt_hour t) @ '':'' @ digit_chars 2 (dt_minute t) @ '':''
       @ digit_chars 2 (dt_second t)
       @ (if dt_microsecond t \<noteq> 0 then ''.'' @ digit_chars 6 (dt_microsecond t) else [])
       @ (case dt_utcoffset t of None \<Rightarrow> [] | Some m \<Rightarrow> offset_text m)"

definition at_midnight :: "date \<Rightarrow> datetime" where
  "at_midnight d =
     \<lparr>dt_date = d, dt_hour = 0, dt_minute = 0, dt_second = 0, dt_microsecond = 0,
      dt_utcoffset = None\<rparr>"

subsection \<open>The schema models and their validation\<close>

text \<open>
  \<open>InvoiceFields\<close>, \<open>ReceiptFields\<close> and \<open>LineItem\<close> are pydantic models; building one
  validates every field and raises one \<open>ValidationError\<close> if any field fails. Keys that are
  not fields are ignored. What the library accepts for a field of type \<open>str\<close>, \<open>float\<close> and
  \<open>datetime\<close> is a parameter of the model, \<open>schema_lib\<close>: the library is not part of the
  repository. \<open>None\<close> is a rejected value. A \<open>datetime\<close> field is given either a JSON value
  or the \<open>date\<close> object the parsing loop has put in its place.
\<close>

datatype py_error =
    TypeError
  | ValueError
  | AttributeError
  | ValidationError
  | ApiKeyNotSet
  | InvalidJson
  | VisionCallFailed (failed_model: string) (failed_message: string) (failed_body: "string option")

datatype date_input = FromJson json | DateObject date

record schema_lib =
  str_field :: "json \<Rightarrow> string option"
  float_field :: "json \<Rightarrow> rat option"
  datetime_field :: "date_input \<Rightarrow> datetime option"

definition required :: "('a \<Rightarrow> 'b option) \<Rightarrow> 'a option \<Rightarrow> 'b option" where
  \<comment> \<open>a field with no default: a missing key is a validation error\<close>
  "required v x = (case x of None \<Rightarrow> None | Some j \<Rightarrow> v j)"

definition optional :: "(json \<Rightarrow> 'b option) \<Rightarrow> json option \<Rightarrow> 'b option option" where
  \<comment> \<open>\<open>Optional[T] = None\<close>: a missing key and \<open>null\<close> both give the value \<open>None\<close>\<close>
  "optional v x =
     (case x of None \<Rightarrow> Some None | Some JNull \<Rightarrow> Some None | Some j \<Rightarrow> map_option Some (v j))"

definition optional_datetime ::
  "(date_input \<Rightarrow> datetime option) \<Rightarrow> date_input option \<Rightarrow> datetime option option" where
  "optional_datetime v x =
     (case x of
        None \<Rightarrow> Some None
      | Some (FromJson JNull) \<Rightarrow> Some None
      | Some i \<Rightarrow> map_option Some (v i))"

record line_item =
  li_qty :: "rat option"
  li_description :: string
  li_unit_price :: "rat option"
  li_amount :: "rat option"

definition opt_entry :: "string \<Rightarrow> ('a \<Rightarrow> json) \<Rightarrow> 'a option \<Rightarrow> py_dict" where
  \<comment> \<open>\<open>exclude_none=True\<close>: a key whose value is \<open>None\<close> is left out\<close>
  "opt_entry k f x = (case x of None \<Rightarrow> [] | Some v \<Rightarrow> [(k, f v)])"

definition new_line_item :: "schema_lib \<Rightarrow> json \<Rightarrow> py_error + line_item" where
  \<comment> \<open>\<open>LineItem(**item)\<close>\<close>
  "new_line_item lib item =
     (case item of
        JObj kv \<Rightarrow>
          (case (optional (float_field lib) (dict_get kv ''qty''),
                 required (str_field lib) (dict_get kv ''description''),
                 optional (float_field lib) (dict_get kv ''unit_price''),
                 optional (float_field lib) (dict_get kv ''amount'')) of
             (Some q, Some d, Some u, Some a) \<Rightarrow>
               Inr \<lparr>li_qty = q, li_description = d, li_unit_price = u, li_amount = a\<rparr>
           | _ \<Rightarrow> Inl ValidationError)
      | _ \<Rightarrow> Inl TypeError)"

definition line_item_dict :: "line_item \<Rightarrow> json" where
  \<comment> \<open>\<open>item.dict(exclude_none=True)\<close>\<close>
  "line_item_dict li =
     JObj (opt_entry ''qty'' JNum (li_qty li) @ [(''description'', JStr (li_description li))]
           @ opt_entry ''unit_price'' JNum (li_unit_price li) @ opt_entry ''amount'' JNum (li_amount li))"

definition iterate :: "json \<Rightarrow> py_error + json list" where
  \<comment> \<open>what \<open>for item in value\<close> yields: the elements of a list, the characters of a string,
      the keys of a dict; anything else is not iterable\<close>
  "iterate j =
     (case j of
        JArr xs \<Rightarrow> Inr xs
      | JStr s \<Rightarrow> Inr (map (\<lambda>c. JStr [c]) s)
      | JObj kv \<Rightarrow> Inr (map (\<lambda>(k, v). JStr k) kv)
      | _ \<Rightarrow> Inl TypeError)"

fun new_line_items :: "schema_lib \<Rightarrow> json list \<Rightarrow> py_error + line_item list" where
  \<comment> \<open>the list comprehension: the first item that raises ends it\<close>
  "new_line_items lib [] = Inr []"
| "new_line_items lib (x # xs) =
     (case new_line_item lib x of
        Inl e \<Rightarrow> Inl e
      | Inr li \<Rightarrow> (case new_line_items lib xs of Inl e \<Rightarrow> Inl e | Inr lis \<Rightarrow> Inr (li # lis)))"

definition date_formats :: "date_format list" where
  \<comment> \<open>\<open>("%m/%d/%Y", "%m/%d/%y", "%Y-%m-%d", "%Y/%m/%d")\<close>\<close>
  "date_formats = [MDY4, MDY2, Y4MD_dash, Y4MD_slash]"

fun first_parse :: "date_format list \<Rightarrow> string \<Rightarrow> date option" where
  \<comment> \<open>the loop over the formats: \<open>try\<close> one, \<open>break\<close> on success, \<open>pass\<close> on any exception\<close>
  "first_parse [] s = None"
| "first_parse (f # fs) s =
     (case strptime_date f s of Some d \<Rightarrow> Some d | None \<Rightarrow> first_parse fs s)"

definition parse_date_value :: "json \<Rightarrow> date_input" where
  \<comment> \<open>one round of the loop over \<open>("invoice_date", "due_date")\<close>, for a key that is present\<close>
  "parse_date_value j =
     (case j of
        JStr v \<Rightarrow>
          if py_strip v \<noteq> []
          then (case first_parse date_formats (py_strip v) of
                  Some d \<Rightarrow> DateObject d
                | None \<Rightarrow> FromJson (JStr v))
          else FromJson (JStr v)
      | _ \<Rightarrow> FromJson j)"

definition normalize_invoice_fields :: "schema_lib \<Rightarrow> py_dict \<Rightarrow> string \<Rightarrow> py_error + py_dict" where
  "normalize_invoice_fields lib raw_fields fallback_id =
     (let data0 = setdefault ''vendor'' (JStr ''Unknown Vendor'') raw_fields;
          data1 = setdefault ''invoice_number''
                    (JStr (if fallback_id \<noteq> [] then ''INV-'' @ drop (length fallback_id - 6) fallback_id
                           else ''INV-UNKNOWN'')) data0;
          data = setdefault ''total'' (JNum 0) data1
      in (case iterate (case dict_get data ''line_items'' of None \<Rightarrow> JArr [] | Some j \<Rightarrow> j) of
            Inl e \<Rightarrow> Inl e
          | Inr items \<Rightarrow>
              (case new_line_items lib items of
                 Inl e \<Rightarrow> Inl e
               | Inr normalized_items \<Rightarrow>
                   (case (required (str_field lib) (dict_get data ''vendor''),
                          required (str_field lib) (dict_get data ''invoice_number''),
                          optional_datetime (datetime_field lib)
                            (map_option parse_date_value (dict_get data ''invoice_date'')),
                          optional_datetime (datetime_field lib)
                            (map_option parse_date_value (dict_get data ''due_date'')),
                          optional (str_field lib) (dict_get data ''currency''),
                          required (float_field lib) (dict_get data ''total''),
                          optional (float_field lib) (dict_get data ''tax''),
                          optional (str_field lib) (dict_get data ''payment_terms'')) of
                      (Some v_vendor, Some v_number, Some v_idate, Some v_ddate,
                       Some v_currency, Some v_total, Some v_tax, Some v_terms) \<Rightarrow>
                        Inr ([(''vendor'', JStr v_vendor), (''invoice_number'', JStr v_number)]
                             @ opt_entry ''invoice_date'' JStr (map_option datetime_isoformat v_idate)
                             @ opt_entry ''due_date'' JStr (map_option datetime_isoformat v_ddate)
                             @ opt_entry ''currency'' JStr v_currency
                             @ [(''total'', JNum v_total)]
                             @ opt_entry ''tax'' JNum v_tax
                             @ opt_entry ''payment_terms'' JStr v_terms
                             @ [(''line_items'', JArr (map line_item_dict normalized_items))])
                    | _ \<Rightarrow> Inl ValidationError))))"

datatype pyval = Json json | DatetimeObject datetime

definition normalize_receipt_fields :: "schema_lib \<Rightarrow> py_dict \<Rightarrow> py_error + (string \<times> pyval) list" where
  "normalize_receipt_fields lib raw_fields =
     (let data = setdefault ''total'' (JNum 0)
                   (setdefault ''merchant'' (JStr ''Unknown Merchant'') raw_fields)
      in (case (required (str_field lib) (dict_get data ''merchant''),
                optional_datetime (datetime_field lib) (map_option FromJson (dict_get data ''datetime'')),
                optional (float_field lib) (dict_get data ''subtotal''),
                optional (float_field lib) (dict_get data ''tip''),
                required (float_field lib) (dict_get data ''total''),
                optional (str_field lib) (dict_get data ''category'')) of
            (Some v_merchant, Some v_datetime, Some v_subtotal, Some v_tip, Some v_total,
             Some v_category) \<Rightarrow>
              Inr ([(''merchant'', Json (JStr v_merchant))]
                   @ (case v_datetime of None \<Rightarrow> [] | Some t \<Rightarrow> [(''datetime'', DatetimeObject t)])
                   @ map (\<lambda>(k, v). (k, Json v))
                       (opt_entry ''subtotal'' JNum v_subtotal @ opt_entry ''tip'' JNum v_tip
                        @ [(''total'', JNum v_total)] @ opt_entry ''category'' JStr v_category))
          | _ \<Rightarrow> Inl ValidationError))"

definition keeps_native :: "schema_lib \<Rightarrow> bool" where
  "keeps_native lib =
     ((\<forall>s. str_field lib (JStr s) = Some s) \<and> (\<forall>r. float_field lib (JNum r) = Some r))"

text \<open>
  A library for the examples. It accepts the JSON type a field names, turns a \<open>date\<close> object
  into the \<open>datetime\<close> at midnight (pydantic 2, lax mode), reads text of the form
  \<open>YYYY-MM-DD\<close> or \<open>YYYY-MM-DDTHH:MM:SS\<close> as a datetime and rejects everything else.
  pydantic accepts more (numbers written as text, timestamps, time zones); it agrees with
  this library on the inputs of the examples below.
\<close>

definition iso_datetime :: "string \<Rightarrow> datetime option" where
  "iso_datetime s =
     (let d = take 10 s; r = drop 10 s
      in if length d = 10 \<and> d ! 4 = CHR ''-'' \<and> d ! 7 = CHR ''-''
         then (case make_date (year4_token (take 4 d)) 
                      (if list_all is_digit (take 2 (drop 5 d)) then Some (digits_val (take 2 (drop 5 d))) else None)
                      (if list_all is_digit (drop 8 d) then Some (digits_val (drop 8 d)) else None) of
                 None \<Rightarrow> None
               | Some dd \<Rightarrow>
                   if r = [] then Some (at_midnight dd)
                   else if length r = 9 \<and> r ! 0 = CHR ''T'' \<and> r ! 3 = CHR '':'' \<and> r ! 6 = CHR '':''
                           \<and> list_all is_digit (take 2 (drop 1 r)) \<and> list_all is_digit (take 2 (drop 4 r))
                           \<and> list_all is_digit (drop 7 r)
                           \<and> digits_val (take 2 (drop 1 r)) < 24 \<and> digits_val (take 2 (drop 4 r)) < 60
                           \<and> digits_val (drop 7 r) < 60
                        then Some \<lparr>dt_date = dd, dt_hour = digits_val (take 2 (drop 1 r)),
                                   dt_minute = digits_val (take 2 (drop 4 r)),
                                   dt_second = digits_val (drop 7 r), dt_microsecond = 0,
                                   dt_utcoffset = None\<rparr>
                        else None)
         else None)"

definition example_lib :: schema_lib where
  "example_lib =
     \<lparr>str_field = (\<lambda>j. case j of JStr s \<Rightarrow> Some s | _ \<Rightarrow> None),
      float_field = (\<lambda>j. case j of JNum r \<Rightarrow> Some r | _ \<Rightarrow> None),
      datetime_field = (\<lambda>i. case i of DateObject d \<Rightarrow> Some (at_midnight d)
                                | FromJson (JStr s) \<Rightarrow> iso_datetime s
                                | _ \<Rightarrow> None)\<rparr>"

definition jan5 :: date where
  "jan5 = \<lparr>d_year = 2024, d_month = 1, d_day = 5\<rparr>"

definition dated_invoice :: "string \<Rightarrow> py_dict" where
  "dated_invoice v =
     [(''invoice_date'', JStr v), (''vendor'', JStr ''Acme Corp''),
      (''invoice_number'', JStr ''INV-1024''), (''total'', JNum 125),
      (''line_items'', JArr [JObj [(''description'', JStr ''Barrels''), (''qty'', JNum 5),
                                   (''unit_price'', JNum 25), (''amount'', JNum 125)]])]"

section \<open>Properties of the field normaliser\<close>

definition invoice_defaults :: "py_dict \<Rightarrow> string \<Rightarrow> py_dict" where
  "invoice_defaults raw fid =
     setdefault ''total'' (JNum 0)
       (setdefault ''invoice_number''
          (JStr (if fid \<noteq> [] then ''INV-'' @ drop (length fid - 6) fid else ''INV-UNKNOWN''))
          (setdefault ''vendor'' (JStr ''Unknown Vendor'') raw))"

lemma dict_get_setdefault:
  "dict_get (setdefault k v d) k' =
     (if k' = k then (case dict_get d k of None \<Rightarrow> Some v | Some x \<Rightarrow> Some x) else dict_get d k')"
  by (auto simp: dict_get_def setdefault_def map_add_def split: option.splits)

lemma normalize_invoice_fields_Inr:
  assumes "normalize_invoice_fields lib raw fid = Inr out"
  obtains items lis v_vendor v_number v_idate v_ddate v_currency v_total v_tax v_terms where
    "iterate (case dict_get (invoice_defaults raw fid) ''line_items'' of None \<Rightarrow> JArr [] | Some j \<Rightarrow> j) = Inr items"
    "new_line_items lib items = Inr lis"
    "required (str_field lib) (dict_get (invoice_defaults raw fid) ''vendor'') = Some v_vendor"
    "required (str_field lib) (dict_get (invoice_defaults raw fid) ''invoice_number'') = Some v_number"
    "optional_datetime (datetime_field lib)
       (map_option parse_date_value (dict_get (invoice_defaults raw fid) ''invoice_date'')) = Some v_idate"
    "optional_datetime (datetime_field lib)
       (map_option parse_date_value (dict_get (invoice_defaults raw fid) ''due_date'')) = Some v_ddate"
    "optional (str_field lib) (dict_get (invoice_defaults raw fid) ''currency'') = Some v_currency"
    "required (float_field lib) (dict_get (invoice_defaults raw fid) ''total'') = Some v_total"
    "optional (float_field lib) (dict_get (invoice_defaults raw fid) ''tax'') = Some v_tax"
    "optional (str_field lib) (dict_get (invoice_defaults raw fid) ''payment_terms'') = Some v_terms"
    "out = [(''vendor'', JStr v_vendor), (''invoice_number'', JStr v_number)]
           @ opt_entry ''invoice_date'' JStr (map_option datetime_isoformat v_idate)
           @ opt_entry ''due_date'' JStr (map_option datetime_isoformat v_ddate)
           @ opt_entry ''currency'' JStr v_currency
           @ [(''total'', JNum v_total)]
           @ opt_entry ''tax'' JNum v_tax
           @ opt_entry ''payment_terms'' JStr v_terms
           @ [(''line_items'', JArr (map line_item_dict lis))]"
  using assms
  unfolding normalize_invoice_fields_def invoice_defaults_def Let_def
  by (auto split: sum.splits option.splits)

lemma first_parse_iff:
  "first_parse fs s = Some d \<longleftrightarrow>
     (\<exists>i < length fs. strptime_date (fs ! i) s = Some d
        \<and> (\<forall>j < i. strptime_date (fs ! j) s = None))"
proof (induction fs)
  case Nil
  then show ?case by simp
next
  case (Cons f fs)
  show ?case
  proof (cases "strptime_date f s")
    case (Some d')
    have "(\<exists>i < length (f # fs). strptime_date ((f # fs) ! i) s = Some d
        \<and> (\<forall>j < i. strptime_date ((f # fs) ! j) s = None)) \<longleftrightarrow> d' = d"
    proof
      assume "\<exists>i < length (f # fs). strptime_date ((f # fs) ! i) s = Some d
        \<and> (\<forall>j < i. strptime_date ((f # fs) ! j) s = None)"
      then obtain i where i: "strptime_date ((f # fs) ! i) s = Some d"
          "\<forall>j < i. strptime_date ((f # fs) ! j) s = None"
        by blast
      show "d' = d"
      proof (cases i)
        case 0
        with i(1) Some show ?thesis by simp
      next
        case (Suc k)
        with i(2) have "strptime_date ((f # fs) ! 0) s = None" by blast
        with Some show ?thesis by simp
      qed
    next
      assume "d' = d"
      with Some have "strptime_date ((f # fs) ! 0) s = Some d
          \<and> (\<forall>j < 0. strptime_date ((f # fs) ! j) s = None)"
        by simp
      then show "\<exists>i < length (f # fs). strptime_date ((f # fs) ! i) s = Some d
        \<and> (\<forall>j < i. strptime_date ((f # fs) ! j) s = None)"
        by (intro exI [of _ 0]) simp
    qed
    with Some show ?thesis by simp
  next
    case None
    have "(\<exists>i < length (f # fs). strptime_date ((f # fs) ! i) s = Some d
        \<and> (\<forall>j < i. strptime_date ((f # fs) ! j) s = None))
      \<longleftrightarrow> (\<exists>i < length fs. strptime_date (fs ! i) s = Some d
        \<and> (\<forall>j < i. strptime_date (fs ! j) s = None))"
    proof
      assume "\<exists>i < length (f # fs). strptime_date ((f # fs) ! i) s = Some d
        \<and> (\<forall>j < i. strptime_date ((f # fs) ! j) s = None)"
      then obtain i where i: "i < length (f # fs)" "strptime_date ((f # fs) ! i) s = Some d"
          "\<forall>j < i. strptime_date ((f # fs) ! j) s = None"
        by blast
      from i(2) None obtain k where k: "i = Suc k" by (cases i) auto
      have "\<forall>j < k. strptime_date (fs ! j) s = None"
      proof (intro allI impI)
        fix j assume "j < k"
        then have "Suc j < i" using k by simp
        with i(3) have "strptime_date ((f # fs) ! Suc j) s = None" by blast
        then show "strptime_date (fs ! j) s = None" by simp
      qed
      with i k show "\<exists>i < length fs. strptime_date (fs ! i) s = Some d
        \<and> (\<forall>j < i. strptime_date (fs ! j) s = None)"
        by auto
    next
      assume "\<exists>i < length fs. strptime_date (fs ! i) s = Some d
        \<and> (\<forall>j < i. strptime_date (fs ! j) s = None)"
      then obtain i where i: "i < length fs" "strptime_date (fs ! i) s = Some d"
          "\<forall>j < i. strptime_date (fs ! j) s = None"
        by blast
      have "\<forall>j < Suc i. strptime_date ((f # fs) ! j) s = None"
      proof (intro allI impI)
        fix j assume "j < Suc i"
        then show "strptime_date ((f # fs) ! j) s = None"
          using None i(3) by (cases j) auto
      qed
      with i show "\<exists>i < length (f # fs). strptime_date ((f # fs) ! i) s = Some d
        \<and> (\<forall>j < i. strptime_date ((f # fs) ! j) s = None)"
        by (intro exI [of _ "Suc i"]) simp
    qed
    with None Cons.IH show ?thesis by simp
  qed
qed

lemma dict_get_defaults_other:
  "k \<notin> {''vendor'', ''invoice_number'', ''total''} \<Longrightarrow>
     dict_get (invoice_defaults raw fid) k = dict_get raw k"
  by (simp add: invoice_defaults_def dict_get_setdefault)

lemma dict_get_out:
  "dict_get ((''vendor'', JStr a) # (''invoice_number'', JStr b)
           # opt_entry ''invoice_date'' JStr c
           @ opt_entry ''due_date'' JStr d
           @ opt_entry ''currency'' JStr e
           @ (''total'', JNum t) # rest) k =
     (if k = ''vendor'' then Some (JStr a)
      else if k = ''invoice_number'' then Some (JStr b)
      else if k = ''invoice_date'' \<and> c \<noteq> None then map_option JStr c
      else if k = ''due_date'' \<and> d \<noteq> None then map_option JStr d
      else if k = ''currency'' \<and> e \<noteq> None then map_option JStr e
      else if k = ''total'' then Some (JNum t)
      else dict_get rest k)"
  by (auto simp: dict_get_def opt_entry_def map_add_def split: option.splits)

lemma optional_datetime_Some:
  "optional_datetime v (Some (FromJson (JStr s))) = Some x \<Longrightarrow>
     \<exists>t. v (FromJson (JStr s)) = Some t \<and> x = Some t"
  by (auto simp: optional_datetime_def)

lemma optional_datetime_Date:
  "optional_datetime v (Some (DateObject d)) = Some x \<Longrightarrow>
     \<exists>t. v (DateObject d) = Some t \<and> x = Some t"
  by (auto simp: optional_datetime_def)

lemma parse_date_value_unparsed:
  "first_parse date_formats (py_strip v) = None \<Longrightarrow> parse_date_value (JStr v) = FromJson (JStr v)"
  by (simp add: parse_date_value_def)

lemma first_parse_empty: "first_parse fs [] = None"
  by (induction fs) (auto simp: strptime_date_def split_at_def split: date_format.splits)

lemma parse_date_value_parsed:
  "first_parse date_formats (py_strip v) = Some d \<Longrightarrow> parse_date_value (JStr v) = DateObject d"
  using first_parse_empty [of date_formats]
  by (cases "py_strip v = []") (auto simp: parse_date_value_def)

lemma unparsed_date_outcome:
  assumes k: "k \<in> {''invoice_date'', ''due_date''}"
    and raw: "dict_get raw k = Some (JStr v)"
    and np: "first_parse date_formats (py_strip v) = None"
    and out: "normalize_invoice_fields lib raw fid = Inr out"
  shows "\<exists>t. datetime_field lib (FromJson (JStr v)) = Some t
            \<and> dict_get out k = Some (JStr (datetime_isoformat t))"
proof -
  from k have other: "k \<notin> {''vendor'', ''invoice_number'', ''total''}" by auto
  have slot: "map_option parse_date_value (dict_get (invoice_defaults raw fid) k)
      = Some (FromJson (JStr v))"
    using raw np by (simp add: dict_get_defaults_other [OF other] parse_date_value_unparsed)
  from out show ?thesis
  proof (rule normalize_invoice_fields_Inr)
    fix items lis v_vendor v_number v_idate v_ddate v_currency v_total v_tax v_terms
    assume i: "optional_datetime (datetime_field lib)
       (map_option parse_date_value (dict_get (invoice_defaults raw fid) ''invoice_date'')) = Some v_idate"
      and d: "optional_datetime (datetime_field lib)
       (map_option parse_date_value (dict_get (invoice_defaults raw fid) ''due_date'')) = Some v_ddate"
      and o: "out = [(''vendor'', JStr v_vendor), (''invoice_number'', JStr v_number)]
           @ opt_entry ''invoice_date'' JStr (map_option datetime_isoformat v_idate)
           @ opt_entry ''due_date'' JStr (map_option datetime_isoformat v_ddate)
           @ opt_entry ''currency'' JStr v_currency
           @ [(''total'', JNum v_total)]
           @ opt_entry ''tax'' JNum v_tax
           @ opt_entry ''payment_terms'' JStr v_terms
           @ [(''line_items'', JArr (map line_item_dict lis))]"
    show ?thesis
    proof (cases "k = ''invoice_date''")
      case True
      with slot i obtain t where "datetime_field lib (FromJson (JStr v)) = Some t" "v_idate = Some t"
        using optional_datetime_Some by fastforce
      with True o show ?thesis by (simp add: dict_get_out)
    next
      case False
      with k have kd: "k = ''due_date''" by simp
      with slot d obtain t where "datetime_field lib (FromJson (JStr v)) = Some t" "v_ddate = Some t"
        using optional_datetime_Some by fastforce
      with kd o show ?thesis by (simp add: dict_get_out)
    qed
  qed
qed

definition validate_invoice :: "schema_lib \<Rightarrow> (string \<Rightarrow> json option) \<Rightarrow> py_error + py_dict" where
  "validate_invoice lib get =
     (case iterate (case get ''line_items'' of None \<Rightarrow> JArr [] | Some j \<Rightarrow> j) of
        Inl e \<Rightarrow> Inl e
      | Inr items \<Rightarrow>
          (case new_line_items lib items of
             Inl e \<Rightarrow> Inl e
           | Inr normalized_items \<Rightarrow>
               (case (required (str_field lib) (get ''vendor''),
                      required (str_field lib) (get ''invoice_number''),
                      optional_datetime (datetime_field lib)
                        (map_option parse_date_value (get ''invoice_date'')),
                      optional_datetime (datetime_field lib)
                        (map_option parse_date_value (get ''due_date'')),
                      optional (str_field lib) (get ''currency''),
                      required (float_field lib) (get ''total''),
                      optional (float_field lib) (get ''tax''),
                      optional (str_field lib) (get ''payment_terms'')) of
                  (Some v_vendor, Some v_number, Some v_idate, Some v_ddate,
                   Some v_currency, Some v_total, Some v_tax, Some v_terms) \<Rightarrow>
                    Inr ([(''vendor'', JStr v_vendor), (''invoice_number'', JStr v_number)]
                         @ opt_entry ''invoice_date'' JStr (map_option datetime_isoformat v_idate)
                         @ opt_entry ''due_date'' JStr (map_option datetime_isoformat v_ddate)
                         @ opt_entry ''currency'' JStr v_currency
                         @ [(''total'', JNum v_total)]
                         @ opt_entry ''tax'' JNum v_tax
                         @ opt_entry ''payment_terms'' JStr v_terms
                         @ [(''line_items'', JArr (map line_item_dict normalized_items))])
                | _ \<Rightarrow> Inl ValidationError)))"

lemma normalize_as_validate:
  "normalize_invoice_fields lib raw fid = validate_invoice lib (dict_get (invoice_defaults raw fid))"
  by (simp add: normalize_invoice_fields_def validate_invoice_def invoice_defaults_def Let_def)

lemma validate_invoice_cong:
  assumes "\<And>k. k \<noteq> ''invoice_date'' \<Longrightarrow> g k = g' k"
    and "map_option parse_date_value (g ''invoice_date'') = map_option parse_date_value (g' ''invoice_date'')"
  shows "validate_invoice lib g = validate_invoice lib g'"
proof -
  have e: "g ''line_items'' = g' ''line_items''" "g ''vendor'' = g' ''vendor''"
    "g ''invoice_number'' = g' ''invoice_number''" "g ''due_date'' = g' ''due_date''"
    "g ''currency'' = g' ''currency''" "g ''total'' = g' ''total''" "g ''tax'' = g' ''tax''"
    "g ''payment_terms'' = g' ''payment_terms''"
    by (simp_all add: assms(1))
  show ?thesis
    unfolding validate_invoice_def e assms(2) ..
qed

lemma dict_get_defaults_Cons:
  "dict_get (invoice_defaults ((''invoice_date'', x) # raw) fid) k =
     (if k = ''invoice_date'' then Some x else dict_get (invoice_defaults raw fid) k)"
  by (simp add: invoice_defaults_def dict_get_setdefault) (simp add: dict_get_def)

lemma same_date_same_result:
  assumes "parse_date_value x = parse_date_value y"
  shows "normalize_invoice_fields lib ((''invoice_date'', x) # raw) fid
         = normalize_invoice_fields lib ((''invoice_date'', y) # raw) fid"
  unfolding normalize_as_validate
  by (rule validate_invoice_cong) (simp_all add: dict_get_defaults_Cons assms)

lemma scenario_dates:
  "parse_date_value (JStr ''01/05/2024'') = DateObject jan5"
  "parse_date_value (JStr ''2024-01-05'') = DateObject jan5"
  "parse_date_value (JStr ''2024/01/05'') = DateObject jan5"
  by code_simp+

lemma parsed_date_outcome:
  assumes p: "parse_date_value x = DateObject d"
    and out: "normalize_invoice_fields lib ((''invoice_date'', x) # raw) fid = Inr out"
  shows "\<exists>t. datetime_field lib (DateObject d) = Some t
            \<and> dict_get out ''invoice_date'' = Some (JStr (datetime_isoformat t))"
proof -
  have slot: "map_option parse_date_value
      (dict_get (invoice_defaults ((''invoice_date'', x) # raw) fid) ''invoice_date'') = Some (DateObject d)"
    using p by (simp add: dict_get_defaults_Cons)
  from out show ?thesis
  proof (rule normalize_invoice_fields_Inr)
    fix items lis v_vendor v_number v_idate v_ddate v_currency v_total v_tax v_terms
    assume i: "optional_datetime (datetime_field lib)
       (map_option parse_date_value
          (dict_get (invoice_defaults ((''invoice_date'', x) # raw) fid) ''invoice_date'')) = Some v_idate"
      and o: "out = [(''vendor'', JStr v_vendor), (''invoice_number'', JStr v_number)]
           @ opt_entry ''invoice_date'' JStr (map_option datetime_isoformat v_idate)
           @ opt_entry ''due_date'' JStr (map_option datetime_isoformat v_ddate)
           @ opt_entry ''currency'' JStr v_currency
           @ [(''total'', JNum v_total)]
           @ opt_entry ''tax'' JNum v_tax
           @ opt_entry ''payment_terms'' JStr v_terms
           @ [(''line_items'', JArr (map line_item_dict lis))]"
    from slot i obtain t where "datetime_field lib (DateObject d) = Some t" "v_idate = Some t"
      using optional_datetime_Date by fastforce
    with o show ?thesis by (simp add: dict_get_out)
  qed
qed

lemma normalize_receipt_fields_Inr:
  assumes "normalize_receipt_fields lib raw = Inr out"
  shows "\<exists>m t. required (str_field lib)
                 (dict_get (setdefault ''total'' (JNum 0)
                    (setdefault ''merchant'' (JStr ''Unknown Merchant'') raw)) ''merchant'') = Some m
           \<and> required (float_field lib)
                 (dict_get (setdefault ''total'' (JNum 0)
                    (setdefault ''merchant'' (JStr ''Unknown Merchant'') raw)) ''total'') = Some t
           \<and> map_of out ''merchant'' = Some (Json (JStr m))
           \<and> map_of out ''total'' = Some (Json (JNum t))"
  using assms
  unfolding normalize_receipt_fields_def Let_def
  by (auto simp: opt_entry_def map_add_def split: option.splits)

lemma default_total:
  "dict_get raw ''total'' = None \<Longrightarrow>
     dict_get (invoice_defaults raw fid) ''total'' = Some (JNum 0)"
  by (simp add: invoice_defaults_def dict_get_setdefault)

lemma default_invoice_number:
  "dict_get raw ''invoice_number'' = None \<Longrightarrow>
     dict_get (invoice_defaults raw fid) ''invoice_number''
       = Some (JStr (if fid \<noteq> [] then ''INV-'' @ drop (length fid - 6) fid else ''INV-UNKNOWN''))"
  by (simp add: invoice_defaults_def dict_get_setdefault)

lemma default_vendor:
  "dict_get raw ''vendor'' = None \<Longrightarrow>
     dict_get (invoice_defaults raw fid) ''vendor'' = Some (JStr ''Unknown Vendor'')"
  by (simp add: invoice_defaults_def dict_get_setdefault)

lemma normalized_required_keys:
  assumes "normalize_invoice_fields lib raw fid = Inr out"
  shows "\<exists>v n t. required (str_field lib) (dict_get (invoice_defaults raw fid) ''vendor'') = Some v
           \<and> required (str_field lib) (dict_get (invoice_defaults raw fid) ''invoice_number'') = Some n
           \<and> required (float_field lib) (dict_get (invoice_defaults raw fid) ''total'') = Some t
           \<and> dict_get out ''vendor'' = Some (JStr v)
           \<and> dict_get out ''invoice_number'' = Some (JStr n)
           \<and> dict_get out ''total'' = Some (JNum t)"
  using assms
proof (rule normalize_invoice_fields_Inr)
  fix items lis v_vendor v_number v_idate v_ddate v_currency v_total v_tax v_terms
  assume "required (str_field lib) (dict_get (invoice_defaults raw fid) ''vendor'') = Some v_vendor"
    "required (str_field lib) (dict_get (invoice_defaults raw fid) ''invoice_number'') = Some v_number"
    "required (float_field lib) (dict_get (invoice_defaults raw fid) ''total'') = Some v_total"
    "out = [(''vendor'', JStr v_vendor), (''invoice_number'', JStr v_number)]
           @ opt_entry ''invoice_date'' JStr (map_option datetime_isoformat v_idate)
           @ opt_entry ''due_date'' JStr (map_option datetime_isoformat v_ddate)
           @ opt_entry ''currency'' JStr v_currency
           @ [(''total'', JNum v_total)]
           @ opt_entry ''tax'' JNum v_tax
           @ opt_entry ''payment_terms'' JStr v_terms
           @ [(''line_items'', JArr (map line_item_dict lis))]"
  then show ?thesis by (simp add: dict_get_out)
qed

lemma example_lib_native: "keeps_native example_lib"
  by (simp add: keeps_native_def example_lib_def)

text \<open>
  C5, as the code has it. A date string is stripped and tried against the four formats in
  the order MM/DD/YYYY, MM/DD/YY, YYYY-MM-DD, YYYY/MM/DD; the first that parses replaces the
  string by a date. A string that matches none stays in the field as it is and the loop
  raises nothing, but the field is typed \<open>datetime\<close> in \<open>InvoiceFields\<close>: normalisation then
  fails unless the schema library itself reads the string as a datetime, and in that case
  the field holds the ISO text of that datetime.
\<close>

theorem date_strings_parsed_then_validated:
  "(first_parse date_formats s = Some d \<longleftrightarrow>
      (\<exists>i < length date_formats. strptime_date (date_formats ! i) s = Some d
         \<and> (\<forall>j < i. strptime_date (date_formats ! j) s = None)))
   \<and> (first_parse date_formats (py_strip v) = Some d \<longrightarrow> parse_date_value (JStr v) = DateObject d)
   \<and> (first_parse date_formats (py_strip v) = None \<longrightarrow> parse_date_value (JStr v) = FromJson (JStr v))
   \<and> (k \<in> {''invoice_date'', ''due_date''} \<and> dict_get raw k = Some (JStr v)
       \<and> first_parse date_formats (py_strip v) = None \<longrightarrow>
         (datetime_field lib (FromJson (JStr v)) = None \<longrightarrow>
            (\<exists>e. normalize_invoice_fields lib raw fid = Inl e))
         \<and> (\<forall>out. normalize_invoice_fields lib raw fid = Inr out \<longrightarrow>
               (\<exists>t. datetime_field lib (FromJson (JStr v)) = Some t
                  \<and> dict_get out k = Some (JStr (datetime_isoformat t)))))"
proof -
  have last: "(datetime_field lib (FromJson (JStr v)) = None \<longrightarrow>
            (\<exists>e. normalize_invoice_fields lib raw fid = Inl e))
         \<and> (\<forall>out. normalize_invoice_fields lib raw fid = Inr out \<longrightarrow>
               (\<exists>t. datetime_field lib (FromJson (JStr v)) = Some t
                  \<and> dict_get out k = Some (JStr (datetime_isoformat t))))"
    if a: "k \<in> {''invoice_date'', ''due_date''} \<and> dict_get raw k = Some (JStr v)
       \<and> first_parse date_formats (py_strip v) = None"
  proof (cases "normalize_invoice_fields lib raw fid")
    case (Inl e)
    then show ?thesis by simp
  next
    case (Inr out)
    with a unparsed_date_outcome [of k raw v lib fid out] show ?thesis by auto
  qed
  from first_parse_iff [of date_formats s d] parse_date_value_parsed [of v d]
    parse_date_value_unparsed [of v] last
  show ?thesis by blast
qed

theorem date_strings_parsed_then_validated_witness:
  "parse_date_value (JStr '' 1/5/24 '') = DateObject jan5
   \<and> parse_date_value (JStr ''tomorrow'') = FromJson (JStr ''tomorrow'')
   \<and> (\<exists>e. normalize_invoice_fields example_lib (dated_invoice ''tomorrow'') ''doc_1'' = Inl e)
   \<and> (\<exists>t. datetime_field example_lib (FromJson (JStr ''2024-01-05T10:30:00'')) = Some t
          \<and> dict_get [(''vendor'', JStr ''Acme Corp''), (''invoice_number'', JStr ''INV-1024''),
                       (''invoice_date'', JStr ''2024-01-05T10:30:00''), (''total'', JNum 125),
                       (''line_items'',
                        JArr [JObj [(''qty'', JNum 5), (''description'', JStr ''Barrels''),
                                    (''unit_price'', JNum 25), (''amount'', JNum 125)]])]
                ''invoice_date'' = Some (JStr (datetime_isoformat t)))"
proof -
  have a: "first_parse date_formats (py_strip '' 1/5/24 '') = Some jan5"
    by code_simp
  have b: "first_parse date_formats (py_strip ''tomorrow'') = None"
    by code_simp
  have k: "''invoice_date'' \<in> {''invoice_date'', ''due_date''}"
    by simp
  have g: "dict_get (dated_invoice ''tomorrow'') ''invoice_date'' = Some (JStr ''tomorrow'')"
    by (simp add: dated_invoice_def dict_get_def)
  have d: "datetime_field example_lib (FromJson (JStr ''tomorrow'')) = None"
    by code_simp
  have g': "dict_get (dated_invoice ''2024-01-05T10:30:00'') ''invoice_date''
          = Some (JStr ''2024-01-05T10:30:00'')"
    by (simp add: dated_invoice_def dict_get_def)
  have b': "first_parse date_formats (py_strip ''2024-01-05T10:30:00'') = None"
    by code_simp
  have f: "normalize_invoice_fields example_lib (dated_invoice ''2024-01-05T10:30:00'') ''doc_1'' =
      Inr [(''vendor'', JStr ''Acme Corp''), (''invoice_number'', JStr ''INV-1024''),
           (''invoice_date'', JStr ''2024-01-05T10:30:00''), (''total'', JNum 125),
           (''line_items'',
            JArr [JObj [(''qty'', JNum 5), (''description'', JStr ''Barrels''),
                        (''unit_price'', JNum 25), (''amount'', JNum 125)]])]"
    by code_simp
  note t = date_strings_parsed_then_validated
  have 1: "parse_date_value (JStr '' 1/5/24 '') = DateObject jan5"
    by (rule t [THEN conjunct2, THEN conjunct1, THEN mp, OF a])
  have 2: "parse_date_value (JStr ''tomorrow'') = FromJson (JStr ''tomorrow'')"
    by (rule t [THEN conjunct2, THEN conjunct2, THEN conjunct1, THEN mp, OF b])
  have 3: "\<exists>e. normalize_invoice_fields example_lib (dated_invoice ''tomorrow'') ''doc_1'' = Inl e"
    by (rule t [THEN conjunct2, THEN conjunct2, THEN conjunct2, THEN mp,
          OF conjI [OF k conjI [OF g b]], THEN conjunct1, THEN mp, OF d])
  have 4: "\<exists>t. datetime_field example_lib (FromJson (JStr ''2024-01-05T10:30:00'')) = Some t
          \<and> dict_get [(''vendor'', JStr ''Acme Corp''), (''invoice_number'', JStr ''INV-1024''),
                       (''invoice_date'', JStr ''2024-01-05T10:30:00''), (''total'', JNum 125),
                       (''line_items'',
                        JArr [JObj [(''qty'', JNum 5), (''description'', JStr ''Barrels''),
                                    (''unit_price'', JNum 25), (''amount'', JNum 125)]])]
                ''invoice_date'' = Some (JStr (datetime_isoformat t))"
    by (rule t [THEN conjunct2, THEN conjunct2, THEN conjunct2, THEN mp,
          OF conjI [OF k conjI [OF g' b']], THEN conjunct2, THEN spec, THEN mp, OF f])
  from 1 2 3 4 show ?thesis by (intro conjI)
qed

text \<open>A date string that matches no format and is no datetime: a validation error escapes.\<close>

theorem unparseable_date_rejected_counterexample:
  "normalize_invoice_fields example_lib (dated_invoice ''tomorrow'') ''doc_1'' = Inl ValidationError"
  by code_simp

text \<open>
  C7. When normalisation succeeds, the result has a \<open>total\<close> that is a number, and for an
  invoice a \<open>vendor\<close> and an \<open>invoice_number\<close> that are strings. With a library that returns
  the strings and numbers it is given, an absent \<open>total\<close> becomes 0, an absent
  \<open>invoice_number\<close> becomes \<open>INV-\<close> followed by the last six characters of the document id
  (\<open>INV-UNKNOWN\<close> for an empty id), and an absent \<open>vendor\<close> becomes \<open>Unknown Vendor\<close>.
\<close>

theorem normalized_total_never_null:
  "(normalize_invoice_fields lib raw fid = Inr out \<longrightarrow>
      (\<exists>t. dict_get out ''total'' = Some (JNum t))
      \<and> (\<exists>s. dict_get out ''vendor'' = Some (JStr s))
      \<and> (\<exists>s. dict_get out ''invoice_number'' = Some (JStr s)))
   \<and> (normalize_receipt_fields lib raw = Inr rout \<longrightarrow>
      (\<exists>t. map_of rout ''total'' = Some (Json (JNum t)))
      \<and> (\<exists>s. map_of rout ''merchant'' = Some (Json (JStr s))))
   \<and> (keeps_native lib \<and> dict_get raw ''total'' = None
        \<and> normalize_invoice_fields lib raw fid = Inr out \<longrightarrow>
      dict_get out ''total'' = Some (JNum 0))
   \<and> (keeps_native lib \<and> dict_get raw ''total'' = None
        \<and> normalize_receipt_fields lib raw = Inr rout \<longrightarrow>
      map_of rout ''total'' = Some (Json (JNum 0)))
   \<and> (keeps_native lib \<and> dict_get raw ''invoice_number'' = None
        \<and> normalize_invoice_fields lib raw fid = Inr out \<longrightarrow>
      dict_get out ''invoice_number''
        = Some (JStr (if fid \<noteq> [] then ''INV-'' @ drop (length fid - 6) fid else ''INV-UNKNOWN'')))
   \<and> (keeps_native lib \<and> dict_get raw ''vendor'' = None
        \<and> normalize_invoice_fields lib raw fid = Inr out \<longrightarrow>
      dict_get out ''vendor'' = Some (JStr ''Unknown Vendor''))"
proof (intro conjI impI)
  assume "normalize_invoice_fields lib raw fid = Inr out"
  from normalized_required_keys [OF this]
  show "\<exists>t. dict_get out ''total'' = Some (JNum t)"
    "\<exists>s. dict_get out ''vendor'' = Some (JStr s)"
    "\<exists>s. dict_get out ''invoice_number'' = Some (JStr s)"
    by blast+
next
  assume "normalize_receipt_fields lib raw = Inr rout"
  from normalize_receipt_fields_Inr [OF this]
  show "\<exists>t. map_of rout ''total'' = Some (Json (JNum t))"
    "\<exists>s. map_of rout ''merchant'' = Some (Json (JStr s))"
    by blast+
next
  assume a: "keeps_native lib \<and> dict_get raw ''total'' = None
        \<and> normalize_invoice_fields lib raw fid = Inr out"
  with normalized_required_keys [of lib raw fid out] default_total [of raw fid]
  show "dict_get out ''total'' = Some (JNum 0)"
    by (auto simp: required_def keeps_native_def)
next
  assume a: "keeps_native lib \<and> dict_get raw ''total'' = None
        \<and> normalize_receipt_fields lib raw = Inr rout"
  with normalize_receipt_fields_Inr [of lib raw rout]
  show "map_of rout ''total'' = Some (Json (JNum 0))"
    by (auto simp: required_def keeps_native_def dict_get_setdefault split: if_splits)
next
  assume a: "keeps_native lib \<and> dict_get raw ''invoice_number'' = None
        \<and> normalize_invoice_fields lib raw fid = Inr out"
  with normalized_required_keys [of lib raw fid out] default_invoice_number [of raw fid]
  show "dict_get out ''invoice_number''
        = Some (JStr (if fid \<noteq> [] then ''INV-'' @ drop (length fid - 6) fid else ''INV-UNKNOWN''))"
    by (auto simp: required_def keeps_native_def)
next
  assume a: "keeps_native lib \<and> dict_get raw ''vendor'' = None
        \<and> normalize_invoice_fields lib raw fid = Inr out"
  with normalized_required_keys [of lib raw fid out] default_vendor [of raw fid]
  show "dict_get out ''vendor'' = Some (JStr ''Unknown Vendor'')"
    by (auto simp: required_def keeps_native_def)
qed

theorem normalized_total_never_null_witness:
  "dict_get [(''vendor'', JStr ''Unknown Vendor''), (''invoice_number'', JStr ''INV-6789ab''),
             (''total'', JNum 0), (''line_items'', JArr [])] ''total'' = Some (JNum 0)
   \<and> dict_get [(''vendor'', JStr ''Unknown Vendor''), (''invoice_number'', JStr ''INV-6789ab''),
               (''total'', JNum 0), (''line_items'', JArr [])] ''invoice_number''
       = Some (JStr (if ''doc_0123456789ab'' \<noteq> []
                     then ''INV-'' @ drop (length ''doc_0123456789ab'' - 6) ''doc_0123456789ab''
                     else ''INV-UNKNOWN''))
   \<and> map_of [(''merchant'', Json (JStr ''Unknown Merchant'')), (''total'', Json (JNum 0))] ''total''
       = Some (Json (JNum 0))"
proof -
  have n: "normalize_invoice_fields example_lib [] ''doc_0123456789ab'' =
      Inr [(''vendor'', JStr ''Unknown Vendor''), (''invoice_number'', JStr ''INV-6789ab''),
           (''total'', JNum 0), (''line_items'', JArr [])]"
    by code_simp
  have r: "normalize_receipt_fields example_lib [] =
      Inr [(''merchant'', Json (JStr ''Unknown Merchant'')), (''total'', Json (JNum 0))]"
    by code_simp
  have g: "dict_get [] ''total'' = None" "dict_get [] ''invoice_number'' = None"
    by (simp_all add: dict_get_def)
  note t = normalized_total_never_null [where lib = example_lib and raw = "[]"
      and fid = "''doc_0123456789ab''"]
  have 1: "dict_get [(''vendor'', JStr ''Unknown Vendor''), (''invoice_number'', JStr ''INV-6789ab''),
             (''total'', JNum 0), (''line_items'', JArr [])] ''total'' = Some (JNum 0)"
    by (rule t [THEN conjunct2, THEN conjunct2, THEN conjunct1, THEN mp,
          OF conjI [OF example_lib_native conjI [OF g(1) n]]])
  have 2: "dict_get [(''vendor'', JStr ''Unknown Vendor''), (''invoice_number'', JStr ''INV-6789ab''),
               (''total'', JNum 0), (''line_items'', JArr [])] ''invoice_number''
       = Some (JStr (if ''doc_0123456789ab'' \<noteq> []
                     then ''INV-'' @ drop (length ''doc_0123456789ab'' - 6) ''doc_0123456789ab''
                     else ''INV-UNKNOWN''))"
    by (rule t [THEN conjunct2, THEN conjunct2, THEN conjunct2, THEN conjunct2, THEN conjunct1,
          THEN mp, OF conjI [OF example_lib_native conjI [OF g(2) n]]])
  have 3: "map_of [(''merchant'', Json (JStr ''Unknown Merchant'')), (''total'', Json (JNum 0))] ''total''
       = Some (Json (JNum 0))"
    by (rule t [THEN conjunct2, THEN conjunct2, THEN conjunct2, THEN conjunct1, THEN mp,
          OF conjI [OF example_lib_native conjI [OF g(1) r]]])
  from 1 2 3 show ?thesis by (intro conjI)
qed

section \<open>Vision gateway, classifier and extraction (backend/business_hub/ai.py)\<close>

subsection \<open>\<open>_chat_json_with_images\<close>\<close>

text \<open>
  The OpenAI service is not part of the repository: \<open>upstream\<close> gives, for the keyword
  arguments of one \<open>client.chat.completions.create\<close> call, either the content of the first
  choice or the exception the client raises, with its \<open>message\<close> and \<open>body\<close>. The
  environment also holds what the module reads from the process environment (the API key,
  the two model names) and the prompts, \<open>INVOICE_PROMPT\<close> and \<open>RECEIPT_PROMPT\<close> standing for
  the prompts with the schema filled in. \<open>float_of_text\<close> is what \<open>float\<close> makes of a string.
  Images are the base64 strings sent. Every call returns its result together with the
  requests sent upstream, in order. Logging is left out.
\<close>

definition FALLBACK_MODEL :: string where
  "FALLBACK_MODEL = ''gpt-4o-mini''"

record request =
  req_model :: string
  req_temperature :: "rat option"
  req_system :: string
  req_user :: string
  req_images :: "string list"

datatype api_fault =
    BadRequestError
  | AuthenticationError
  | RateLimitError
  | APIConnectionError
  | OtherAPIError

datatype completion = Parsed py_dict | NotJson | NoContent

datatype upstream_result =
    Completed completion
  | Raised api_fault (fault_message: string) (fault_body: "string option")

record environment =
  api_key :: "string option"
  upstream :: "request \<Rightarrow> upstream_result"
  float_of_text :: "string \<Rightarrow> rat option"
  CLASSIFIER_MODEL :: string
  EXTRACTION_MODEL :: string
  CLASSIFIER_PROMPT :: string
  INVOICE_PROMPT :: string
  RECEIPT_PROMPT :: string

definition build_request :: "string \<Rightarrow> string \<Rightarrow> string list \<Rightarrow> string \<Rightarrow> request" where
  \<comment> \<open>the \<open>kwargs\<close> of \<open>_once(use_model)\<close>\<close>
  "build_request system_prompt user_prompt images use_model =
     \<lparr>req_model = use_model,
      req_temperature = (if take 2 use_model = ''o3'' then None else Some (2 / 10)),
      req_system = system_prompt @ '' Always respond with a valid JSON object and nothing else.'',
      req_user = user_prompt @ [CHR 0x0A, CHR 0x0A] @ ''Return JSON only.'',
      req_images = images\<rparr>"

definition loaded :: "completion \<Rightarrow> py_error + py_dict" where
  \<comment> \<open>\<open>json.loads(raw)\<close>: the object, a \<open>JSONDecodeError\<close> (reported as the second
      \<open>RuntimeError\<close>), or the \<open>TypeError\<close> of \<open>json.loads(None)\<close>, which no handler catches\<close>
  "loaded c = (case c of Parsed d \<Rightarrow> Inr d | NotJson \<Rightarrow> Inl InvalidJson | NoContent \<Rightarrow> Inl TypeError)"

definition chat_json_with_images ::
  "environment \<Rightarrow> string \<Rightarrow> string \<Rightarrow> string list \<Rightarrow> string \<Rightarrow> (py_error + py_dict) \<times> request list" where
  "chat_json_with_images env system_prompt user_prompt images model =
     (if (case api_key env of None \<Rightarrow> True | Some k \<Rightarrow> k = []) then (Inl ApiKeyNotSet, [])
      else
        let r1 = build_request system_prompt user_prompt images model
        in (case upstream env r1 of
              Completed c \<Rightarrow> (loaded c, [r1])
            | Raised fault msg body \<Rightarrow>
                if fault = BadRequestError \<and> model \<noteq> FALLBACK_MODEL
                then
                  let r2 = build_request system_prompt user_prompt images FALLBACK_MODEL
                  in (case upstream env r2 of
                        Completed c \<Rightarrow> (loaded c, [r1, r2])
                      | Raised fault2 msg2 body2 \<Rightarrow>
                          (Inl (VisionCallFailed model msg2 body2), [r1, r2]))
                else (Inl (VisionCallFailed model msg body), [r1])))"

subsection \<open>The classifier and the two field extractors\<close>

record metadata =
  meta_model :: string
  meta_payload :: py_dict

definition extract_invoice_fields_vision ::
  "environment \<Rightarrow> string list \<Rightarrow> (py_error + py_dict \<times> metadata) \<times> request list" where
  "extract_invoice_fields_vision env images =
     (case chat_json_with_images env
             ''You are an expert at reading invoices from images into strict JSON.''
             (INVOICE_PROMPT env) images (EXTRACTION_MODEL env) of
        (Inl e, calls) \<Rightarrow> (Inl e, calls)
      | (Inr payload, calls) \<Rightarrow>
          (Inr (payload, \<lparr>meta_model = EXTRACTION_MODEL env, meta_payload = payload\<rparr>), calls))"

definition extract_receipt_fields_vision ::
  "environment \<Rightarrow> string list \<Rightarrow> (py_error + py_dict \<times> metadata) \<times> request list" where
  "extract_receipt_fields_vision env images =
     (case chat_json_with_images env
             ''You are an expert at reading receipts from images into strict JSON.''
             (RECEIPT_PROMPT env) images (EXTRACTION_MODEL env) of
        (Inl e, calls) \<Rightarrow> (Inl e, calls)
      | (Inr payload, calls) \<Rightarrow>
          (Inr (payload, \<lparr>meta_model = EXTRACTION_MODEL env, meta_payload = payload\<rparr>), calls))"

datatype document_type = INVOICE | RECEIPT | PURCHASE_ORDER | EMAIL | OTHER

definition DOC_TYPE_MAP :: "(string \<times> document_type) list" where
  "DOC_TYPE_MAP =
     [(''invoice_ar'', INVOICE), (''vendor_bill_ap'', INVOICE), (''receipt'', RECEIPT),
      (''estimate'', PURCHASE_ORDER), (''purchase_order'', PURCHASE_ORDER), (''email'', EMAIL),
      (''shipping_record'', OTHER), (''other'', OTHER)]"

definition doc_type_of :: "json \<Rightarrow> py_error + document_type" where
  \<comment> \<open>\<open>DOC_TYPE_MAP.get(kind, DocumentType.OTHER)\<close>: a list or a dict cannot be hashed\<close>
  "doc_type_of kind =
     (case kind of
        JStr s \<Rightarrow> Inr (case map_of DOC_TYPE_MAP s of None \<Rightarrow> OTHER | Some t \<Rightarrow> t)
      | JArr xs \<Rightarrow> Inl TypeError
      | JObj kv \<Rightarrow> Inl TypeError
      | _ \<Rightarrow> Inr OTHER)"

definition py_float :: "environment \<Rightarrow> json \<Rightarrow> py_error + rat" where
  \<comment> \<open>the builtin \<open>float(x)\<close>\<close>
  "py_float env x =
     (case x of
        JNum r \<Rightarrow> Inr r
      | JBool b \<Rightarrow> Inr (if b then 1 else 0)
      | JStr s \<Rightarrow> (case float_of_text env s of None \<Rightarrow> Inl ValueError | Some r \<Rightarrow> Inr r)
      | _ \<Rightarrow> Inl TypeError)"

definition classify_document_vision ::
  "environment \<Rightarrow> string list \<Rightarrow> (py_error + document_type \<times> rat \<times> metadata) \<times> request list" where
  "classify_document_vision env images =
     (case chat_json_with_images env (CLASSIFIER_PROMPT env)
             ''Classify the document shown in the following images.'' images (CLASSIFIER_MODEL env) of
        (Inl e, calls) \<Rightarrow> (Inl e, calls)
      | (Inr payload, calls) \<Rightarrow>
          (case doc_type_of (case dict_get payload ''type'' of None \<Rightarrow> JStr ''other'' | Some k \<Rightarrow> k) of
             Inl e \<Rightarrow> (Inl e, calls)
           | Inr doc_type \<Rightarrow>
               (case py_float env (case dict_get payload ''confidence'' of None \<Rightarrow> JNum 0 | Some c \<Rightarrow> c) of
                  Inl e \<Rightarrow> (Inl e, calls)
                | Inr confidence \<Rightarrow>
                    (Inr (doc_type, confidence,
                          \<lparr>meta_model = CLASSIFIER_MODEL env, meta_payload = payload\<rparr>), calls))))"

definition classifier_payload :: "environment \<Rightarrow> string list \<Rightarrow> py_error + py_dict" where
  \<comment> \<open>the \<open>payload\<close> of \<open>_classify_document_vision\<close>\<close>
  "classifier_payload env images =
     fst (chat_json_with_images env (CLASSIFIER_PROMPT env)
            ''Classify the document shown in the following images.'' images (CLASSIFIER_MODEL env))"

subsection \<open>\<open>run_extraction\<close>\<close>

text \<open>
  \<open>run_extraction\<close> is given the page images already rendered (none when the document is
  no PDF or rendering failed). The suggestion string and \<open>raw_json\<close> play no part in the
  fields, the model name or the confidence of the extraction and are left out, as are the
  generated ids and the creation time. The extraction returned is the one persisted.
\<close>

record extraction =
  ext_doc_id :: string
  ext_model :: string
  ext_schema :: string
  ext_fields :: "(string \<times> pyval) list"
  ext_confidence :: rat

definition json_truthy :: "json \<Rightarrow> bool" where
  "json_truthy j =
     (case j of
        JNull \<Rightarrow> False
      | JBool b \<Rightarrow> b
      | JNum r \<Rightarrow> r \<noteq> 0
      | JStr s \<Rightarrow> s \<noteq> []
      | JArr xs \<Rightarrow> xs \<noteq> []
      | JObj kv \<Rightarrow> kv \<noteq> [])"

definition dict_set :: "string \<Rightarrow> 'v \<Rightarrow> (string \<times> 'v) list \<Rightarrow> (string \<times> 'v) list" where
  \<comment> \<open>\<open>d[k] = v\<close>\<close>
  "dict_set k v d =
     (if map_of d k = None then d @ [(k, v)]
      else map (\<lambda>(k', v'). if k' = k then (k', v) else (k', v')) d)"

definition SUMMARY_PROMPT :: string where
  "SUMMARY_PROMPT =
     ''Return JSON with {'' @ [CHR 0x22] @ ''summary'' @ [CHR 0x22] @ '': '' @ [CHR 0x22] @ ''...''
       @ [CHR 0x22] @ ''} capturing totals, parties, dates if visible.''"

definition is_json :: "pyval \<Rightarrow> bool" where
  "is_json v = (case v of Json j \<Rightarrow> True | DatetimeObject t \<Rightarrow> False)"

definition upsert_extraction :: "extraction \<Rightarrow> py_error + extraction" where
  \<comment> \<open>\<open>json.dumps(extraction.fields)\<close> raises on a value that is not JSON; the row written is
      the extraction itself\<close>
  "upsert_extraction ex = (if list_all (\<lambda>(k, v). is_json v) (ext_fields ex) then Inr ex else Inl TypeError)"

definition as_fields :: "py_dict \<Rightarrow> (string \<times> pyval) list" where
  "as_fields d = map (\<lambda>(k, v). (k, Json v)) d"

definition extract_fields ::
  "schema_lib \<Rightarrow> environment \<Rightarrow> document_type \<Rightarrow> string \<Rightarrow> string list
     \<Rightarrow> py_error + (string \<times> pyval) list \<times> string \<times> string" where
  \<comment> \<open>the three branches on \<open>doc_type\<close>: the fields, \<open>model_used\<close> and \<open>schema\<close>\<close>
  "extract_fields lib env doc_type document_id images =
     (if doc_type = INVOICE
      then (case fst (extract_invoice_fields_vision env images) of
              Inl e \<Rightarrow> Inl e
            | Inr (invoice_payload, meta) \<Rightarrow>
                (case normalize_invoice_fields lib invoice_payload document_id of
                   Inl e \<Rightarrow> Inl e
                 | Inr flds \<Rightarrow> Inr (as_fields flds, meta_model meta, ''invoice_v1'')))
      else if doc_type = RECEIPT
      then (case fst (extract_receipt_fields_vision env images) of
              Inl e \<Rightarrow> Inl e
            | Inr (receipt_payload, meta) \<Rightarrow>
                (case normalize_receipt_fields lib receipt_payload of
                   Inl e \<Rightarrow> Inl e
                 | Inr flds \<Rightarrow> Inr (flds, meta_model meta, ''receipt_v1'')))
      else (case fst (chat_json_with_images env
                        ''Summarize the main contents of the document as JSON.''
                        SUMMARY_PROMPT images (EXTRACTION_MODEL env)) of
              Inl e \<Rightarrow> Inl e
            | Inr payload \<Rightarrow>
                Inr ([(''summary'',
                       Json (case dict_get payload ''summary'' of None \<Rightarrow> JStr [] | Some s \<Rightarrow> s))],
                     EXTRACTION_MODEL env, ''generic_v1'')))"

definition run_extraction ::
  "schema_lib \<Rightarrow> environment \<Rightarrow> string \<Rightarrow> string list \<Rightarrow> string \<Rightarrow> py_error + extraction" where
  "run_extraction lib env document_id images text =
     (if images \<noteq> []
      then (case fst (classify_document_vision env images) of
              Inl e \<Rightarrow> Inl e
            | Inr (doc_type, confidence, classifier_meta) \<Rightarrow>
                (case extract_fields lib env doc_type document_id images of
                   Inl e \<Rightarrow> Inl e
                 | Inr (flds, model_used, schema) \<Rightarrow>
                     upsert_extraction
                       \<lparr>ext_doc_id = document_id, ext_model = model_used, ext_schema = schema,
                        ext_fields =
                          (case dict_get (meta_payload classifier_meta) ''direction'' of
                             None \<Rightarrow> flds
                           | Some direction \<Rightarrow>
                               if json_truthy direction then dict_set ''direction'' (Json direction) flds
                               else flds),
                        ext_confidence = confidence\<rparr>))
      else upsert_extraction
             \<lparr>ext_doc_id = document_id, ext_model = EXTRACTION_MODEL env, ext_schema = ''generic_v1'',
              ext_fields = [(''summary'', Json (JStr (take 500 text)))],
              ext_confidence = 0\<rparr>)"

definition key_set :: "environment \<Rightarrow> bool" where
  "key_set env = (case api_key env of None \<Rightarrow> False | Some k \<Rightarrow> k \<noteq> [])"

subsection \<open>Example environments\<close>

definition acme_payload :: py_dict where
  "acme_payload = [(''vendor'', JStr ''Acme Corp''), (''invoice_number'', JStr ''INV-1024''), (''total'', JNum 125)]"

definition rejecting_env :: environment where
  \<comment> \<open>\<open>o3\<close> is not enabled for vision; the fallback model answers\<close>
  "rejecting_env =
     \<lparr>api_key = Some ''sk-test'',
      upstream = (\<lambda>req. if req_model req = ''o3''
                        then Raised BadRequestError ''model does not accept images'' None
                        else Completed (Parsed acme_payload)),
      float_of_text = (\<lambda>s. None),
      CLASSIFIER_MODEL = ''o3'', EXTRACTION_MODEL = ''o3'',
      CLASSIFIER_PROMPT = ''You classify business documents.'',
      INVOICE_PROMPT = ''Extract an invoice into JSON.'',
      RECEIPT_PROMPT = ''Extract a purchase receipt into JSON.''\<rparr>"

definition unavailable_env :: environment where
  \<comment> \<open>\<open>o3\<close> is not enabled for vision and the fallback model is over quota\<close>
  "unavailable_env =
     \<lparr>api_key = Some ''sk-test'',
      upstream = (\<lambda>req. if req_model req = ''o3''
                        then Raised BadRequestError ''model does not accept images'' None
                        else Raised RateLimitError ''quota exceeded'' (Some ''insufficient_quota'')),
      float_of_text = (\<lambda>s. None),
      CLASSIFIER_MODEL = ''o3'', EXTRACTION_MODEL = ''o3'',
      CLASSIFIER_PROMPT = ''You classify business documents.'',
      INVOICE_PROMPT = ''Extract an invoice into JSON.'',
      RECEIPT_PROMPT = ''Extract a purchase receipt into JSON.''\<rparr>"

definition answering_env :: "py_dict \<Rightarrow> environment" where
  \<comment> \<open>the classifier answers with the given payload, every other call with a summary\<close>
  "answering_env answer =
     \<lparr>api_key = Some ''sk-test'',
      upstream = (\<lambda>req. if take 8 (req_user req) = ''Classify''
                        then Completed (Parsed answer)
                        else Completed (Parsed [(''summary'', JStr ''Packing slip, 3 cartons'')])),
      float_of_text = (\<lambda>s. None),
      CLASSIFIER_MODEL = ''o3'', EXTRACTION_MODEL = ''o3'',
      CLASSIFIER_PROMPT = ''You classify business documents.'',
      INVOICE_PROMPT = ''Extract an invoice into JSON.'',
      RECEIPT_PROMPT = ''Extract a purchase receipt into JSON.''\<rparr>"

definition shipping_payload :: "json \<Rightarrow> py_dict" where
  "shipping_payload c = [(''type'', JStr ''shipping_record''), (''confidence'', c), (''direction'', JStr ''incoming'')]"

definition shipping_extraction :: "rat \<Rightarrow> extraction" where
  "shipping_extraction c =
     \<lparr>ext_doc_id = ''doc_1'', ext_model = ''o3'', ext_schema = ''generic_v1'',
      ext_fields = [(''summary'', Json (JStr ''Packing slip, 3 cartons'')),
                    (''direction'', Json (JStr ''incoming''))],
      ext_confidence = c\<rparr>"

section \<open>Properties of the gateway and the classifier\<close>

lemma chat_unfold:
  "key_set env \<Longrightarrow>
   chat_json_with_images env sp up imgs model =
     (case upstream env (build_request sp up imgs model) of
              Completed c \<Rightarrow> (loaded c, [build_request sp up imgs model])
            | Raised fault msg body \<Rightarrow>
                if fault = BadRequestError \<and> model \<noteq> FALLBACK_MODEL
                then
                  (case upstream env (build_request sp up imgs FALLBACK_MODEL) of
                        Completed c \<Rightarrow> (loaded c, [build_request sp up imgs model,
                                                   build_request sp up imgs FALLBACK_MODEL])
                      | Raised fault2 msg2 body2 \<Rightarrow>
                          (Inl (VisionCallFailed model msg2 body2),
                           [build_request sp up imgs model, build_request sp up imgs FALLBACK_MODEL]))
                else (Inl (VisionCallFailed model msg body), [build_request sp up imgs model]))"
  unfolding chat_json_with_images_def Let_def
  by (auto simp: key_set_def split: option.splits)

lemma req_model_build [simp]: "req_model (build_request sp up imgs m) = m"
  by (simp add: build_request_def)

text \<open>
  C8, as the code has it. When the first call is rejected with \<open>BadRequestError\<close>, exactly
  one request for the fallback model is sent (the rejected one itself when the model asked
  for is the fallback model, the second of two otherwise). When the fallback answers with a
  JSON object, that object is the result, and the metadata the invoice extractor builds
  names the configured \<open>EXTRACTION_MODEL\<close>: the gateway returns the payload only, not the
  model that produced it. When the fallback call raises as well, or the first call raises
  any other fault, or the model asked for is the fallback model already, one error is
  raised; it carries the name of the model asked for, and the message and body of the last
  exception.
\<close>

theorem fallback_once_unified_error:
  "(key_set env \<and> upstream env (build_request sp up imgs model) = Raised BadRequestError msg body \<longrightarrow>
      length (filter (\<lambda>r. req_model r = FALLBACK_MODEL)
                (snd (chat_json_with_images env sp up imgs model))) = 1
      \<and> (model \<noteq> FALLBACK_MODEL \<longrightarrow>
            snd (chat_json_with_images env sp up imgs model)
              = [build_request sp up imgs model, build_request sp up imgs FALLBACK_MODEL]))
   \<and> (key_set env \<and> upstream env (build_request sp up imgs model) = Raised BadRequestError msg body
       \<and> model \<noteq> FALLBACK_MODEL
       \<and> upstream env (build_request sp up imgs FALLBACK_MODEL) = Completed (Parsed payload) \<longrightarrow>
      fst (chat_json_with_images env sp up imgs model) = Inr payload)
   \<and> (key_set env \<and> EXTRACTION_MODEL env \<noteq> FALLBACK_MODEL
       \<and> upstream env (build_request ''You are an expert at reading invoices from images into strict JSON.''
                         (INVOICE_PROMPT env) imgs (EXTRACTION_MODEL env))
           = Raised BadRequestError msg body
       \<and> upstream env (build_request ''You are an expert at reading invoices from images into strict JSON.''
                         (INVOICE_PROMPT env) imgs FALLBACK_MODEL)
           = Completed (Parsed payload) \<longrightarrow>
      fst (extract_invoice_fields_vision env imgs)
        = Inr (payload, \<lparr>meta_model = EXTRACTION_MODEL env, meta_payload = payload\<rparr>))
   \<and> (key_set env \<and> upstream env (build_request sp up imgs model) = Raised BadRequestError msg body
       \<and> model \<noteq> FALLBACK_MODEL
       \<and> upstream env (build_request sp up imgs FALLBACK_MODEL) = Raised fb_fault fb_msg fb_body \<longrightarrow>
      fst (chat_json_with_images env sp up imgs model) = Inl (VisionCallFailed model fb_msg fb_body))
   \<and> (key_set env \<and> upstream env (build_request sp up imgs model) = Raised fault msg body
       \<and> (fault \<noteq> BadRequestError \<or> model = FALLBACK_MODEL) \<longrightarrow>
      chat_json_with_images env sp up imgs model
        = (Inl (VisionCallFailed model msg body), [build_request sp up imgs model]))"
proof (intro conjI impI)
  assume a: "key_set env \<and> upstream env (build_request sp up imgs model) = Raised BadRequestError msg body"
  then show "length (filter (\<lambda>r. req_model r = FALLBACK_MODEL)
                (snd (chat_json_with_images env sp up imgs model))) = 1"
    by (cases "upstream env (build_request sp up imgs FALLBACK_MODEL)")
      (auto simp: chat_unfold)
  assume "model \<noteq> FALLBACK_MODEL"
  with a show "snd (chat_json_with_images env sp up imgs model)
              = [build_request sp up imgs model, build_request sp up imgs FALLBACK_MODEL]"
    by (cases "upstream env (build_request sp up imgs FALLBACK_MODEL)")
      (auto simp: chat_unfold)
next
  assume "key_set env \<and> upstream env (build_request sp up imgs model) = Raised BadRequestError msg body
       \<and> model \<noteq> FALLBACK_MODEL
       \<and> upstream env (build_request sp up imgs FALLBACK_MODEL) = Completed (Parsed payload)"
  then show "fst (chat_json_with_images env sp up imgs model) = Inr payload"
    by (simp add: chat_unfold loaded_def)
next
  assume "key_set env \<and> EXTRACTION_MODEL env \<noteq> FALLBACK_MODEL
       \<and> upstream env (build_request ''You are an expert at reading invoices from images into strict JSON.''
                         (INVOICE_PROMPT env) imgs (EXTRACTION_MODEL env))
           = Raised BadRequestError msg body
       \<and> upstream env (build_request ''You are an expert at reading invoices from images into strict JSON.''
                         (INVOICE_PROMPT env) imgs FALLBACK_MODEL)
           = Completed (Parsed payload)"
  then show "fst (extract_invoice_fields_vision env imgs)
        = Inr (payload, \<lparr>meta_model = EXTRACTION_MODEL env, meta_payload = payload\<rparr>)"
    by (simp add: extract_invoice_fields_vision_def chat_unfold loaded_def)
next
  assume "key_set env \<and> upstream env (build_request sp up imgs model) = Raised BadRequestError msg body
       \<and> model \<noteq> FALLBACK_MODEL
       \<and> upstream env (build_request sp up imgs FALLBACK_MODEL) = Raised fb_fault fb_msg fb_body"
  then show "fst (chat_json_with_images env sp up imgs model) = Inl (VisionCallFailed model fb_msg fb_body)"
    by (simp add: chat_unfold)
next
  assume "key_set env \<and> upstream env (build_request sp up imgs model) = Raised fault msg body
       \<and> (fault \<noteq> BadRequestError \<or> model = FALLBACK_MODEL)"
  then show "chat_json_with_images env sp up imgs model
        = (Inl (VisionCallFailed model msg body), [build_request sp up imgs model])"
    by (auto simp: chat_unfold)
qed

lemma rejecting_env_key: "key_set rejecting_env"
  by (simp add: rejecting_env_def key_set_def)

lemma rejecting_env_model: "EXTRACTION_MODEL rejecting_env = ''o3''"
  by (simp add: rejecting_env_def)

lemma o3_not_fallback: "''o3'' \<noteq> FALLBACK_MODEL"
  by (simp add: FALLBACK_MODEL_def)

lemma rejecting_env_primary:
  "upstream rejecting_env (build_request sp up imgs ''o3'')
     = Raised BadRequestError ''model does not accept images'' None"
  by (simp add: rejecting_env_def)

lemma rejecting_env_fallback:
  "upstream rejecting_env (build_request sp up imgs FALLBACK_MODEL) = Completed (Parsed acme_payload)"
  by (simp add: rejecting_env_def FALLBACK_MODEL_def)

lemma unavailable_env_key: "key_set unavailable_env"
  by (simp add: unavailable_env_def key_set_def)

lemma unavailable_env_primary:
  "upstream unavailable_env (build_request sp up imgs ''o3'')
     = Raised BadRequestError ''model does not accept images'' None"
  by (simp add: unavailable_env_def)

lemma unavailable_env_fallback:
  "upstream unavailable_env (build_request sp up imgs FALLBACK_MODEL)
     = Raised RateLimitError ''quota exceeded'' (Some ''insufficient_quota'')"
  by (simp add: unavailable_env_def FALLBACK_MODEL_def)

theorem fallback_once_unified_error_witness:
  "length (filter (\<lambda>r. req_model r = FALLBACK_MODEL)
       (snd (chat_json_with_images rejecting_env ''s'' ''u'' [''page1''] ''o3''))) = 1
   \<and> fst (chat_json_with_images rejecting_env ''s'' ''u'' [''page1''] ''o3'') = Inr acme_payload
   \<and> fst (extract_invoice_fields_vision rejecting_env [''page1''])
       = Inr (acme_payload, \<lparr>meta_model = EXTRACTION_MODEL rejecting_env, meta_payload = acme_payload\<rparr>)
   \<and> fst (chat_json_with_images unavailable_env ''s'' ''u'' [''page1''] ''o3'')
       = Inl (VisionCallFailed ''o3'' ''quota exceeded'' (Some ''insufficient_quota''))
   \<and> chat_json_with_images unavailable_env ''s'' ''u'' [''page1''] FALLBACK_MODEL
       = (Inl (VisionCallFailed FALLBACK_MODEL ''quota exceeded'' (Some ''insufficient_quota'')),
          [build_request ''s'' ''u'' [''page1''] FALLBACK_MODEL])"
proof -
  note t = fallback_once_unified_error [where env = rejecting_env and imgs = "[''page1'']"
      and sp = "''s''" and up = "''u''"
      and model = "''o3''" and msg = "''model does not accept images''" and body = None
      and payload = acme_payload]
  note u = fallback_once_unified_error [where env = unavailable_env and imgs = "[''page1'']"
      and sp = "''s''" and up = "''u''" and fb_msg = "''quota exceeded''"
      and fb_body = "Some ''insufficient_quota''" and fb_fault = RateLimitError
      and model = "''o3''" and msg = "''model does not accept images''" and body = None]
  note v = fallback_once_unified_error [where env = unavailable_env and imgs = "[''page1'']"
      and sp = "''s''" and up = "''u''" and msg = "''quota exceeded''"
      and body = "Some ''insufficient_quota''" and fault = RateLimitError
      and model = FALLBACK_MODEL]
  have 1: "length (filter (\<lambda>r. req_model r = FALLBACK_MODEL)
       (snd (chat_json_with_images rejecting_env ''s'' ''u'' [''page1''] ''o3''))) = 1"
    by (rule t [THEN conjunct1, THEN mp, OF conjI [OF rejecting_env_key rejecting_env_primary],
          THEN conjunct1])
  have 2: "fst (chat_json_with_images rejecting_env ''s'' ''u'' [''page1''] ''o3'') = Inr acme_payload"
    by (rule t [THEN conjunct2, THEN conjunct1, THEN mp,
          OF conjI [OF rejecting_env_key
               conjI [OF rejecting_env_primary conjI [OF o3_not_fallback rejecting_env_fallback]]]])
  have 3: "fst (extract_invoice_fields_vision rejecting_env [''page1''])
       = Inr (acme_payload, \<lparr>meta_model = EXTRACTION_MODEL rejecting_env, meta_payload = acme_payload\<rparr>)"
    using fallback_once_unified_error [where env = rejecting_env and imgs = "[''page1'']"
        and msg = "''model does not accept images''" and body = None and payload = acme_payload,
        THEN conjunct2, THEN conjunct2, THEN conjunct1]
      rejecting_env_key rejecting_env_primary rejecting_env_fallback o3_not_fallback
    by (simp add: rejecting_env_model)
  have 4: "fst (chat_json_with_images unavailable_env ''s'' ''u'' [''page1''] ''o3'')
       = Inl (VisionCallFailed ''o3'' ''quota exceeded'' (Some ''insufficient_quota''))"
    by (rule u [THEN conjunct2, THEN conjunct2, THEN conjunct2, THEN conjunct1, THEN mp,
          OF conjI [OF unavailable_env_key
               conjI [OF unavailable_env_primary conjI [OF o3_not_fallback unavailable_env_fallback]]]])
  have 5: "chat_json_with_images unavailable_env ''s'' ''u'' [''page1''] FALLBACK_MODEL
       = (Inl (VisionCallFailed FALLBACK_MODEL ''quota exceeded'' (Some ''insufficient_quota'')),
          [build_request ''s'' ''u'' [''page1''] FALLBACK_MODEL])"
    by (rule v [THEN conjunct2, THEN conjunct2, THEN conjunct2, THEN conjunct2, THEN mp,
          OF conjI [OF unavailable_env_key conjI [OF unavailable_env_fallback disjI2 [OF refl]]]])
  from 1 2 3 4 5 show ?thesis by (intro conjI)
qed

text \<open>
  \<open>o3\<close> rejects the request and \<open>gpt-4o-mini\<close> answers: the metadata still says \<open>o3\<close>.
\<close>

theorem fallback_metadata_counterexample:
  "fst (extract_invoice_fields_vision rejecting_env [''page1''])
     = Inr (acme_payload, \<lparr>meta_model = ''o3'', meta_payload = acme_payload\<rparr>)
   \<and> map req_model (snd (extract_invoice_fields_vision rejecting_env [''page1''])) = [''o3'', ''gpt-4o-mini'']
   \<and> meta_model \<lparr>meta_model = ''o3'', meta_payload = acme_payload\<rparr> \<noteq> FALLBACK_MODEL"
  by (simp add: extract_invoice_fields_vision_def chat_unfold rejecting_env_key rejecting_env_model
        rejecting_env_primary rejecting_env_fallback o3_not_fallback loaded_def)
     (simp add: FALLBACK_MODEL_def)

lemma classify_Inr:
  assumes "fst (classify_document_vision env images) = Inr (doc_type, confidence, meta)"
  shows "classifier_payload env images = Inr (meta_payload meta)
         \<and> py_float env (case dict_get (meta_payload meta) ''confidence'' of None \<Rightarrow> JNum 0 | Some c \<Rightarrow> c)
             = Inr confidence"
  using assms
  unfolding classify_document_vision_def classifier_payload_def
  by (auto split: prod.splits sum.splits)

lemma run_extraction_Inr:
  assumes "images \<noteq> []" "run_extraction lib env document_id images text = Inr ex"
  shows "\<exists>doc_type meta. fst (classify_document_vision env images) = Inr (doc_type, ext_confidence ex, meta)"
  using assms
  unfolding run_extraction_def upsert_extraction_def
  by (auto split: sum.splits prod.splits if_splits)

lemma run_extraction_no_images:
  "run_extraction lib env document_id [] text =
     Inr \<lparr>ext_doc_id = document_id, ext_model = EXTRACTION_MODEL env, ext_schema = ''generic_v1'',
          ext_fields = [(''summary'', Json (JStr (take 500 text)))], ext_confidence = 0\<rparr>"
  by (simp add: run_extraction_def upsert_extraction_def is_json_def)

text \<open>
  C9, as the code has it. Without images the extraction persisted has confidence 0. With
  images, the confidence of the classification, and of the extraction persisted, is what
  \<open>float\<close> makes of the payload's \<open>confidence\<close>, unchanged: 0 when the key is absent, the
  number itself when it is a number (so it lies in [0,1] exactly when the payload's number
  does), 1 or 0 for a boolean, the number a string spells. It is never null: for a payload
  whose \<open>confidence\<close> is \<open>null\<close> the classifier raises \<open>TypeError\<close> and nothing is persisted.
\<close>

theorem confidence_is_payload_number:
  "run_extraction lib env document_id [] ocr_text =
     Inr \<lparr>ext_doc_id = document_id, ext_model = EXTRACTION_MODEL env, ext_schema = ''generic_v1'',
          ext_fields = [(''summary'', Json (JStr (take 500 ocr_text)))], ext_confidence = 0\<rparr>
   \<and> (fst (classify_document_vision env images) = Inr (doc_type, confidence, meta) \<longrightarrow>
        (case dict_get (meta_payload meta) ''confidence'' of
           None \<Rightarrow> confidence = 0
         | Some (JNum r) \<Rightarrow> confidence = r \<and> (0 \<le> confidence \<and> confidence \<le> 1 \<longleftrightarrow> 0 \<le> r \<and> r \<le> 1)
         | Some (JBool b) \<Rightarrow> confidence = (if b then 1 else 0)
         | Some (JStr s) \<Rightarrow> float_of_text env s = Some confidence
         | Some other \<Rightarrow> False))
   \<and> (images \<noteq> [] \<and> run_extraction lib env document_id images ocr_text = Inr ex
        \<and> classifier_payload env images = Inr payload \<longrightarrow>
        (case dict_get payload ''confidence'' of
           None \<Rightarrow> ext_confidence ex = 0
         | Some (JNum r) \<Rightarrow> ext_confidence ex = r
         | Some (JBool b) \<Rightarrow> ext_confidence ex = (if b then 1 else 0)
         | Some (JStr s) \<Rightarrow> float_of_text env s = Some (ext_confidence ex)
         | Some other \<Rightarrow> False))
   \<and> (classifier_payload env images = Inr payload \<and> dict_get payload ''confidence'' = Some JNull \<longrightarrow>
        fst (classify_document_vision env images) = Inl TypeError
        \<and> (images \<noteq> [] \<longrightarrow> run_extraction lib env document_id images ocr_text = Inl TypeError))"
proof (intro conjI impI)
  show "run_extraction lib env document_id [] ocr_text =
     Inr \<lparr>ext_doc_id = document_id, ext_model = EXTRACTION_MODEL env, ext_schema = ''generic_v1'',
          ext_fields = [(''summary'', Json (JStr (take 500 ocr_text)))], ext_confidence = 0\<rparr>"
    by (rule run_extraction_no_images)
next
  assume "fst (classify_document_vision env images) = Inr (doc_type, confidence, meta)"
  from classify_Inr [OF this]
  show "case dict_get (meta_payload meta) ''confidence'' of
           None \<Rightarrow> confidence = 0
         | Some (JNum r) \<Rightarrow> confidence = r \<and> (0 \<le> confidence \<and> confidence \<le> 1 \<longleftrightarrow> 0 \<le> r \<and> r \<le> 1)
         | Some (JBool b) \<Rightarrow> confidence = (if b then 1 else 0)
         | Some (JStr s) \<Rightarrow> float_of_text env s = Some confidence
         | Some other \<Rightarrow> False"
    by (auto simp: py_float_def split: option.splits json.splits)
next
  assume a: "images \<noteq> [] \<and> run_extraction lib env document_id images ocr_text = Inr ex
        \<and> classifier_payload env images = Inr payload"
  then obtain doc_type meta
    where c: "fst (classify_document_vision env images) = Inr (doc_type, ext_confidence ex, meta)"
    using run_extraction_Inr by blast
  from classify_Inr [OF c] a have "meta_payload meta = payload"
    by simp
  with classify_Inr [OF c]
  show "case dict_get payload ''confidence'' of
           None \<Rightarrow> ext_confidence ex = 0
         | Some (JNum r) \<Rightarrow> ext_confidence ex = r
         | Some (JBool b) \<Rightarrow> ext_confidence ex = (if b then 1 else 0)
         | Some (JStr s) \<Rightarrow> float_of_text env s = Some (ext_confidence ex)
         | Some other \<Rightarrow> False"
    by (auto simp: py_float_def split: option.splits json.splits)
next
  assume a: "classifier_payload env images = Inr payload \<and> dict_get payload ''confidence'' = Some JNull"
  then have c: "fst (classify_document_vision env images) = Inl TypeError"
    unfolding classify_document_vision_def classifier_payload_def
    by (auto simp: py_float_def doc_type_of_def split: prod.splits sum.splits option.splits json.splits)
  then show "fst (classify_document_vision env images) = Inl TypeError"
    by simp
  assume "images \<noteq> []"
  with c show "run_extraction lib env document_id images ocr_text = Inl TypeError"
    by (simp add: run_extraction_def)
qed

lemma answering_env_payload:
  "classifier_payload (answering_env p) [''page1''] = Inr p"
  by (simp add: classifier_payload_def chat_json_with_images_def answering_env_def build_request_def
        loaded_def)

lemma answering_env_classified:
  "fst (classify_document_vision (answering_env (shipping_payload (JNum c))) [''page1''])
     = Inr (OTHER, c, \<lparr>meta_model = ''o3'', meta_payload = shipping_payload (JNum c)\<rparr>)"
  by (simp add: classify_document_vision_def chat_json_with_images_def answering_env_def
        build_request_def loaded_def shipping_payload_def dict_get_def doc_type_of_def
        DOC_TYPE_MAP_def py_float_def)

lemma answering_env_extraction:
  "run_extraction lib (answering_env (shipping_payload (JNum c))) ''doc_1'' [''page1''] text
     = Inr (shipping_extraction c)"
  by (simp add: run_extraction_def answering_env_classified extract_fields_def)
     (simp add: chat_json_with_images_def answering_env_def build_request_def loaded_def
        SUMMARY_PROMPT_def shipping_payload_def dict_get_def json_truthy_def dict_set_def
        upsert_extraction_def is_json_def shipping_extraction_def)

theorem confidence_is_payload_number_witness:
  "fst (classify_document_vision (answering_env (shipping_payload (JNum (4 / 5)))) [''page1''])
     = Inr (OTHER, 4 / 5, \<lparr>meta_model = ''o3'', meta_payload = shipping_payload (JNum (4 / 5))\<rparr>)
   \<and> run_extraction example_lib (answering_env (shipping_payload (JNum (4 / 5)))) ''doc_1'' [''page1''] []
       = Inr (shipping_extraction (4 / 5))
   \<and> ext_confidence (shipping_extraction (4 / 5)) = 4 / 5
   \<and> 0 \<le> ext_confidence (shipping_extraction (4 / 5))
   \<and> ext_confidence (shipping_extraction (4 / 5)) \<le> 1
   \<and> run_extraction example_lib (answering_env (shipping_payload JNull)) ''doc_1'' [''page1''] []
       = Inl TypeError"
proof -
  have 1: "ext_confidence (shipping_extraction (4 / 5)) = 4 / 5"
    using confidence_is_payload_number [where env = "answering_env (shipping_payload (JNum (4 / 5)))"
        and lib = example_lib and document_id = "''doc_1''" and images = "[''page1'']" and ocr_text = "[]"
        and ex = "shipping_extraction (4 / 5)" and payload = "shipping_payload (JNum (4 / 5))",
        THEN conjunct2, THEN conjunct2, THEN conjunct1]
      answering_env_extraction [of example_lib "4 / 5" "[]"]
      answering_env_payload [of "shipping_payload (JNum (4 / 5))"]
    by (simp add: shipping_payload_def dict_get_def)
  have 2: "run_extraction example_lib (answering_env (shipping_payload JNull)) ''doc_1'' [''page1''] []
       = Inl TypeError"
    using confidence_is_payload_number [where env = "answering_env (shipping_payload JNull)"
        and lib = example_lib and document_id = "''doc_1''" and images = "[''page1'']" and ocr_text = "[]"
        and payload = "shipping_payload JNull",
        THEN conjunct2, THEN conjunct2, THEN conjunct2]
      answering_env_payload [of "shipping_payload JNull"]
    by (simp add: shipping_payload_def dict_get_def)
  from 1 have 3: "0 \<le> ext_confidence (shipping_extraction (4 / 5))"
    and 4: "ext_confidence (shipping_extraction (4 / 5)) \<le> 1"
    by simp_all
  from answering_env_classified answering_env_extraction 1 3 4 2 show ?thesis
    by (intro conjI)
qed

text \<open>A classifier payload with confidence 1.5: the extraction persisted has confidence 1.5.\<close>

theorem confidence_above_one_counterexample:
  "run_extraction example_lib (answering_env (shipping_payload (JNum (3 / 2)))) ''doc_1'' [''page1''] []
     = Inr (shipping_extraction (3 / 2))
   \<and> \<not> ext_confidence (shipping_extraction (3 / 2)) \<le> 1"
  by (simp add: answering_env_extraction) (simp add: shipping_extraction_def)

section \<open>Storage JSON (backend/business_hub/storage.py)\<close>

text \<open>
  \<open>upsert_extraction\<close> and \<open>upsert_record\<close> write \<open>json.dumps(fields)\<close> into the \<open>fields\<close>
  column and \<open>list_records\<close> reads it back with \<open>json.loads\<close>. Both are called with their
  default arguments: the encoder escapes everything outside the printable ASCII range and
  separates items by a comma and a space and a key from its value by a colon and a space;
  the decoder is the strict one.

  The text of a number is the one thing taken as a parameter: numbers are exact in the
  model, so \<open>float.__repr__\<close> and \<open>float\<close> of a number's text are given by \<open>number_text\<close>.
  The numbers of a normalised invoice are all floats (the fields are typed \<open>float\<close>).
\<close>

subsection \<open>\<open>json.dumps\<close>\<close>

record number_text =
  float_repr :: "rat \<Rightarrow> string"  \<comment> \<open>\<open>float.__repr__\<close>\<close>
  parse_float :: "string \<Rightarrow> rat option"  \<comment> \<open>\<open>float\<close> of the text of a number\<close>

definition hex_char :: "nat \<Rightarrow> char" where
  "hex_char d = (if d < 10 then char_of (48 + d) else char_of (87 + d))"

definition escape_ascii :: "char \<Rightarrow> string" where
  \<comment> \<open>the replacement of one character matched by \<open>ESCAPE_ASCII\<close>, \<open>([\\"]|[^\ -~])\<close>: the
      short escapes of \<open>ESCAPE_DCT\<close>, else \<open>'\\u{0:04x}'\<close>; other characters stay\<close>
  "escape_ascii c =
     (if c = CHR 0x5C then [CHR 0x5C, CHR 0x5C]
      else if c = CHR 0x22 then [CHR 0x5C, CHR 0x22]
      else if c = CHR 0x08 then [CHR 0x5C, CHR ''b'']
      else if c = CHR 0x0C then [CHR 0x5C, CHR ''f'']
      else if c = CHR 0x0A then [CHR 0x5C, CHR ''n'']
      else if c = CHR 0x0D then [CHR 0x5C, CHR ''r'']
      else if c = CHR 0x09 then [CHR 0x5C, CHR ''t'']
      else if 32 \<le> (of_char c :: nat) \<and> (of_char c :: nat) \<le> 126 then [c]
      else [CHR 0x5C, CHR ''u'',
            hex_char ((of_char c :: nat) div 4096 mod 16), hex_char ((of_char c :: nat) div 256 mod 16),
            hex_char ((of_char c :: nat) div 16 mod 16), hex_char ((of_char c :: nat) mod 16)])"

definition encode_basestring_ascii :: "string \<Rightarrow> string" where
  "encode_basestring_ascii s = CHR 0x22 # concat (map escape_ascii s) @ [CHR 0x22]"

fun str_join :: "string \<Rightarrow> string list \<Rightarrow> string" where
  "str_join sep [] = []"
| "str_join sep [x] = x"
| "str_join sep (x # y # ys) = x @ sep @ str_join sep (y # ys)"

fun encode :: "number_text \<Rightarrow> json \<Rightarrow> string" where
  "encode nt JNull = ''null''"
| "encode nt (JBool b) = (if b then ''true'' else ''false'')"
| "encode nt (JNum r) = float_repr nt r"
| "encode nt (JStr s) = encode_basestring_ascii s"
| "encode nt (JArr xs) = ''['' @ str_join '', '' (map (encode nt) xs) @ '']''"
| "encode nt (JObj kvs) =
     ''{'' @ str_join '', '' (map (\<lambda>(k, v). encode_basestring_ascii k @ '': '' @ encode nt v) kvs) @ ''}''"

definition json_dumps :: "number_text \<Rightarrow> json \<Rightarrow> string" where
  \<comment> \<open>\<open>JSONEncoder().encode(obj)\<close>\<close>
  "json_dumps nt obj = encode nt obj"

subsection \<open>\<open>json.loads\<close>\<close>

text \<open>
  The decoder, as \<open>json.decoder\<close> and \<open>json.scanner\<close> have it. White space is skipped
  before and after the value, after an opening bracket or brace, and around a comma and a
  colon. \<open>scanstring\<close> starts after the opening quote. A number is the longest match of
  \<open>(-?(?:0|[1-9][0-9]*))(\.[0-9]+)?([eE][-+]?[0-9]+)?\<close>; with a fraction or an exponent it
  is read by \<open>float\<close>, otherwise by \<open>int\<close>. A dict is built from the pairs in order, a later
  value replacing an earlier one under the same key.

  The recursion of the decoder runs on a counter that starts at the length of the text;
  every value read is at least one character long, so the counter does not run out before
  the text does. Outside the model, and answered by \<open>None\<close> like an error: \<open>NaN\<close>,
  \<open>Infinity\<close> and \<open>-Infinity\<close>, which are no rational numbers, and an escape \<open>\uXXXX\<close>
  above 255, which is no character of the model's text.
\<close>

definition is_json_ws :: "char \<Rightarrow> bool" where
  "is_json_ws c = (c = CHR 0x20 \<or> c = CHR 0x09 \<or> c = CHR 0x0A \<or> c = CHR 0x0D)"

definition skip_ws :: "string \<Rightarrow> string" where
  "skip_ws s = dropWhile is_json_ws s"

definition hex_val :: "char \<Rightarrow> nat option" where
  "hex_val c =
     (let n = (of_char c :: nat)
      in if 48 \<le> n \<and> n \<le> 57 then Some (n - 48)
         else if 97 \<le> n \<and> n \<le> 102 then Some (n - 87)
         else if 65 \<le> n \<and> n \<le> 70 then Some (n - 55)
         else None)"

definition decode_uXXXX :: "string \<Rightarrow> nat option" where
  \<comment> \<open>the four hexadecimal digits after \<open>\u\<close>, as the C scanner reads them\<close>
  "decode_uXXXX s =
     (case map hex_val (take 4 s) of
        [Some a, Some b, Some c, Some d] \<Rightarrow> Some (((a * 16 + b) * 16 + c) * 16 + d)
      | _ \<Rightarrow> None)"

definition BACKSLASH :: "char \<Rightarrow> char option" where
  "BACKSLASH esc =
     (if esc = CHR 0x22 then Some (CHR 0x22)
      else if esc = CHR 0x5C then Some (CHR 0x5C)
      else if esc = CHR ''/'' then Some (CHR ''/'')
      else if esc = CHR ''b'' then Some (CHR 0x08)
      else if esc = CHR ''f'' then Some (CHR 0x0C)
      else if esc = CHR ''n'' then Some (CHR 0x0A)
      else if esc = CHR ''r'' then Some (CHR 0x0D)
      else if esc = CHR ''t'' then Some (CHR 0x09)
      else None)"

fun scanstring :: "string \<Rightarrow> (string \<times> string) option" where
  "scanstring [] = None"
| "scanstring (c # s) =
     (if c = CHR 0x22 then Some ([], s)
      else if c = CHR 0x5C then
        (case s of
           [] \<Rightarrow> None
         | esc # s' \<Rightarrow>
             if esc = CHR ''u''
             then (case decode_uXXXX s' of
                     None \<Rightarrow> None
                   | Some uni \<Rightarrow>
                       if uni < 256
                       then (case scanstring (drop 4 s') of
                               None \<Rightarrow> None
                             | Some (str, r) \<Rightarrow> Some (char_of uni # str, r))
                       else None)
             else (case BACKSLASH esc of
                     None \<Rightarrow> None
                   | Some ch \<Rightarrow>
                       (case scanstring s' of
                          None \<Rightarrow> None
                        | Some (str, r) \<Rightarrow> Some (ch # str, r))))
      else if (of_char c :: nat) < 32 then None
      else (case scanstring s of
              None \<Rightarrow> None
            | Some (str, r) \<Rightarrow> Some (c # str, r)))"

definition match_integer :: "string \<Rightarrow> (string \<times> string) option" where
  \<comment> \<open>\<open>(-?(?:0|[1-9][0-9]*))\<close>: the match and the text after it\<close>
  "match_integer s =
     (let (sign, s1) = (case s of [] \<Rightarrow> ([], s) | c # r \<Rightarrow> if c = CHR ''-'' then ([c], r) else ([], s))
      in case s1 of
           [] \<Rightarrow> None
         | c # r \<Rightarrow>
             if c = CHR ''0'' then Some (sign @ [c], r)
             else if is_digit c then Some (sign @ c # takeWhile is_digit r, dropWhile is_digit r)
             else None)"

definition match_frac :: "string \<Rightarrow> string \<times> string" where
  \<comment> \<open>\<open>(\.[0-9]+)?\<close>\<close>
  "match_frac s =
     (case s of
        c # d # r \<Rightarrow>
          if c = CHR ''.'' \<and> is_digit d then (c # d # takeWhile is_digit r, dropWhile is_digit r)
          else ([], s)
      | _ \<Rightarrow> ([], s))"

definition match_exp :: "string \<Rightarrow> string \<times> string" where
  \<comment> \<open>\<open>([eE][-+]?[0-9]+)?\<close>\<close>
  "match_exp s =
     (case s of
        [] \<Rightarrow> ([], s)
      | c # r \<Rightarrow>
          if c = CHR ''e'' \<or> c = CHR ''E''
          then
            (let (sg, r1) = (case r of
                               [] \<Rightarrow> ([], r)
                             | g # r' \<Rightarrow> if g = CHR ''-'' \<or> g = CHR ''+'' then ([g], r') else ([], r))
             in case r1 of
                  [] \<Rightarrow> ([], s)
                | d # r2 \<Rightarrow>
                    if is_digit d then (c # sg @ d # takeWhile is_digit r2, dropWhile is_digit r2)
                    else ([], s))
          else ([], s))"

definition match_number :: "string \<Rightarrow> (string \<times> string \<times> string \<times> string) option" where
  \<comment> \<open>\<open>NUMBER_RE.match\<close>: the three groups and the text after the match\<close>
  "match_number s =
     (case match_integer s of
        None \<Rightarrow> None
      | Some (int_part, s1) \<Rightarrow>
          (let (frac_part, s2) = match_frac s1;
               (exp_part, s3) = match_exp s2
           in Some (int_part, frac_part, exp_part, s3)))"

definition parse_int :: "string \<Rightarrow> rat" where
  \<comment> \<open>\<open>int\<close> of the first group of \<open>NUMBER_RE\<close>\<close>
  "parse_int t =
     (case t of
        [] \<Rightarrow> 0
      | c # r \<Rightarrow> if c = CHR ''-'' then - of_nat (digits_val r) else of_nat (digits_val t))"

definition dict_of_pairs :: "(string \<times> json) list \<Rightarrow> py_dict" where
  \<comment> \<open>\<open>dict(pairs)\<close>\<close>
  "dict_of_pairs pairs = foldl (\<lambda>d (k, v). dict_set k v d) [] pairs"

fun scan_once :: "number_text \<Rightarrow> nat \<Rightarrow> string \<Rightarrow> (json \<times> string) option"
  and JSONArray :: "number_text \<Rightarrow> nat \<Rightarrow> string \<Rightarrow> json list \<Rightarrow> (json \<times> string) option"
  and JSONObject :: "number_text \<Rightarrow> nat \<Rightarrow> string \<Rightarrow> (string \<times> json) list \<Rightarrow> (json \<times> string) option"
where
  "scan_once nt 0 s = None"
| "scan_once nt (Suc n) s =
     (case s of
        [] \<Rightarrow> None
      | c # r \<Rightarrow>
          if c = CHR 0x22
          then (case scanstring r of None \<Rightarrow> None | Some (str, r') \<Rightarrow> Some (JStr str, r'))
          else if c = CHR ''{''
          then (case skip_ws r of
                  [] \<Rightarrow> None
                | d # r' \<Rightarrow> if d = CHR ''}'' then Some (JObj [], r') else JSONObject nt n (d # r') [])
          else if c = CHR ''[''
          then (case skip_ws r of
                  [] \<Rightarrow> None
                | d # r' \<Rightarrow> if d = CHR '']'' then Some (JArr [], r') else JSONArray nt n (d # r') [])
          else if take 4 s = ''null'' then Some (JNull, drop 4 s)
          else if take 4 s = ''true'' then Some (JBool True, drop 4 s)
          else if take 5 s = ''false'' then Some (JBool False, drop 5 s)
          else (case match_number s of
                  None \<Rightarrow> None
                | Some (int_part, frac_part, exp_part, r') \<Rightarrow>
                    if frac_part \<noteq> [] \<or> exp_part \<noteq> []
                    then (case parse_float nt (int_part @ frac_part @ exp_part) of
                            None \<Rightarrow> None
                          | Some x \<Rightarrow> Some (JNum x, r'))
                    else Some (JNum (parse_int int_part), r')))"
| "JSONArray nt 0 s values = None"
| "JSONArray nt (Suc n) s values =
     (case scan_once nt n s of
        None \<Rightarrow> None
      | Some (v, r) \<Rightarrow>
          (case skip_ws r of
             [] \<Rightarrow> None
           | d # r' \<Rightarrow>
               if d = CHR '']'' then Some (JArr (values @ [v]), r')
               else if d = CHR '','' then JSONArray nt n (skip_ws r') (values @ [v])
               else None))"
| "JSONObject nt 0 s pairs = None"
| "JSONObject nt (Suc n) s pairs =
     (case s of
        [] \<Rightarrow> None
      | q # s' \<Rightarrow>
          if q \<noteq> CHR 0x22 then None
          else
            (case scanstring s' of
               None \<Rightarrow> None
             | Some (key, r) \<Rightarrow>
                 (case skip_ws r of
                    [] \<Rightarrow> None
                  | c # r1 \<Rightarrow>
                      if c \<noteq> CHR '':'' then None
                      else
                        (case scan_once nt n (skip_ws r1) of
                           None \<Rightarrow> None
                         | Some (v, r2) \<Rightarrow>
                             (case skip_ws r2 of
                                [] \<Rightarrow> None
                              | d # r3 \<Rightarrow>
                                  if d = CHR ''}''
                                  then Some (JObj (dict_of_pairs (pairs @ [(key, v)])), r3)
                                  else if d = CHR '',''
                                  then JSONObject nt n (skip_ws r3) (pairs @ [(key, v)])
                                  else None)))))"

definition json_loads :: "number_text \<Rightarrow> string \<Rightarrow> json option" where
  \<comment> \<open>\<open>JSONDecoder.decode\<close>: text after the value is \<open>Extra data\<close>\<close>
  "json_loads nt s =
     (case scan_once nt (length s) (skip_ws s) of
        None \<Rightarrow> None
      | Some (obj, r) \<Rightarrow> if skip_ws r = [] then Some obj else None)"

subsection \<open>What is read back\<close>

text \<open>
  \<open>reads_back\<close>: the text \<open>float.__repr__\<close> gives for a number is a number of the JSON
  grammar with a fraction or an exponent, and \<open>float\<close> of it is the number again. Python
  promises this of every finite float. \<open>unique_keys\<close> holds of every value made of Python
  dicts; the model's dicts are lists of pairs.
\<close>

fun numbers :: "json \<Rightarrow> rat list" where
  "numbers (JNum r) = [r]"
| "numbers (JArr xs) = concat (map numbers xs)"
| "numbers (JObj kvs) = concat (map (\<lambda>(k, v). numbers v) kvs)"
| "numbers j = []"

fun unique_keys :: "json \<Rightarrow> bool" where
  "unique_keys (JArr xs) = list_all unique_keys xs"
| "unique_keys (JObj kvs) = (distinct (map fst kvs) \<and> list_all (\<lambda>(k, v). unique_keys v) kvs)"
| "unique_keys j = True"

definition reads_back :: "number_text \<Rightarrow> rat \<Rightarrow> bool" where
  "reads_back nt r =
     (case match_number (float_repr nt r) of
        None \<Rightarrow> False
      | Some (int_part, frac_part, exp_part, rest) \<Rightarrow>
          rest = [] \<and> (frac_part \<noteq> [] \<or> exp_part \<noteq> [])
          \<and> parse_float nt (int_part @ frac_part @ exp_part) = Some r)"

definition delimited :: "string \<Rightarrow> bool" where
  "delimited rest = (case rest of [] \<Rightarrow> True | c # r \<Rightarrow> c = CHR '','' \<or> c = CHR '']'' \<or> c = CHR ''}'')"

definition starts_value :: "string \<Rightarrow> bool" where
  "starts_value t =
     (case t of
        [] \<Rightarrow> False
      | c # r \<Rightarrow> c = CHR 0x22 \<or> c = CHR ''{'' \<or> c = CHR ''['' \<or> c = CHR ''n'' \<or> c = CHR ''t''
                 \<or> c = CHR ''f'' \<or> c = CHR ''-'' \<or> is_digit c)"

definition round_trips :: "number_text \<Rightarrow> json \<Rightarrow> bool" where
  "round_trips nt x =
     (starts_value (encode nt x)
      \<and> (\<forall>n rest. delimited rest \<and> length (encode nt x) \<le> n
            \<longrightarrow> scan_once nt n (encode nt x @ rest) = Some (x, rest)))"

definition encode_member :: "number_text \<Rightarrow> string \<times> json \<Rightarrow> string" where
  "encode_member nt kv = encode_basestring_ascii (fst kv) @ '': '' @ encode nt (snd kv)"

text \<open>
  An example of number text: a whole number is written as Python writes a whole float
  below \<open>10^16\<close>, \<open>125.0\<close>; the example has no text for any other number. It reads plain
  decimal text exactly.
\<close>

fun decimal :: "nat \<Rightarrow> nat \<Rightarrow> string" where
  "decimal 0 n = []"
| "decimal (Suc w) n =
     (if n < 10 then [char_of (48 + n)] else decimal w (n div 10) @ [char_of (48 + n mod 10)])"

definition whole_floats :: number_text where
  "whole_floats =
     \<lparr>float_repr = (\<lambda>r. if r = of_int \<lfloor>r\<rfloor>
                         then (if r < 0 then ''-'' else []) @ decimal 20 (nat \<bar>\<lfloor>r\<rfloor>\<bar>) @ ''.0''
                         else []),
      parse_float = (\<lambda>t. case match_number t of
                            None \<Rightarrow> None
                          | Some (int_part, frac_part, exp_part, rest) \<Rightarrow>
                              if exp_part = [] \<and> rest = []
                              then Some (parse_int int_part
                                         + (if take 1 int_part = ''-'' then - 1 else 1)
                                           * of_nat (digits_val (drop 1 frac_part))
                                           / 10 ^ length (drop 1 frac_part))
                              else None)\<rparr>"

section \<open>Properties of the storage JSON\<close>

subsection \<open>Numbers\<close>

lemma digits_append:
  "delimited rest \<Longrightarrow>
   takeWhile is_digit (r @ rest) = takeWhile is_digit r
   \<and> dropWhile is_digit (r @ rest) = dropWhile is_digit r @ rest"
  by (induction r) (auto simp: delimited_def is_digit_def split: list.splits)

lemma rest_not_digit:
  "delimited rest \<Longrightarrow> takeWhile is_digit rest = [] \<and> dropWhile is_digit rest = rest"
  by (cases rest) (auto simp: delimited_def is_digit_def)

lemma match_integer_append:
  assumes "delimited rest" "match_integer t = Some (i, s)"
  shows "match_integer (t @ rest) = Some (i, s @ rest)"
proof (cases t)
  case Nil
  with assms show ?thesis by (simp add: match_integer_def)
next
  case (Cons c r)
  show ?thesis
  proof (cases r)
    case Nil
    with Cons assms show ?thesis
      by (cases rest) (auto simp: match_integer_def delimited_def is_digit_def split: if_splits)
  next
    case (Cons d r')
    with \<open>t = c # r\<close> assms show ?thesis
      by (auto simp: match_integer_def digits_append split: if_splits)
  qed
qed

lemma match_frac_append:
  assumes "delimited rest" "match_frac t = (f, s)"
  shows "match_frac (t @ rest) = (f, s @ rest)"
proof (cases t)
  case Nil
  with assms show ?thesis
    by (cases rest; cases "tl rest") (auto simp: match_frac_def delimited_def)
next
  case (Cons c r)
  show ?thesis
  proof (cases r)
    case Nil
    with Cons assms show ?thesis
      by (cases rest) (auto simp: match_frac_def delimited_def is_digit_def)
  next
    case (Cons d r')
    with \<open>t = c # r\<close> assms show ?thesis
      by (auto simp: match_frac_def digits_append split: if_splits)
  qed
qed

lemma match_exp_append:
  assumes "delimited rest" "match_exp t = (e, s)"
  shows "match_exp (t @ rest) = (e, s @ rest)"
proof (cases t)
  case Nil
  with assms show ?thesis
    by (cases rest) (auto simp: match_exp_def delimited_def)
next
  case t: (Cons c r)
  show ?thesis
  proof (cases r)
    case Nil
    with t assms show ?thesis
      by (cases rest) (auto simp: match_exp_def delimited_def is_digit_def)
  next
    case r: (Cons g r')
    show ?thesis
    proof (cases r')
      case Nil
      with t r assms show ?thesis
        by (cases rest) (auto simp: match_exp_def delimited_def is_digit_def rest_not_digit split: if_splits)
    next
      case (Cons d r'')
      with t r assms show ?thesis
        by (auto simp: match_exp_def digits_append split: if_splits)
    qed
  qed
qed

lemma match_number_append:
  assumes "delimited rest" "match_number t = Some (i, f, e, s)"
  shows "match_number (t @ rest) = Some (i, f, e, s @ rest)"
proof -
  from assms(2) obtain s1 s2 where
    1: "match_integer t = Some (i, s1)" and 2: "match_frac s1 = (f, s2)" and 3: "match_exp s2 = (e, s)"
    unfolding match_number_def by (auto split: option.splits prod.splits)
  from match_integer_append [OF assms(1) 1] match_frac_append [OF assms(1) 2]
    match_exp_append [OF assms(1) 3]
  show ?thesis
    by (simp add: match_number_def)
qed

lemma match_number_starts:
  assumes "match_number t = Some x"
  shows "\<exists>c r. t = c # r \<and> (c = CHR ''-'' \<or> is_digit c)"
proof -
  from assms obtain y where "match_integer t = Some y"
    unfolding match_number_def by (auto split: option.splits)
  then show ?thesis
    by (cases t) (auto simp: match_integer_def is_digit_def split: if_splits list.splits)
qed

lemma scan_once_number:
  assumes "reads_back nt r" "delimited rest"
  shows "scan_once nt (Suc n) (float_repr nt r @ rest) = Some (JNum r, rest)"
proof -
  from assms(1) obtain i f e where
    m: "match_number (float_repr nt r) = Some (i, f, e, [])"
    and fe: "f \<noteq> [] \<or> e \<noteq> []" and p: "parse_float nt (i @ f @ e) = Some r"
    unfolding reads_back_def by (auto split: option.splits)
  from match_number_append [OF assms(2) m]
  have a: "match_number (float_repr nt r @ rest) = Some (i, f, e, rest)"
    by simp
  from match_number_starts [OF m] obtain c t where
    t: "float_repr nt r = c # t" and c: "c = CHR ''-'' \<or> is_digit c"
    by blast
  from c have "c \<noteq> CHR 0x22" "c \<noteq> CHR ''{''" "c \<noteq> CHR ''[''" "c \<noteq> CHR ''n''" "c \<noteq> CHR ''t''"
    "c \<noteq> CHR ''f''"
    by (auto simp: is_digit_def)
  with a fe p show ?thesis
    unfolding t by (auto simp: t)
qed

lemma reads_back_starts: "reads_back nt r \<Longrightarrow> starts_value (float_repr nt r)"
  unfolding reads_back_def starts_value_def
  by (auto split: option.splits dest!: match_number_starts)

subsection \<open>Strings\<close>

lemma hex_val_hex_char: "d < 16 \<Longrightarrow> hex_val (hex_char d) = Some d"
  by (auto simp: hex_val_def hex_char_def Let_def)

lemma decode_uXXXX_escape:
  assumes "n < 256"
  shows "decode_uXXXX (hex_char (n div 4096 mod 16) # hex_char (n div 256 mod 16)
            # hex_char (n div 16 mod 16) # hex_char (n mod 16) # t) = Some n"
proof -
  have "hex_val (hex_char (n div 4096 mod 16)) = Some (n div 4096 mod 16)"
    "hex_val (hex_char (n div 256 mod 16)) = Some (n div 256 mod 16)"
    "hex_val (hex_char (n div 16 mod 16)) = Some (n div 16 mod 16)"
    "hex_val (hex_char (n mod 16)) = Some (n mod 16)"
    by (simp_all add: hex_val_hex_char)
  moreover from assms have "n div 4096 mod 16 = 0" "n div 256 mod 16 = 0" "n div 16 mod 16 = n div 16"
    by simp_all
  ultimately show ?thesis
    by (simp add: decode_uXXXX_def)
qed

lemma scanstring_u:
  "decode_uXXXX s' = Some uni \<Longrightarrow> uni < 256 \<Longrightarrow>
   scanstring (CHR 0x5C # CHR ''u'' # s') =
     (case scanstring (drop 4 s') of None \<Rightarrow> None | Some (str, r) \<Rightarrow> Some (char_of uni # str, r))"
  by simp

lemma scanstring_escape_ascii:
  "scanstring (escape_ascii c @ t) =
     (case scanstring t of None \<Rightarrow> None | Some (str, r) \<Rightarrow> Some (c # str, r))"
proof -
  have n: "(of_char c :: nat) < 256"
    by simp
  have same: "char_of (of_char c :: nat) = c"
    by simp
  consider (short) "c \<in> {CHR 0x5C, CHR 0x22, CHR 0x08, CHR 0x0C, CHR 0x0A, CHR 0x0D, CHR 0x09}"
    | (plain) "c \<notin> {CHR 0x5C, CHR 0x22, CHR 0x08, CHR 0x0C, CHR 0x0A, CHR 0x0D, CHR 0x09}"
        "32 \<le> (of_char c :: nat) \<and> (of_char c :: nat) \<le> 126"
    | (hex) "c \<notin> {CHR 0x5C, CHR 0x22, CHR 0x08, CHR 0x0C, CHR 0x0A, CHR 0x0D, CHR 0x09}"
        "\<not> (32 \<le> (of_char c :: nat) \<and> (of_char c :: nat) \<le> 126)"
    by blast
  then show ?thesis
  proof cases
    case short
    then show ?thesis
      by (auto simp: escape_ascii_def BACKSLASH_def split: option.splits)
  next
    case plain
    then show ?thesis
      by (auto simp: escape_ascii_def split: option.splits)
  next
    case hex
    then have e: "escape_ascii c = [CHR 0x5C, CHR ''u'',
            hex_char ((of_char c :: nat) div 4096 mod 16), hex_char ((of_char c :: nat) div 256 mod 16),
            hex_char ((of_char c :: nat) div 16 mod 16), hex_char ((of_char c :: nat) mod 16)]"
      by (simp add: escape_ascii_def)
    have "scanstring (escape_ascii c @ t) =
        scanstring (CHR 0x5C # CHR ''u'' # hex_char ((of_char c :: nat) div 4096 mod 16)
          # hex_char ((of_char c :: nat) div 256 mod 16) # hex_char ((of_char c :: nat) div 16 mod 16)
          # hex_char ((of_char c :: nat) mod 16) # t)"
      by (simp only: e append.simps)
    also have "\<dots> = (case scanstring (drop 4 (hex_char ((of_char c :: nat) div 4096 mod 16)
          # hex_char ((of_char c :: nat) div 256 mod 16) # hex_char ((of_char c :: nat) div 16 mod 16)
          # hex_char ((of_char c :: nat) mod 16) # t)) of
            None \<Rightarrow> None | Some (str, r) \<Rightarrow> Some (char_of (of_char c :: nat) # str, r))"
      by (rule scanstring_u [OF decode_uXXXX_escape [OF n] n])
    also have "\<dots> = (case scanstring t of None \<Rightarrow> None | Some (str, r) \<Rightarrow> Some (c # str, r))"
      by (simp only: same drop_Suc_Cons drop_0 numeral_Bit0 numeral_One
            add_Suc_right add_Suc add_0_right Suc_eq_plus1 [symmetric] One_nat_def)
    finally show ?thesis .
  qed
qed

lemma scanstring_encoded:
  "scanstring (concat (map escape_ascii s) @ CHR 0x22 # rest) = Some (s, rest)"
  by (induction s) (simp_all add: scanstring_escape_ascii)

lemma scan_once_string:
  "scan_once nt (Suc n) (encode_basestring_ascii s @ rest) = Some (JStr s, rest)"
  by (simp add: encode_basestring_ascii_def scanstring_encoded)

subsection \<open>Lists and dicts\<close>

lemma starts_value_skip_ws: "starts_value t \<Longrightarrow> skip_ws (t @ r) = t @ r"
  by (cases t) (auto simp: starts_value_def skip_ws_def is_json_ws_def is_digit_def)

lemma starts_value_Cons: "starts_value t \<Longrightarrow> \<exists>c u. t = c # u \<and> c \<noteq> CHR '']'' \<and> c \<noteq> CHR ''}''"
  by (cases t) (auto simp: starts_value_def is_digit_def)

lemma skip_ws_space: "skip_ws (CHR '' '' # t) = skip_ws t"
  by (simp add: skip_ws_def is_json_ws_def)

lemma skip_ws_punct:
  "skip_ws (CHR '','' # t) = CHR '','' # t" "skip_ws (CHR '']'' # t) = CHR '']'' # t"
  "skip_ws (CHR ''}'' # t) = CHR ''}'' # t" "skip_ws (CHR '':'' # t) = CHR '':'' # t"
  "skip_ws (CHR 0x22 # t) = CHR 0x22 # t"
  by (simp_all add: skip_ws_def is_json_ws_def)

lemma delimited_punct:
  "delimited (CHR '','' # t)" "delimited (CHR '']'' # t)" "delimited (CHR ''}'' # t)" "delimited []"
  by (simp_all add: delimited_def)

lemma dict_of_pairs_distinct:
  assumes "distinct (map fst kvs)"
  shows "dict_of_pairs kvs = kvs"
proof -
  have "distinct (map fst (acc @ kvs)) \<Longrightarrow>
        foldl (\<lambda>d (k, v). dict_set k v d) acc kvs = acc @ kvs" for acc
  proof (induction kvs arbitrary: acc)
    case Nil
    then show ?case by simp
  next
    case (Cons kv kvs)
    obtain k v where kv: "kv = (k, v)"
      by (cases kv)
    from Cons.prems have "map_of acc k = None"
      by (auto simp: kv map_of_eq_None_iff)
    then have "dict_set k v acc = acc @ [(k, v)]"
      by (simp add: dict_set_def)
    with Cons.IH [of "acc @ [(k, v)]"] Cons.prems show ?case
      by (simp add: kv)
  qed
  from this [of "[]"] assms show ?thesis
    by (simp add: dict_of_pairs_def)
qed

lemma JSONArray_items:
  assumes "\<And>x. x \<in> set xs \<Longrightarrow> round_trips nt x" "xs \<noteq> []"
    "length (str_join '', '' (map (encode nt) xs)) < n"
  shows "JSONArray nt n (str_join '', '' (map (encode nt) xs) @ CHR '']'' # rest) acc
           = Some (JArr (acc @ xs), rest)"
  using assms
proof (induction xs arbitrary: n acc)
  case Nil
  then show ?case by simp
next
  case (Cons x ys)
  from Cons.prems(3) obtain m where n: "n = Suc m"
    by (cases n) auto
  from Cons.prems(1) have rt: "round_trips nt x"
    by simp
  show ?case
  proof (cases ys)
    case Nil
    from Cons.prems(3) have "length (encode nt x) \<le> m"
      by (simp add: n Nil)
    with rt have "scan_once nt m (encode nt x @ CHR '']'' # rest) = Some (x, CHR '']'' # rest)"
      by (simp add: round_trips_def delimited_punct)
    then show ?thesis
      by (simp add: n Nil skip_ws_punct)
  next
    case ys: (Cons y zs)
    define J where "J = str_join '', '' (map (encode nt) ys) @ CHR '']'' # rest"
    from Cons.prems(3) have l: "length (encode nt x) \<le> m" "length (str_join '', '' (map (encode nt) ys)) < m"
      by (simp_all add: n ys)
    from rt l(1) have 1: "scan_once nt m (encode nt x @ CHR '','' # CHR '' '' # J)
        = Some (x, CHR '','' # CHR '' '' # J)"
      by (simp add: round_trips_def delimited_punct)
    from Cons.prems(1) have "starts_value (encode nt y)"
      by (simp add: ys round_trips_def)
    moreover have "\<exists>u. J = encode nt y @ u"
      by (cases zs) (simp_all add: J_def ys)
    ultimately have 2: "skip_ws J = J"
      by (auto simp: starts_value_skip_ws)
    have 3: "JSONArray nt m J (acc @ [x]) = Some (JArr ((acc @ [x]) @ ys), rest)"
      unfolding J_def
      by (rule Cons.IH) (use Cons.prems(1) l(2) ys in auto)
    have "str_join '', '' (map (encode nt) (x # ys)) @ CHR '']'' # rest
        = encode nt x @ CHR '','' # CHR '' '' # J"
      by (simp add: ys J_def)
    with 1 2 3 show ?thesis
      by (simp add: n skip_ws_punct skip_ws_space)
  qed
qed

lemma encode_JObj:
  "encode nt (JObj kvs) = ''{'' @ str_join '', '' (map (encode_member nt) kvs) @ ''}''"
proof -
  have "(\<lambda>(k, v). encode_basestring_ascii k @ '': '' @ encode nt v) = encode_member nt"
    by (auto simp: encode_member_def fun_eq_iff)
  then show ?thesis
    by simp
qed

lemma encode_member_pair:
  "encode_member nt (k, v) = CHR 0x22 # concat (map escape_ascii k) @ CHR 0x22 # CHR '':'' # CHR '' '' # encode nt v"
  by (simp add: encode_member_def encode_basestring_ascii_def)

lemma encode_member_starts: "\<exists>u. encode_member nt kv = CHR 0x22 # u"
  by (simp add: encode_member_def encode_basestring_ascii_def)

lemma JSONObject_members:
  assumes "\<And>kv. kv \<in> set kvs \<Longrightarrow> round_trips nt (snd kv)" "kvs \<noteq> []"
    "length (str_join '', '' (map (encode_member nt) kvs)) < n"
  shows "JSONObject nt n (str_join '', '' (map (encode_member nt) kvs) @ CHR ''}'' # rest) acc
           = Some (JObj (dict_of_pairs (acc @ kvs)), rest)"
  using assms
proof (induction kvs arbitrary: n acc)
  case Nil
  then show ?case by simp
next
  case (Cons kv ys)
  obtain k v where kv: "kv = (k, v)"
    by (cases kv)
  from Cons.prems(3) obtain m where n: "n = Suc m"
    by (cases n) auto
  from Cons.prems(1) [of kv] have rt: "round_trips nt v"
    by (simp add: kv)
  then have sv: "skip_ws (encode nt v @ u) = encode nt v @ u" for u
    by (simp add: round_trips_def starts_value_skip_ws)
  have key: "scanstring (concat (map escape_ascii k) @ CHR 0x22 # CHR '':'' # CHR '' '' # u)
      = Some (k, CHR '':'' # CHR '' '' # u)" for u
    by (rule scanstring_encoded)
  show ?case
  proof (cases ys)
    case Nil
    from Cons.prems(3) have "length (encode nt v) \<le> m"
      by (simp add: n Nil kv encode_member_pair)
    with rt have "scan_once nt m (encode nt v @ CHR ''}'' # rest) = Some (v, CHR ''}'' # rest)"
      by (simp add: round_trips_def delimited_punct)
    with key [of "encode nt v @ CHR ''}'' # rest"] show ?thesis
      by (simp add: n Nil kv encode_member_pair skip_ws_punct skip_ws_space sv)
  next
    case ys: (Cons y zs)
    define J where "J = str_join '', '' (map (encode_member nt) ys) @ CHR ''}'' # rest"
    from Cons.prems(3) have l: "length (encode nt v) \<le> m"
      "length (str_join '', '' (map (encode_member nt) ys)) < m"
      by (simp_all add: n ys kv encode_member_pair)
    from rt l(1) have 1: "scan_once nt m (encode nt v @ CHR '','' # CHR '' '' # J)
        = Some (v, CHR '','' # CHR '' '' # J)"
      by (simp add: round_trips_def delimited_punct)
    have "\<exists>u. J = CHR 0x22 # u"
      using encode_member_starts [of nt y] by (cases zs) (auto simp: J_def ys)
    then have 2: "skip_ws J = J"
      by (auto simp: skip_ws_punct)
    have 3: "JSONObject nt m J (acc @ [kv]) = Some (JObj (dict_of_pairs ((acc @ [kv]) @ ys)), rest)"
      unfolding J_def
      by (rule Cons.IH) (use Cons.prems(1) l(2) ys in auto)
    have "str_join '', '' (map (encode_member nt) (kv # ys)) @ CHR ''}'' # rest
        = CHR 0x22 # concat (map escape_ascii k) @ CHR 0x22 # CHR '':'' # CHR '' ''
            # (encode nt v @ CHR '','' # CHR '' '' # J)"
      by (simp add: ys J_def kv encode_member_pair)
    with key [of "encode nt v @ CHR '','' # CHR '' '' # J"] 1 2 3 show ?thesis
      by (simp add: n kv skip_ws_punct skip_ws_space sv)
  qed
qed

subsection \<open>\<open>json.loads(json.dumps(obj)) == obj\<close>\<close>

lemma round_trip:
  "unique_keys j \<Longrightarrow> \<forall>r\<in>set (numbers j). reads_back nt r \<Longrightarrow> round_trips nt j"
proof (induction j)
  case JNull
  show ?case
    unfolding round_trips_def
  proof (intro conjI allI impI)
    show "starts_value (encode nt JNull)"
      by (simp add: starts_value_def)
    fix n rest
    assume "delimited rest \<and> length (encode nt JNull) \<le> n"
    then obtain m where "n = Suc m"
      by (cases n) auto
    then show "scan_once nt n (encode nt JNull @ rest) = Some (JNull, rest)"
      by simp
  qed
next
  case (JBool b)
  show ?case
    unfolding round_trips_def
  proof (intro conjI allI impI)
    show "starts_value (encode nt (JBool b))"
      by (simp add: starts_value_def)
    fix n rest
    assume "delimited rest \<and> length (encode nt (JBool b)) \<le> n"
    then obtain m where "n = Suc m"
      by (cases n; cases b) auto
    then show "scan_once nt n (encode nt (JBool b) @ rest) = Some (JBool b, rest)"
      by simp
  qed
next
  case (JNum r)
  then have rb: "reads_back nt r"
    by simp
  show ?case
    unfolding round_trips_def
  proof (intro conjI allI impI)
    show s: "starts_value (encode nt (JNum r))"
      using reads_back_starts [OF rb] by simp
    fix n rest
    assume a: "delimited rest \<and> length (encode nt (JNum r)) \<le> n"
    with s obtain m where "n = Suc m"
      by (cases n) (auto simp: starts_value_def)
    with a scan_once_number [OF rb, of rest m]
    show "scan_once nt n (encode nt (JNum r) @ rest) = Some (JNum r, rest)"
      by simp
  qed
next
  case (JStr s)
  show ?case
    unfolding round_trips_def
  proof (intro conjI allI impI)
    show "starts_value (encode nt (JStr s))"
      by (simp add: starts_value_def encode_basestring_ascii_def)
    fix n rest
    assume a: "delimited rest \<and> length (encode nt (JStr s)) \<le> n"
    then obtain m where "n = Suc m"
      by (cases n) (auto simp: encode_basestring_ascii_def)
    with scan_once_string [of nt m s rest]
    show "scan_once nt n (encode nt (JStr s) @ rest) = Some (JStr s, rest)"
      by simp
  qed
next
  case (JArr xs)
  have rt: "round_trips nt x" if "x \<in> set xs" for x
    using that JArr by (auto simp: list_all_iff)
  show ?case
    unfolding round_trips_def
  proof (intro conjI allI impI)
    show "starts_value (encode nt (JArr xs))"
      by (simp add: starts_value_def)
    fix n rest
    assume a: "delimited rest \<and> length (encode nt (JArr xs)) \<le> n"
    then obtain m where n: "n = Suc m"
      by (cases n) auto
    show "scan_once nt n (encode nt (JArr xs) @ rest) = Some (JArr xs, rest)"
    proof (cases xs)
      case Nil
      then show ?thesis
        by (simp add: n skip_ws_punct)
    next
      case (Cons x ys)
      define J where "J = str_join '', '' (map (encode nt) xs) @ CHR '']'' # rest"
      from a have "length (str_join '', '' (map (encode nt) xs)) < m"
        by (simp add: n)
      from JSONArray_items [of xs nt m rest "[]", OF rt _ this]
      have 1: "JSONArray nt m J [] = Some (JArr xs, rest)"
        by (simp add: Cons J_def)
      from rt [of x] have "starts_value (encode nt x)"
        by (simp add: Cons round_trips_def)
      moreover have "\<exists>u. J = encode nt x @ u"
        by (cases ys) (simp_all add: J_def Cons)
      ultimately obtain c u where 2: "J = c # u" "c \<noteq> CHR '']''" "skip_ws J = J"
        using starts_value_Cons [of "encode nt x"] starts_value_skip_ws [of "encode nt x"]
        by auto
      have "encode nt (JArr xs) @ rest = CHR ''['' # J"
        by (simp add: J_def)
      with 1 2 show ?thesis
        by (simp add: n)
    qed
  qed
next
  case (JObj kvs)
  have rt: "round_trips nt (snd kv)" if "kv \<in> set kvs" for kv
  proof -
    obtain k v where kv: "kv = (k, v)"
      by (cases kv)
    from that JObj.prems have "unique_keys v" "\<forall>r\<in>set (numbers v). reads_back nt r"
      by (auto simp: kv list_all_iff)
    with JObj.IH [of kv v] that show ?thesis
      by (simp add: kv)
  qed
  from JObj.prems have d: "distinct (map fst kvs)"
    by simp
  show ?case
    unfolding round_trips_def
  proof (intro conjI allI impI)
    show "starts_value (encode nt (JObj kvs))"
      by (simp add: starts_value_def)
    fix n rest
    assume a: "delimited rest \<and> length (encode nt (JObj kvs)) \<le> n"
    then obtain m where n: "n = Suc m"
      by (cases n) auto
    show "scan_once nt n (encode nt (JObj kvs) @ rest) = Some (JObj kvs, rest)"
    proof (cases kvs)
      case Nil
      then show ?thesis
        by (simp add: n skip_ws_punct)
    next
      case (Cons kv ys)
      define J where "J = str_join '', '' (map (encode_member nt) kvs) @ CHR ''}'' # rest"
      from a have "length (str_join '', '' (map (encode_member nt) kvs)) < m"
        by (simp add: n encode_JObj del: encode.simps)
      from JSONObject_members [of kvs nt m rest "[]", OF rt _ this]
      have 1: "JSONObject nt m J [] = Some (JObj kvs, rest)"
        by (simp add: Cons J_def dict_of_pairs_distinct [OF d, unfolded Cons])
      have "\<exists>u. J = CHR 0x22 # u"
        using encode_member_starts [of nt kv] by (cases ys) (auto simp: J_def Cons)
      then obtain u where 2: "J = CHR 0x22 # u"
        by blast
      have "encode nt (JObj kvs) @ rest = CHR ''{'' # J"
        by (simp add: J_def encode_JObj del: encode.simps)
      with 1 2 show ?thesis
        by (simp add: n skip_ws_punct)
    qed
  qed
qed

lemma loads_dumps:
  assumes "unique_keys obj" "\<forall>r\<in>set (numbers obj). reads_back nt r"
  shows "json_loads nt (json_dumps nt obj) = Some obj"
proof -
  from round_trip [OF assms] have s: "starts_value (encode nt obj)"
    and "\<forall>n rest. delimited rest \<and> length (encode nt obj) \<le> n
            \<longrightarrow> scan_once nt n (encode nt obj @ rest) = Some (obj, rest)"
    by (simp_all add: round_trips_def)
  then have "delimited [] \<and> length (encode nt obj) \<le> length (encode nt obj)
      \<longrightarrow> scan_once nt (length (encode nt obj)) (encode nt obj @ []) = Some (obj, [])"
    by blast
  then have r: "scan_once nt (length (encode nt obj)) (encode nt obj @ []) = Some (obj, [])"
    by (simp add: delimited_punct)
  from starts_value_skip_ws [OF s, of "[]"] r show ?thesis
    by (simp add: json_loads_def json_dumps_def skip_ws_def)
qed

subsection \<open>The normalised invoice in storage\<close>

lemma line_item_dict_unique_keys: "unique_keys (line_item_dict li)"
  by (simp add: line_item_dict_def opt_entry_def split: option.splits)

lemma normalized_unique_keys:
  assumes "normalize_invoice_fields lib raw fid = Inr out"
  shows "unique_keys (JObj out)"
proof -
  from assms obtain lis v_vendor v_number v_idate v_ddate v_currency v_total v_tax v_terms where
    out: "out = [(''vendor'', JStr v_vendor), (''invoice_number'', JStr v_number)]
           @ opt_entry ''invoice_date'' JStr (map_option datetime_isoformat v_idate)
           @ opt_entry ''due_date'' JStr (map_option datetime_isoformat v_ddate)
           @ opt_entry ''currency'' JStr v_currency
           @ [(''total'', JNum v_total)]
           @ opt_entry ''tax'' JNum v_tax
           @ opt_entry ''payment_terms'' JStr v_terms
           @ [(''line_items'', JArr (map line_item_dict lis))]"
    by (rule normalize_invoice_fields_Inr)
  have "list_all unique_keys (map line_item_dict lis)"
    by (simp add: list_all_iff line_item_dict_unique_keys)
  then show ?thesis
    unfolding out
    by (simp add: opt_entry_def split: option.splits)
qed

lemma normalized_round_trip:
  assumes "normalize_invoice_fields lib raw fid = Inr out"
    "\<forall>r\<in>set (numbers (JObj out)). reads_back nt r"
  shows "json_loads nt (json_dumps nt (JObj out)) = Some (JObj out)"
  by (rule loads_dumps [OF normalized_unique_keys [OF assms(1)] assms(2)])

lemma whole_floats_125: "reads_back whole_floats 125"
  by code_simp

lemma whole_floats_5: "reads_back whole_floats 5"
  by code_simp

lemma whole_floats_25: "reads_back whole_floats 25"
  by code_simp

text \<open>
  C6, as the code has it. The three spellings of 5 January 2024 parse to the same date, so
  the three invoices normalise to the same result, field by field. The field is typed
  \<open>datetime\<close>: with a library that turns a date into the datetime at midnight, the string
  stored is \<open>2024-01-05T00:00:00\<close>. A normalised invoice written to storage with
  \<open>json.dumps\<close> and read with \<open>json.loads\<close> is the same dict again, whenever the text of
  each of its numbers reads back as that number.
\<close>

theorem three_formats_one_datetime:
  "parse_date_value (JStr ''01/05/2024'') = DateObject jan5
   \<and> parse_date_value (JStr ''2024-01-05'') = DateObject jan5
   \<and> parse_date_value (JStr ''2024/01/05'') = DateObject jan5
   \<and> normalize_invoice_fields lib ((''invoice_date'', JStr ''01/05/2024'') # raw) fid
       = normalize_invoice_fields lib ((''invoice_date'', JStr ''2024-01-05'') # raw) fid
   \<and> normalize_invoice_fields lib ((''invoice_date'', JStr ''2024/01/05'') # raw) fid
       = normalize_invoice_fields lib ((''invoice_date'', JStr ''2024-01-05'') # raw) fid
   \<and> (datetime_field lib (DateObject jan5) = Some (at_midnight jan5)
       \<and> v \<in> {''01/05/2024'', ''2024-01-05'', ''2024/01/05''}
       \<and> normalize_invoice_fields lib ((''invoice_date'', JStr v) # raw) fid = Inr out \<longrightarrow>
         dict_get out ''invoice_date'' = Some (JStr ''2024-01-05T00:00:00''))
   \<and> (normalize_invoice_fields lib payload fid = Inr kept
       \<and> (\<forall>r\<in>set (numbers (JObj kept)). reads_back nt r) \<longrightarrow>
         json_loads nt (json_dumps nt (JObj kept)) = Some (JObj kept))"
proof -
  have iso: "datetime_isoformat (at_midnight jan5) = ''2024-01-05T00:00:00''"
    by code_simp
  have last: "dict_get out ''invoice_date'' = Some (JStr ''2024-01-05T00:00:00'')"
    if a: "datetime_field lib (DateObject jan5) = Some (at_midnight jan5)
       \<and> v \<in> {''01/05/2024'', ''2024-01-05'', ''2024/01/05''}
       \<and> normalize_invoice_fields lib ((''invoice_date'', JStr v) # raw) fid = Inr out"
  proof -
    from a have "parse_date_value (JStr v) = DateObject jan5"
      using scenario_dates by auto
    from parsed_date_outcome [OF this, of lib raw fid out] a iso show ?thesis
      by auto
  qed
  have stored: "json_loads nt (json_dumps nt (JObj kept)) = Some (JObj kept)"
    if "normalize_invoice_fields lib payload fid = Inr kept
       \<and> (\<forall>r\<in>set (numbers (JObj kept)). reads_back nt r)"
    using that normalized_round_trip [of lib payload fid kept nt] by blast
  from scenario_dates last stored
    same_date_same_result [of "JStr ''01/05/2024''" "JStr ''2024-01-05''" lib raw fid]
    same_date_same_result [of "JStr ''2024/01/05''" "JStr ''2024-01-05''" lib raw fid]
  show ?thesis by simp
qed

theorem three_formats_one_datetime_witness:
  "dict_get [(''vendor'', JStr ''Acme Corp''), (''invoice_number'', JStr ''INV-1024''),
             (''invoice_date'', JStr ''2024-01-05T00:00:00''), (''total'', JNum 125),
             (''line_items'',
              JArr [JObj [(''qty'', JNum 5), (''description'', JStr ''Barrels''),
                          (''unit_price'', JNum 25), (''amount'', JNum 125)]])]
     ''invoice_date'' = Some (JStr ''2024-01-05T00:00:00'')
   \<and> json_dumps whole_floats
        (JObj [(''vendor'', JStr ''Acme Corp''), (''invoice_number'', JStr ''INV-1024''),
               (''invoice_date'', JStr ''2024-01-05T00:00:00''), (''total'', JNum 125),
               (''line_items'',
                JArr [JObj [(''qty'', JNum 5), (''description'', JStr ''Barrels''),
                            (''unit_price'', JNum 25), (''amount'', JNum 125)]])])
       = map (\<lambda>c. if c = CHR ''|'' then CHR 0x22 else c)
           (''{|vendor|: |Acme Corp|, |invoice_number|: |INV-1024|, ''
            @ ''|invoice_date|: |2024-01-05T00:00:00|, |total|: 125.0, ''
            @ ''|line_items|: [{|qty|: 5.0, |description|: |Barrels|, ''
            @ ''|unit_price|: 25.0, |amount|: 125.0}]}'')
   \<and> json_loads whole_floats
        (json_dumps whole_floats
          (JObj [(''vendor'', JStr ''Acme Corp''), (''invoice_number'', JStr ''INV-1024''),
                 (''invoice_date'', JStr ''2024-01-05T00:00:00''), (''total'', JNum 125),
                 (''line_items'',
                  JArr [JObj [(''qty'', JNum 5), (''description'', JStr ''Barrels''),
                              (''unit_price'', JNum 25), (''amount'', JNum 125)]])]))
       = Some (JObj [(''vendor'', JStr ''Acme Corp''), (''invoice_number'', JStr ''INV-1024''),
                     (''invoice_date'', JStr ''2024-01-05T00:00:00''), (''total'', JNum 125),
                     (''line_items'',
                      JArr [JObj [(''qty'', JNum 5), (''description'', JStr ''Barrels''),
                                  (''unit_price'', JNum 25), (''amount'', JNum 125)]])])"
proof -
  have a: "datetime_field example_lib (DateObject jan5) = Some (at_midnight jan5)"
    by (simp add: example_lib_def)
  have b: "''2024/01/05'' \<in> {''01/05/2024'', ''2024-01-05'', ''2024/01/05''}"
    by simp
  have c: "normalize_invoice_fields example_lib
            ((''invoice_date'', JStr ''2024/01/05'') # tl (dated_invoice [])) ''doc_1'' =
          Inr [(''vendor'', JStr ''Acme Corp''), (''invoice_number'', JStr ''INV-1024''),
             (''invoice_date'', JStr ''2024-01-05T00:00:00''), (''total'', JNum 125),
             (''line_items'',
              JArr [JObj [(''qty'', JNum 5), (''description'', JStr ''Barrels''),
                          (''unit_price'', JNum 25), (''amount'', JNum 125)]])]"
    by code_simp
  have n: "\<forall>r\<in>set (numbers
             (JObj [(''vendor'', JStr ''Acme Corp''), (''invoice_number'', JStr ''INV-1024''),
                    (''invoice_date'', JStr ''2024-01-05T00:00:00''), (''total'', JNum 125),
                    (''line_items'',
                     JArr [JObj [(''qty'', JNum 5), (''description'', JStr ''Barrels''),
                                 (''unit_price'', JNum 25), (''amount'', JNum 125)]])])).
           reads_back whole_floats r"
    by (simp add: whole_floats_125 whole_floats_5 whole_floats_25)
  have 1: "dict_get [(''vendor'', JStr ''Acme Corp''), (''invoice_number'', JStr ''INV-1024''),
             (''invoice_date'', JStr ''2024-01-05T00:00:00''), (''total'', JNum 125),
             (''line_items'',
              JArr [JObj [(''qty'', JNum 5), (''description'', JStr ''Barrels''),
                          (''unit_price'', JNum 25), (''amount'', JNum 125)]])]
     ''invoice_date'' = Some (JStr ''2024-01-05T00:00:00'')"
    by (rule three_formats_one_datetime [THEN conjunct2, THEN conjunct2, THEN conjunct2,
          THEN conjunct2, THEN conjunct2, THEN conjunct1, THEN mp, OF conjI [OF a conjI [OF b c]]])
  have 2: "json_dumps whole_floats
        (JObj [(''vendor'', JStr ''Acme Corp''), (''invoice_number'', JStr ''INV-1024''),
               (''invoice_date'', JStr ''2024-01-05T00:00:00''), (''total'', JNum 125),
               (''line_items'',
                JArr [JObj [(''qty'', JNum 5), (''description'', JStr ''Barrels''),
                            (''unit_price'', JNum 25), (''amount'', JNum 125)]])])
       = map (\<lambda>c. if c = CHR ''|'' then CHR 0x22 else c)
           (''{|vendor|: |Acme Corp|, |invoice_number|: |INV-1024|, ''
            @ ''|invoice_date|: |2024-01-05T00:00:00|, |total|: 125.0, ''
            @ ''|line_items|: [{|qty|: 5.0, |description|: |Barrels|, ''
            @ ''|unit_price|: 25.0, |amount|: 125.0}]}'')"
    by code_simp
  have 3: "json_loads whole_floats
        (json_dumps whole_floats
          (JObj [(''vendor'', JStr ''Acme Corp''), (''invoice_number'', JStr ''INV-1024''),
                 (''invoice_date'', JStr ''2024-01-05T00:00:00''), (''total'', JNum 125),
                 (''line_items'',
                  JArr [JObj [(''qty'', JNum 5), (''description'', JStr ''Barrels''),
                              (''unit_price'', JNum 25), (''amount'', JNum 125)]])]))
       = Some (JObj [(''vendor'', JStr ''Acme Corp''), (''invoice_number'', JStr ''INV-1024''),
                     (''invoice_date'', JStr ''2024-01-05T00:00:00''), (''total'', JNum 125),
                     (''line_items'',
                      JArr [JObj [(''qty'', JNum 5), (''description'', JStr ''Barrels''),
                                  (''unit_price'', JNum 25), (''amount'', JNum 125)]])])"
    by (rule three_formats_one_datetime [THEN conjunct2, THEN conjunct2, THEN conjunct2,
          THEN conjunct2, THEN conjunct2, THEN conjunct2, THEN mp, OF conjI [OF c n]])
  from 1 2 3 show ?thesis by (intro conjI)
qed

text \<open>The string stored for \<open>01/05/2024\<close> is \<open>2024-01-05T00:00:00\<close>, not \<open>2024-01-05\<close>.\<close>

theorem iso_date_only_counterexample:
  "normalize_invoice_fields example_lib (dated_invoice ''01/05/2024'') ''doc_1'' =
     Inr [(''vendor'', JStr ''Acme Corp''), (''invoice_number'', JStr ''INV-1024''),
          (''invoice_date'', JStr ''2024-01-05T00:00:00''), (''total'', JNum 125),
          (''line_items'',
           JArr [JObj [(''qty'', JNum 5), (''description'', JStr ''Barrels''),
                       (''unit_price'', JNum 25), (''amount'', JNum 125)]])]
   \<and> JStr ''2024-01-05T00:00:00'' \<noteq> JStr ''2024-01-05''"
  by code_simp

end
